theory Spec2Isabelle
  imports Main "HOL-Library.Monad_Syntax" "HOL-Library.Sublist"
begin

section \<open>Strings as the source uses them\<close>

text \<open>
  A JavaScript string is modelled as a \<^typ>\<open>string\<close>; an optional string (\<open>s?: string\<close>)
  as a \<^typ>\<open>string option\<close>, \<open>None\<close> being \<open>undefined\<close>. In a condition JavaScript takes
  \<open>undefined\<close> and the empty string for false and every other string for true.
\<close>

definition truthy :: "string option \<Rightarrow> bool" where
  "truthy so = (case so of None \<Rightarrow> False | Some s \<Rightarrow> s \<noteq> [])"

text \<open>\<open>s.startsWith(p)\<close>, \<open>s.endsWith(p)\<close> and \<open>s.includes(p)\<close>.\<close>

fun startsWith :: "string \<Rightarrow> string \<Rightarrow> bool" where
  "startsWith s [] = True"
| "startsWith [] (p # ps) = False"
| "startsWith (c # cs) (p # ps) = (c = p \<and> startsWith cs ps)"

definition endsWith :: "string \<Rightarrow> string \<Rightarrow> bool" where
  "endsWith s p = startsWith (rev s) (rev p)"

fun includesStr :: "string \<Rightarrow> string \<Rightarrow> bool" where
  "includesStr [] p = (p = [])"
| "includesStr (c # cs) p = (startsWith (c # cs) p \<or> includesStr cs p)"

text \<open>The class \<open>\d\<close> of a JavaScript regular expression: the ten ASCII digits.\<close>

definition isDigit :: "char \<Rightarrow> bool" where
  "isDigit c = (c \<in> set ''0123456789'')"

text \<open>
  \<open>\d+\<close> at the head of the input: the longest run of digits, which must not be empty,
  and the input after it. Every pattern of the source follows \<open>\d+\<close> by a character that
  is no digit or by the end of the pattern, so that the longest run is the only run a
  backtracking matcher can succeed with.
\<close>

definition digits1 :: "string \<Rightarrow> (string \<times> string) option" where
  "digits1 s =
     (let d = takeWhile isDigit s
      in if d = [] then None else Some (d, dropWhile isDigit s))"

text \<open>One literal character at the head of the input.\<close>

definition lit :: "char \<Rightarrow> string \<Rightarrow> string option" where
  "lit c s = (case s of [] \<Rightarrow> None | x # r \<Rightarrow> if x = c then Some r else None)"

text \<open>\<open>\d+\.\d+\.\d+\<close> at the head of the input: the text matched and the input after it.\<close>

definition semverPrefix :: "string \<Rightarrow> (string \<times> string) option" where
  "semverPrefix s = do {
     (x, r1) \<leftarrow> digits1 s;
     r2 \<leftarrow> lit CHR ''.'' r1;
     (y, r3) \<leftarrow> digits1 r2;
     r4 \<leftarrow> lit CHR ''.'' r3;
     (z, r5) \<leftarrow> digits1 r4;
     Some (x @ ''.'' @ y @ ''.'' @ z, r5)
   }"

section \<open>The version parser (\<open>utils/version-parser.ts\<close>)\<close>

record ParsedVersion =
  version :: string
  buildNumber :: "string option"

text \<open>\<open>/^(\d+\.\d+\.\d+)\+(\d+)$/\<close>: the two groups of a match.\<close>

definition plusPattern :: "string \<Rightarrow> (string \<times> string) option" where
  "plusPattern s = do {
     (v, r1) \<leftarrow> semverPrefix s;
     r2 \<leftarrow> lit CHR ''+'' r1;
     (b, r3) \<leftarrow> digits1 r2;
     if r3 = [] then Some (v, b) else None
   }"

text \<open>\<open>/^(\d+\.\d+\.\d+)\((\d+)\)$/\<close>: the two groups of a match.\<close>

definition parenPattern :: "string \<Rightarrow> (string \<times> string) option" where
  "parenPattern s = do {
     (v, r1) \<leftarrow> semverPrefix s;
     r2 \<leftarrow> lit CHR ''('' r1;
     (b, r3) \<leftarrow> digits1 r2;
     r4 \<leftarrow> lit CHR '')'' r3;
     if r4 = [] then Some (v, b) else None
   }"

text \<open>\<open>/^(\d+\.\d+\.\d+)$/\<close>: the group of a match.\<close>

definition versionOnlyPattern :: "string \<Rightarrow> string option" where
  "versionOnlyPattern s = do {
     (v, r1) \<leftarrow> semverPrefix s;
     if r1 = [] then Some v else None
   }"

definition parseVersion :: "string \<Rightarrow> ParsedVersion" where
  "parseVersion versionString =
     (let normalizedVersion =
            (if startsWith versionString ''v'' then drop 1 versionString else versionString)
      in case plusPattern normalizedVersion of
           Some (v, b) \<Rightarrow> \<lparr>ParsedVersion.version = v, ParsedVersion.buildNumber = Some b\<rparr>
         | None \<Rightarrow>
      (case parenPattern normalizedVersion of
           Some (v, b) \<Rightarrow> \<lparr>ParsedVersion.version = v, ParsedVersion.buildNumber = Some b\<rparr>
         | None \<Rightarrow>
      (case versionOnlyPattern normalizedVersion of
           Some v \<Rightarrow> \<lparr>ParsedVersion.version = v, ParsedVersion.buildNumber = None\<rparr>
         | None \<Rightarrow> \<lparr>ParsedVersion.version = normalizedVersion, ParsedVersion.buildNumber = None\<rparr>)))"

text \<open>\<open>if (buildNumber)\<close> holds for a build number that is present and not empty.\<close>

definition formatVersion :: "string \<Rightarrow> string option \<Rightarrow> string" where
  "formatVersion v b =
     (if truthy b then v @ ''+'' @ the b else v)"

subsection \<open>The version forms of the specification\<close>

text \<open>
  The specification names its forms by digit strings \<open>X\<close>, \<open>Y\<close>, \<open>Z\<close> and \<open>B\<close>. These
  definitions follow its words, not the source: a digit string is a non-empty string of
  digits, \<open>semver X Y Z\<close> is the text \<open>X.Y.Z\<close>, and the supported forms are the five it
  lists.
\<close>

definition digits :: "string \<Rightarrow> bool" where
  "digits s = (s \<noteq> [] \<and> list_all isDigit s)"

definition semver :: "string \<Rightarrow> string \<Rightarrow> string \<Rightarrow> string" where
  "semver X Y Z = X @ ''.'' @ Y @ ''.'' @ Z"

definition supportedForms :: "string \<Rightarrow> string \<Rightarrow> string \<Rightarrow> string \<Rightarrow> string set" where
  "supportedForms X Y Z B =
     {semver X Y Z,
      semver X Y Z @ ''+'' @ B,
      ''v'' @ semver X Y Z @ ''+'' @ B,
      semver X Y Z @ ''('' @ B @ '')'',
      ''v'' @ semver X Y Z @ ''('' @ B @ '')''}"

section \<open>More of JavaScript's strings and arrays\<close>

text \<open>
  \<open>s.toLowerCase()\<close> on the ASCII letters; the file names and identifiers of the model are
  ASCII text.
\<close>

definition toLowerChar :: "char \<Rightarrow> char" where
  "toLowerChar c =
     (let n = (of_char c :: nat) in if 65 \<le> n \<and> n \<le> 90 then char_of (n + 32) else c)"

definition toLowerCase :: "string \<Rightarrow> string" where
  "toLowerCase s = map toLowerChar s"

text \<open>
  \<open>n.toString()\<close> for a build number: its decimal digits. This is what JavaScript
  writes for the integers that a number holds exactly (up to \<open>2^53\<close>), which the numbers of
  the build runs are; above, a number is rounded, and from \<open>10^21\<close> on it is written with
  an exponent, which is outside the model.
\<close>

fun toString :: "nat \<Rightarrow> string" where
  "toString n =
     (if n < 10 then [''0123456789'' ! n]
      else toString (n div 10) @ [''0123456789'' ! (n mod 10)])"

declare toString.simps [simp del]

text \<open>\<open>xs.join(sep)\<close> for an array of strings.\<close>

fun joinWith :: "string \<Rightarrow> string list \<Rightarrow> string" where
  "joinWith sep [] = []"
| "joinWith sep [x] = x"
| "joinWith sep (x # y # ys) = x @ sep @ joinWith sep (y # ys)"

text \<open>\<open>s.split(c)\<close> for a separator of one character: never an empty array.\<close>

fun split :: "char \<Rightarrow> string \<Rightarrow> string list" where
  "split sep [] = [[]]"
| "split sep (c # cs) =
     (if c = sep then [] # split sep cs
      else (case split sep cs of [] \<Rightarrow> [[c]] | x # xs \<Rightarrow> (c # x) # xs))"

text \<open>
  \<open>xs.slice(0, e)\<close>: a negative end counts from the end of the array.
\<close>

definition slice0 :: "'a list \<Rightarrow> int \<Rightarrow> 'a list" where
  "slice0 xs e = (if e < 0 then take (nat (int (length xs) + e)) xs else take (nat e) xs)"

text \<open>
  The first match of the unanchored \<open>/(\d+\.\d+\.\d+)/\<close>: the match at the leftmost position
  that has one.
\<close>

fun firstSemver :: "string \<Rightarrow> string option" where
  "firstSemver [] = None"
| "firstSemver (c # cs) =
     (case semverPrefix (c # cs) of Some (v, r) \<Rightarrow> Some v | None \<Rightarrow> firstSemver cs)"

section \<open>The shared types (\<open>types/index.ts\<close>)\<close>

text \<open>
  \<open>limit\<close> is a JavaScript number: an integer here, \<open>None\<close> when the option is absent or
  is not a number (\<open>parseInt\<close> of text that is no number), both of which a condition takes
  for false.
\<close>

record SearchOptions =
  appId :: string
  limit :: "int option"
  version :: "string option"
  buildNumber :: "string option"
  artifactType :: "string option"

text \<open>
  An artifact as \<open>search\<close> builds it: the optional \<open>downloadUrl\<close> is never set there and is
  left out. \<open>uploadedAt\<close> is the \<open>Date\<close> made from the upstream's timestamp; the model keeps
  the timestamp's text.
\<close>

record Artifact =
  id :: string
  version :: string
  buildNumber :: string
  artifactType :: string
  fileName :: string
  fileSize :: nat
  uploadedAt :: string
  provider :: string

text \<open>
  A value that is thrown: the name of its class (\<open>Error\<close> for \<open>new Error(...)\<close>,
  \<open>AxiosError\<close> for what the HTTP client throws), the status of the HTTP response when there
  was one (\<open>error.response?.status\<close>), and its message.
\<close>

datatype failure = Failure (errorName: string) (responseStatus: "nat option") (message: string)

definition newError :: "string \<Rightarrow> failure" where
  "newError msg = Failure ''Error'' None msg"

text \<open>\<open>options.limit || 3\<close>\<close>

definition limitOr3 :: "SearchOptions \<Rightarrow> int" where
  "limitOr3 options = (case limit options of None \<Rightarrow> 3 | Some n \<Rightarrow> if n = 0 then 3 else n)"

text \<open>
  A loop body that can leave the enclosing function: \<open>Return\<close> carries the function's
  result, \<open>Continue\<close> the state the loop goes on with.
\<close>

datatype ('s, 'r) loop = Continue 's | Return 'r

section \<open>The App Store Connect provider (\<open>providers/app-store-connect.ts\<close>)\<close>

text \<open>The objects of the upstream's JSON answers, with the fields the source reads.\<close>

record XcodeCloudProduct =
  product_id :: string
  product_name :: string

record BuildRun =
  run_id :: string
  run_number :: nat
  run_createdDate :: string

record BuildAction =
  action_id :: string
  action_actionType :: string
  action_name :: string

record CiArtifact =
  ci_id :: string
  ci_fileName :: string
  ci_fileSize :: nat

text \<open>
  The requests of the provider, as they are sent: the path with its identifier, and the
  \<open>limit\<close> parameter of the build runs request (sent with \<open>sort = -number\<close>).
\<close>

datatype asc_request =
    CiProducts
  | BuildRuns string int
  | Actions string
  | Artifacts string

text \<open>
  The upstream service and the key file: what \<open>generateToken\<close> gives, and what the HTTP
  client gives for each request, an answer or the error it throws. The answer's \<open>data\<close> is
  an array as the source's casts say; \<open>listProducts\<close> alone guards against an answer
  without one, so the products' \<open>data\<close> is optional.
\<close>

record AppStoreConnect =
  generateToken :: "failure + string"
  getCiProducts :: "failure + XcodeCloudProduct list option"
  getBuildRuns :: "string \<Rightarrow> int \<Rightarrow> failure + BuildRun list"
  getActions :: "string \<Rightarrow> failure + BuildAction list"
  getArtifacts :: "string \<Rightarrow> failure + CiArtifact list"

text \<open>
  \<open>request\<close>: the token first, then the GET, whose error is caught, logged and thrown again
  as it is. The second argument is the request sent and the third what the HTTP client
  gives for it; the log of the requests sent is threaded through.
\<close>

definition AppStoreConnectProvider_request ::
  "AppStoreConnect \<Rightarrow> asc_request \<Rightarrow> failure + 'a \<Rightarrow> asc_request list
     \<Rightarrow> asc_request list \<times> (failure + 'a)" where
  "AppStoreConnectProvider_request api r response log =
     (case generateToken api of
        Inl e \<Rightarrow> (log, Inl e)
      | Inr token \<Rightarrow>
          (case response of
             Inr data \<Rightarrow> (log @ [r], Inr data)
           | Inl error \<Rightarrow> (log @ [r], Inl error)))"

record ProductSummary =
  ps_id :: string
  ps_name :: string
  ps_platform :: "string option"

definition AppStoreConnectProvider_listProducts ::
  "AppStoreConnect \<Rightarrow> failure + ProductSummary list" where
  "AppStoreConnectProvider_listProducts api =
     (case snd (AppStoreConnectProvider_request api CiProducts (getCiProducts api) []) of
        Inl error \<Rightarrow> Inl error
      | Inr None \<Rightarrow> Inr []
      | Inr (Some productsData) \<Rightarrow>
          Inr (map (\<lambda>p. \<lparr>ps_id = product_id p, ps_name = product_name p,
                           ps_platform = Some ''ios''\<rparr>) productsData))"

text \<open>The artifact type read from the file name (lines 168 to 186 of \<open>search\<close>).\<close>

definition artifactTypeOf :: "string \<Rightarrow> string" where
  "artifactTypeOf name =
     (let lowerFileName = toLowerCase name in
      if includesStr lowerFileName ''development'' then ''development''
      else if includesStr lowerFileName ''ad-hoc'' \<or> includesStr lowerFileName ''ad_hoc''
        then ''ad_hoc''
      else if includesStr lowerFileName ''app-store'' \<or> includesStr lowerFileName ''app_store''
        then ''app_store''
      else if includesStr lowerFileName ''logs'' then ''logs''
      else if includesStr lowerFileName ''xcresult'' \<or> includesStr lowerFileName ''.xcresult''
        then ''xcresult''
      else if includesStr lowerFileName ''.xcarchive'' then ''xcarchive''
      else if endsWith lowerFileName ''.ipa'' then ''ipa''
      else ''archive'')"

definition ipaTypes :: "string list" where
  "ipaTypes = [''development'', ''ad_hoc'', ''app_store'']"

text \<open>
  The filter by artifact type (lines 193 to 199): false where the source says
  \<open>continue\<close>.
\<close>

definition passesTypeFilter :: "SearchOptions \<Rightarrow> string \<Rightarrow> bool" where
  "passesTypeFilter options atype =
     (if truthy (SearchOptions.artifactType options) then
        (if SearchOptions.artifactType options = Some ''ipa'' \<and> atype \<in> set ipaTypes
         then True
         else \<not> (atype \<noteq> the (SearchOptions.artifactType options)))
      else True)"

text \<open>The version read from the file name (lines 202 to 211).\<close>

definition versionOf :: "string \<Rightarrow> string" where
  "versionOf name = (case firstSemver name of Some v \<Rightarrow> v | None \<Rightarrow> ''unknown'')"

text \<open>The artifact pushed for an upstream artifact of a build run (lines 213 to 222).\<close>

definition newArtifact :: "SearchOptions \<Rightarrow> BuildRun \<Rightarrow> CiArtifact \<Rightarrow> Artifact" where
  "newArtifact options buildRun artifact =
     \<lparr>id = ci_id artifact,
      version = (if truthy (SearchOptions.version options)
                 then the (SearchOptions.version options)
                 else versionOf (ci_fileName artifact)),
      buildNumber = toString (run_number buildRun),
      artifactType = artifactTypeOf (ci_fileName artifact),
      fileName = ci_fileName artifact,
      fileSize = ci_fileSize artifact,
      uploadedAt = run_createdDate buildRun,
      provider = ''app-store-connect''\<rparr>"

text \<open>The loop over the artifacts of one action (lines 165 to 228).\<close>

fun artifactLoop ::
  "SearchOptions \<Rightarrow> BuildRun \<Rightarrow> CiArtifact list \<Rightarrow> Artifact list
     \<Rightarrow> (Artifact list, Artifact list) loop" where
  "artifactLoop options buildRun [] artifacts = Continue artifacts"
| "artifactLoop options buildRun (artifact # rest) artifacts =
     (if \<not> passesTypeFilter options (artifactTypeOf (ci_fileName artifact))
      then artifactLoop options buildRun rest artifacts
      else
        (let artifacts' = artifacts @ [newArtifact options buildRun artifact] in
         if int (length artifacts') \<ge> limitOr3 options
         then Return (slice0 artifacts' (limitOr3 options))
         else artifactLoop options buildRun rest artifacts'))"

text \<open>The loop over the archive actions of one build run (lines 159 to 229).\<close>

fun actionLoop ::
  "AppStoreConnect \<Rightarrow> SearchOptions \<Rightarrow> BuildRun \<Rightarrow> BuildAction list \<Rightarrow> Artifact list
     \<Rightarrow> asc_request list
     \<Rightarrow> asc_request list \<times> (failure + (Artifact list, Artifact list) loop)" where
  "actionLoop api options buildRun [] artifacts log = (log, Inr (Continue artifacts))"
| "actionLoop api options buildRun (action # rest) artifacts log =
     (case AppStoreConnectProvider_request api (Artifacts (action_id action))
             (getArtifacts api (action_id action)) log of
        (log', Inl e) \<Rightarrow> (log', Inl e)
      | (log', Inr artifactsData) \<Rightarrow>
          (case artifactLoop options buildRun artifactsData artifacts of
             Return result \<Rightarrow> (log', Inr (Return result))
           | Continue artifacts' \<Rightarrow> actionLoop api options buildRun rest artifacts' log'))"

text \<open>The loop over the build runs (lines 143 to 230).\<close>

fun buildRunLoop ::
  "AppStoreConnect \<Rightarrow> SearchOptions \<Rightarrow> BuildRun list \<Rightarrow> Artifact list \<Rightarrow> asc_request list
     \<Rightarrow> asc_request list \<times> (failure + (Artifact list, Artifact list) loop)" where
  "buildRunLoop api options [] artifacts log = (log, Inr (Continue artifacts))"
| "buildRunLoop api options (buildRun # rest) artifacts log =
     (if truthy (SearchOptions.buildNumber options) \<and>
         toString (run_number buildRun) \<noteq> the (SearchOptions.buildNumber options)
      then buildRunLoop api options rest artifacts log
      else
        (case AppStoreConnectProvider_request api (Actions (run_id buildRun))
                (getActions api (run_id buildRun)) log of
           (log', Inl e) \<Rightarrow> (log', Inl e)
         | (log', Inr actionsData) \<Rightarrow>
             (let archiveActions =
                    filter (\<lambda>action. action_actionType action = ''ARCHIVE'') actionsData
              in case actionLoop api options buildRun archiveActions artifacts log' of
                   (log'', Inl e) \<Rightarrow> (log'', Inl e)
                 | (log'', Inr (Return result)) \<Rightarrow> (log'', Inr (Return result))
                 | (log'', Inr (Continue artifacts')) \<Rightarrow>
                     buildRunLoop api options rest artifacts' log'')))"

definition productNotFound :: "string \<Rightarrow> string list \<Rightarrow> string" where
  "productNotFound app availableProducts =
     ''Product \"'' @ app @ ''\" not found in Xcode Cloud.'' @ [CHR 0x0A] @
     ''Note: For App Store Connect, use the Xcode Cloud product name (usually your repository name), not the bundle ID.'' @ [CHR 0x0A] @
     ''Available products: '' @
     (if length availableProducts > 0 then joinWith '', '' availableProducts else ''none'')"

text \<open>
  \<open>search\<close>: the log of the requests it sent, and the artifacts or the error thrown.
  Reading \<open>data\<close> of a products answer without one throws a \<open>TypeError\<close>.
\<close>

definition AppStoreConnectProvider_search ::
  "AppStoreConnect \<Rightarrow> SearchOptions \<Rightarrow> asc_request list \<times> (failure + Artifact list)" where
  "AppStoreConnectProvider_search api options =
     (case AppStoreConnectProvider_request api CiProducts (getCiProducts api) [] of
        (log1, Inl e) \<Rightarrow> (log1, Inl e)
      | (log1, Inr None) \<Rightarrow>
          (log1, Inl (Failure ''TypeError'' None
                        ''Cannot read properties of undefined (reading 'find')''))
      | (log1, Inr (Some productsData)) \<Rightarrow>
          (case find (\<lambda>p. product_name p = appId options) productsData of
             None \<Rightarrow>
               (log1, Inl (newError (productNotFound (appId options)
                                       (map product_name productsData))))
           | Some product \<Rightarrow>
               (let buildRunLimit = max (limitOr3 options * 3) 20 in
                case AppStoreConnectProvider_request api
                       (BuildRuns (product_id product) buildRunLimit)
                       (getBuildRuns api (product_id product) buildRunLimit) log1 of
                  (log2, Inl e) \<Rightarrow> (log2, Inl e)
                | (log2, Inr buildRunsData) \<Rightarrow>
                    (case buildRunLoop api options buildRunsData [] log2 of
                       (log3, Inl e) \<Rightarrow> (log3, Inl e)
                     | (log3, Inr (Return result)) \<Rightarrow> (log3, Inr result)
                     | (log3, Inr (Continue artifacts)) \<Rightarrow> (log3, Inr artifacts)))))"

section \<open>The Firebase App Distribution provider (\<open>providers/firebase-app-distribution.ts\<close>)\<close>

text \<open>
  An app of the management API's answer, with the fields the source reads, and a release
  of the distribution API's answer.
\<close>

record FirebaseApp =
  app_appId :: string
  app_displayName :: string
  app_bundleId :: "string option"
  app_packageName :: "string option"

record Release =
  release_name :: string
  release_displayVersion :: string
  release_buildVersion :: string
  release_createTime :: string

text \<open>
  The requests of the provider: the two app lists of the configured project, and the
  releases of an app (project number, app id) with the \<open>pageSize\<close> parameter. The
  project id of the configuration is part of the two app list URLs and is copied into the
  app that \<open>findApp\<close> returns; it is not read again and is left out.
\<close>

datatype fb_request =
    AndroidApps
  | IosApps
  | Releases string string int

text \<open>
  The upstream services and the service account: the token the
  auth client gives (its \<open>token\<close> may be missing), and what the HTTP client gives for each
  request. The \<open>apps\<close> and \<open>releases\<close> of an answer may be missing.
\<close>

record Firebase =
  accessToken :: "failure + string option"
  getAndroidApps :: "failure + FirebaseApp list option"
  getIosApps :: "failure + FirebaseApp list option"
  getReleases :: "string \<Rightarrow> string \<Rightarrow> int \<Rightarrow> failure + Release list option"

definition getAccessToken :: "Firebase \<Rightarrow> failure + string" where
  "getAccessToken api =
     (case accessToken api of
        Inl e \<Rightarrow> Inl e
      | Inr token \<Rightarrow>
          if \<not> truthy token then Inl (newError ''Failed to get access token'')
          else Inr (the token))"

text \<open>\<open>request\<close>: the token first, then the GET; nothing is caught.\<close>

definition FirebaseAppDistributionProvider_request ::
  "Firebase \<Rightarrow> fb_request \<Rightarrow> failure + 'a \<Rightarrow> fb_request list
     \<Rightarrow> fb_request list \<times> (failure + 'a)" where
  "FirebaseAppDistributionProvider_request api r response log =
     (case getAccessToken api of
        Inl e \<Rightarrow> (log, Inl e)
      | Inr token \<Rightarrow> (log @ [r], response))"

text \<open>
  \<open>findApp\<close>: a failing token is thrown; an error of either app list is caught and the
  list skipped.
\<close>

definition findApp ::
  "Firebase \<Rightarrow> string \<Rightarrow> fb_request list
     \<Rightarrow> fb_request list \<times> (failure + FirebaseApp option)" where
  "findApp api bundleIdOrPackageId log =
     (case getAccessToken api of
        Inl e \<Rightarrow> (log, Inl e)
      | Inr token \<Rightarrow>
          (let log1 = log @ [AndroidApps];
               androidApp =
                 (case getAndroidApps api of
                    Inr (Some apps) \<Rightarrow>
                      find (\<lambda>app. app_packageName app = Some bundleIdOrPackageId \<or>
                                    app_appId app = bundleIdOrPackageId) apps
                  | _ \<Rightarrow> None)
           in case androidApp of
                Some app \<Rightarrow> (log1, Inr (Some app))
              | None \<Rightarrow>
                  (let log2 = log1 @ [IosApps];
                       iosApp =
                         (case getIosApps api of
                            Inr (Some apps) \<Rightarrow>
                              find (\<lambda>app. app_bundleId app = Some bundleIdOrPackageId \<or>
                                            app_appId app = bundleIdOrPackageId) apps
                          | _ \<Rightarrow> None)
                   in case iosApp of
                        Some app \<Rightarrow> (log2, Inr (Some app))
                      | None \<Rightarrow> (log2, Inr None))))"

definition determineArtifactType :: "FirebaseApp \<Rightarrow> string option \<Rightarrow> string" where
  "determineArtifactType app name =
     (if truthy (app_bundleId app) then ''ipa''
      else if truthy (app_packageName app) then
        (if truthy name \<and> endsWith (the name) ''.apk'' then ''apk''
         else if truthy name \<and> endsWith (the name) ''.aab'' then ''aab''
         else ''apk'')
      else ''unknown'')"

text \<open>
  The artifact pushed for a release (lines 188 to 206). In a template string a missing
  value reads \<open>undefined\<close>.
\<close>

definition releaseArtifact :: "FirebaseApp \<Rightarrow> Release \<Rightarrow> Artifact" where
  "releaseArtifact app release =
     (let releaseId = last (split CHR ''/'' (release_name release));
          name = (if truthy (app_bundleId app) then the (app_bundleId app)
                  else (case app_packageName app of None \<Rightarrow> ''undefined'' | Some p \<Rightarrow> p))
                 @ ''_'' @ release_displayVersion release @ ''_'' @ release_buildVersion release;
          atype = determineArtifactType app None
      in \<lparr>id = releaseId,
          version = release_displayVersion release,
          buildNumber = release_buildVersion release,
          artifactType = atype,
          fileName = name @ (if atype = ''ipa'' then ''.ipa''
                             else if atype = ''aab'' then ''.aab'' else ''.apk''),
          fileSize = 0,
          uploadedAt = release_createTime release,
          provider = ''app-distribution''\<rparr>)"

text \<open>The loop over the releases (lines 172 to 212); it ends at \<open>break\<close>.\<close>

fun releaseLoop ::
  "FirebaseApp \<Rightarrow> SearchOptions \<Rightarrow> Release list \<Rightarrow> Artifact list \<Rightarrow> Artifact list" where
  "releaseLoop app options [] artifacts = artifacts"
| "releaseLoop app options (release # rest) artifacts =
     (if truthy (SearchOptions.buildNumber options) \<and>
         release_buildVersion release \<noteq> the (SearchOptions.buildNumber options)
      then releaseLoop app options rest artifacts
      else if truthy (SearchOptions.version options) \<and>
         release_displayVersion release \<noteq> the (SearchOptions.version options)
      then releaseLoop app options rest artifacts
      else if truthy (SearchOptions.artifactType options) \<and>
         determineArtifactType app None \<noteq> the (SearchOptions.artifactType options)
      then releaseLoop app options rest artifacts
      else
        (let artifacts' = artifacts @ [releaseArtifact app release] in
         if int (length artifacts') \<ge> limitOr3 options then artifacts'
         else releaseLoop app options rest artifacts'))"

text \<open>
  \<open>search\<close>: the log of the requests it sent, and the artifacts or the error thrown
  (caught, logged and thrown again as it is).
\<close>

definition FirebaseAppDistributionProvider_search ::
  "Firebase \<Rightarrow> SearchOptions \<Rightarrow> fb_request list \<times> (failure + Artifact list)" where
  "FirebaseAppDistributionProvider_search api options =
     (case findApp api (appId options) [] of
        (log1, Inl e) \<Rightarrow> (log1, Inl e)
      | (log1, Inr None) \<Rightarrow>
          (log1, Inl (newError (''App with ID '' @ appId options @ '' not found'')))
      | (log1, Inr (Some app)) \<Rightarrow>
          (let parts = split CHR '':'' (app_appId app) in
           if length parts < 2 \<or> parts ! 1 = []
           then (log1, Inl (newError (''Could not extract project number from app ID: '' @
                                        app_appId app)))
           else
             (let projectNumber = parts ! 1 in
              case FirebaseAppDistributionProvider_request api
                     (Releases projectNumber (app_appId app) 50)
                     (getReleases api projectNumber (app_appId app) 50) log1 of
                (log2, Inl e) \<Rightarrow> (log2, Inl e)
              | (log2, Inr releasesData) \<Rightarrow>
                  (let releases = (case releasesData of None \<Rightarrow> [] | Some rs \<Rightarrow> rs) in
                   (log2, Inr (slice0 (releaseLoop app options releases [])
                                 (limitOr3 options)))))))"

text \<open>\<open>listProducts\<close>: a failing token is thrown, a failing app list is skipped.\<close>

definition FirebaseAppDistributionProvider_listProducts ::
  "Firebase \<Rightarrow> failure + ProductSummary list" where
  "FirebaseAppDistributionProvider_listProducts api =
     (case getAccessToken api of
        Inl e \<Rightarrow> Inl e
      | Inr token \<Rightarrow>
          Inr ((case getAndroidApps api of
                  Inr (Some apps) \<Rightarrow>
                    map (\<lambda>app. \<lparr>ps_id = (if truthy (app_packageName app)
                                            then the (app_packageName app) else app_appId app),
                                   ps_name = app_displayName app,
                                   ps_platform = Some ''android''\<rparr>) apps
                | _ \<Rightarrow> [])
               @
               (case getIosApps api of
                  Inr (Some apps) \<Rightarrow>
                    map (\<lambda>app. \<lparr>ps_id = (if truthy (app_bundleId app)
                                            then the (app_bundleId app) else app_appId app),
                                   ps_name = app_displayName app,
                                   ps_platform = Some ''ios''\<rparr>) apps
                | _ \<Rightarrow> [])))"

section \<open>Node's \<open>path\<close> and \<open>fs\<close>, as the command line uses them\<close>

text \<open>
  \<open>path.join\<close>, \<open>path.normalize\<close> and \<open>path.dirname\<close> for POSIX paths, after Node's
  documentation: \<open>join\<close> puts a slash between the non-empty arguments and normalises the
  result. Normalising drops the empty segments and the segments \<open>.\<close>, and lets a segment
  \<open>..\<close> remove the segment before it; above the start of a relative path \<open>..\<close> stays, above
  the root it is dropped. The last argument of \<open>normalizeSegments\<close> is the path built so
  far.
\<close>

fun normalizeSegments :: "bool \<Rightarrow> string list \<Rightarrow> string list \<Rightarrow> string list" where
  "normalizeSegments allowAboveRoot [] res = res"
| "normalizeSegments allowAboveRoot (seg # rest) res =
     (if seg = [] \<or> seg = ''.'' then normalizeSegments allowAboveRoot rest res
      else if seg = ''..'' then
        (if res \<noteq> [] \<and> last res \<noteq> ''..''
         then normalizeSegments allowAboveRoot rest (butlast res)
         else if allowAboveRoot then normalizeSegments allowAboveRoot rest (res @ [''..''])
         else normalizeSegments allowAboveRoot rest res)
      else normalizeSegments allowAboveRoot rest (res @ [seg]))"

definition normalize :: "string \<Rightarrow> string" where
  "normalize path =
     (if path = [] then ''.''
      else
        (let isAbsolute = (hd path = CHR ''/'');
             trailingSeparator = (last path = CHR ''/'');
             p = joinWith ''/'' (normalizeSegments (\<not> isAbsolute) (split CHR ''/'' path) [])
         in if p = [] then (if isAbsolute then ''/'' else if trailingSeparator then ''./'' else ''.'')
            else (if isAbsolute then ''/'' else []) @ p @ (if trailingSeparator then ''/'' else [])))"

definition join :: "string \<Rightarrow> string \<Rightarrow> string" where
  "join a b =
     (let joined = (if a = [] then b else if b = [] then a else a @ ''/'' @ b)
      in if joined = [] then ''.'' else normalize joined)"

text \<open>
  \<open>dirname\<close>: the path up to the last slash that has a character other than a slash after
  it, the first character of the path not counted; \<open>.\<close> or \<open>/\<close> when there is none.
\<close>

definition dirname :: "string \<Rightarrow> string" where
  "dirname path =
     (if path = [] then ''.''
      else
        (let hasRoot = (hd path = CHR ''/'');
             upToSlash = dropWhile (\<lambda>c. c \<noteq> CHR ''/'')
                           (dropWhile (\<lambda>c. c = CHR ''/'') (rev (tl path)));
             end = length upToSlash
         in if upToSlash = [] then (if hasRoot then ''/'' else ''.'')
            else if hasRoot \<and> end = 1 then ''//''
            else take end path))"

text \<open>
  \<open>mkdir(path, {recursive: true})\<close> on the set of the directories that exist: afterwards
  the directory and each of its ancestors exist, and a directory that exists already is
  no error.
\<close>

definition ancestors :: "string \<Rightarrow> string list" where
  "ancestors path =
     map (\<lambda>n. take n path)
       (filter (\<lambda>n. n = length path \<or> path ! n = CHR ''/'') [1..<Suc (length path)])"

definition mkdirRecursive :: "string set \<Rightarrow> string \<Rightarrow> string set" where
  "mkdirRecursive dirs path = dirs \<union> set (ancestors path)"

section \<open>The configuration (\<open>config/index.ts\<close>)\<close>

record AppStoreConnectConfig =
  keyId :: string
  issuerId :: string
  privateKeyPath :: string

record FirebaseConfig =
  projectId :: string
  serviceAccountPath :: string

record Config =
  appStoreConnect :: "AppStoreConnectConfig option"
  firebase :: "FirebaseConfig option"

definition validateAppStoreConnectConfig :: "Config \<Rightarrow> bool" where
  "validateAppStoreConnectConfig config =
     (case appStoreConnect config of
        None \<Rightarrow> False
      | Some c \<Rightarrow> keyId c \<noteq> [] \<and> issuerId c \<noteq> [] \<and> privateKeyPath c \<noteq> [])"

definition validateFirebaseConfig :: "Config \<Rightarrow> bool" where
  "validateFirebaseConfig config =
     (case firebase config of
        None \<Rightarrow> False
      | Some c \<Rightarrow> projectId c \<noteq> [] \<and> serviceAccountPath c \<noteq> [])"

section \<open>The commands and what they run in\<close>

text \<open>
  The interface \<open>ArtifactProvider\<close>: what an instance of a provider answers to each call.
  A command sees a provider through this interface only.
\<close>

record Provider =
  search :: "SearchOptions \<Rightarrow> failure + Artifact list"
  download :: "Artifact \<Rightarrow> string \<Rightarrow> failure + unit"
  listProducts :: "failure + ProductSummary list"

text \<open>
  The two classes as instances of the interface, over their upstream. \<open>download\<close> is not
  part of the model and is taken as given.
\<close>

definition AppStoreConnectProvider ::
  "AppStoreConnect \<Rightarrow> (Artifact \<Rightarrow> string \<Rightarrow> failure + unit) \<Rightarrow> Provider" where
  "AppStoreConnectProvider api dl =
     \<lparr>search = (\<lambda>options. snd (AppStoreConnectProvider_search api options)),
      download = dl,
      listProducts = AppStoreConnectProvider_listProducts api\<rparr>"

definition FirebaseAppDistributionProvider ::
  "Firebase \<Rightarrow> (Artifact \<Rightarrow> string \<Rightarrow> failure + unit) \<Rightarrow> Provider" where
  "FirebaseAppDistributionProvider api dl =
     \<lparr>search = (\<lambda>options. snd (FirebaseAppDistributionProvider_search api options)),
      download = dl,
      listProducts = FirebaseAppDistributionProvider_listProducts api\<rparr>"

text \<open>A choice of the interactive list, as \<open>inquirer.prompt\<close> takes it.\<close>

record Choice =
  choice_name :: string
  choice_value :: Artifact
  choice_short :: string

text \<open>
  What a command runs in: the configuration that \<open>ConfigManager.load\<close> leaves, the
  provider that each constructor gives for it, the chooser (the value of the choice the
  user selects, or the error the prompt throws) and \<open>mkdir\<close> (the error it throws, if
  any).
\<close>

record World =
  config :: Config
  newAppStoreConnectProvider :: Provider
  newFirebaseAppDistributionProvider :: Provider
  prompt :: "Choice list \<Rightarrow> failure + Artifact"
  mkdir :: "string \<Rightarrow> failure option"

text \<open>What a command does that can be seen from outside, in order.\<close>

datatype event =
    Search SearchOptions
  | Prompt "Choice list"
  | Mkdir string
  | Download Artifact string

text \<open>
  How a command ends: \<open>Exit1\<close> is \<open>spinner.fail(text); process.exit(1)\<close> in the body,
  \<open>Failed\<close> an error thrown in the body and caught by the command's \<open>catch\<close>, which
  reports it and exits with 1.
\<close>

datatype 'a outcome = Exit1 string | Failed failure | Ok 'a

section \<open>\<open>cli/download-artifacts.ts\<close>\<close>

record DownloadOptions =
  opt_appId :: string
  opt_from :: string
  opt_output :: string
  opt_artifactType :: "string option"

definition isLatest :: "string \<Rightarrow> bool" where
  "isLatest versionOrId = (toLowerCase versionOrId = ''latest'')"

text \<open>The classes \<open>[0-9a-f]\<close> and \<open>[0-9a-z]\<close> under the flag \<open>i\<close>.\<close>

definition isHexChar :: "char \<Rightarrow> bool" where
  "isHexChar c = (c \<in> set ''0123456789abcdefABCDEF'')"

definition isAlnumChar :: "char \<Rightarrow> bool" where
  "isAlnumChar c =
     (c \<in> set ''0123456789abcdefghijklmnopqrstuvwxyzABCDEFGHIJKLMNOPQRSTUVWXYZ'')"

text \<open>\<open>/^[0-9a-f]{8}-[0-9a-f]{4}-[0-9a-f]{4}-[0-9a-f]{4}-[0-9a-f]{12}$/i\<close>\<close>

definition isUuid :: "string \<Rightarrow> bool" where
  "isUuid s =
     (length s = 36 \<and>
      list_all (\<lambda>i. if i \<in> {8, 13, 18, 23} then s ! i = CHR ''-'' else isHexChar (s ! i))
        [0..<36])"

text \<open>\<open>/^[0-9a-z]{13}$/i\<close>\<close>

definition isFirebaseId :: "string \<Rightarrow> bool" where
  "isFirebaseId s = (length s = 13 \<and> list_all isAlnumChar s)"

text \<open>
  The \<open>Map\<close> from artifact type to artifact (lines 104 to 109): the entries in the order
  of their insertion, a key that is present already is not set again.
\<close>

fun groupByType :: "Artifact list \<Rightarrow> (string \<times> Artifact) list \<Rightarrow> (string \<times> Artifact) list" where
  "groupByType [] artifactsByType = artifactsByType"
| "groupByType (artifact # rest) artifactsByType =
     groupByType rest
       (if Artifact.artifactType artifact \<notin> set (map fst artifactsByType)
        then artifactsByType @ [(Artifact.artifactType artifact, artifact)]
        else artifactsByType)"

definition choiceOf :: "string \<times> Artifact \<Rightarrow> Choice" where
  "choiceOf entry =
     (case entry of (type, artifact) \<Rightarrow>
        \<lparr>choice_name = type @ '' - '' @ Artifact.version artifact @ '' ('' @
                          Artifact.buildNumber artifact @ '') - '' @ fileName artifact,
         choice_value = artifact,
         choice_short = type\<rparr>)"

text \<open>
  The provider of the command (lines 57 to 78): the exit of a configuration that is
  missing or incomplete, or the instance.
\<close>

definition initializeProvider :: "string \<Rightarrow> World \<Rightarrow> string + Provider" where
  "initializeProvider fromOpt world =
     (if fromOpt = ''app-store-connect'' then
        (if \<not> validateAppStoreConnectConfig (config world)
         then Inl ''App Store Connect configuration is missing or incomplete''
         else Inr (newAppStoreConnectProvider world))
      else
        (if \<not> validateFirebaseConfig (config world)
         then Inl ''Firebase configuration is missing or incomplete''
         else Inr (newFirebaseAppDistributionProvider world)))"

text \<open>
  The first part of \<open>executeDownload\<close>, lines 36 to 199: from the argument and the options
  to the artifact to download, with the searches and the prompt on the way.
\<close>

definition resolveArtifact ::
  "string \<Rightarrow> DownloadOptions \<Rightarrow> World \<Rightarrow> event list \<times> Artifact outcome" where
  "resolveArtifact versionOrId options world =
     (let isArtifactId = (isUuid versionOrId \<or> isFirebaseId versionOrId);
          parsed = parseVersion versionOrId
      in case initializeProvider (opt_from options) world of
           Inl text \<Rightarrow> ([], Exit1 text)
         | Inr theProvider \<Rightarrow>
      if isLatest versionOrId then
        (if opt_from options = ''app-store-connect'' \<and> \<not> truthy (opt_artifactType options) then
           (let searchOptions = \<lparr>appId = opt_appId options, limit = Some 10, version = None,
                                  buildNumber = None, artifactType = None\<rparr>
            in case search theProvider searchOptions of
                 Inl error \<Rightarrow> ([Search searchOptions], Failed error)
               | Inr allArtifacts \<Rightarrow>
                   if length allArtifacts = 0
                   then ([Search searchOptions], Exit1 ''No artifacts found'')
                   else
                     (let artifactsByType = groupByType allArtifacts [] in
                      if length artifactsByType = 1
                      then ([Search searchOptions], Ok (snd (hd artifactsByType)))
                      else
                        (let choices = map choiceOf artifactsByType in
                         case prompt world choices of
                           Inl error \<Rightarrow> ([Search searchOptions, Prompt choices], Failed error)
                         | Inr selectedArtifact \<Rightarrow>
                             ([Search searchOptions, Prompt choices], Ok selectedArtifact))))
         else
           (let searchOptions = \<lparr>appId = opt_appId options, limit = Some 1, version = None,
                                  buildNumber = None,
                                  artifactType = opt_artifactType options\<rparr>
            in case search theProvider searchOptions of
                 Inl error \<Rightarrow> ([Search searchOptions], Failed error)
               | Inr artifacts \<Rightarrow>
                   if length artifacts = 0
                   then ([Search searchOptions], Exit1 ''No artifacts found'')
                   else ([Search searchOptions], Ok (hd artifacts))))
      else if isArtifactId then
        (let searchOptions = \<lparr>appId = opt_appId options, limit = Some 50, version = None,
                               buildNumber = None, artifactType = None\<rparr>
         in case search theProvider searchOptions of
              Inl error \<Rightarrow> ([Search searchOptions], Failed error)
            | Inr artifacts \<Rightarrow>
                (case find (\<lambda>a. Artifact.id a = versionOrId) artifacts of
                   None \<Rightarrow> ([Search searchOptions], Exit1 ''Artifact not found'')
                 | Some artifact \<Rightarrow> ([Search searchOptions], Ok artifact)))
      else
        (let searchOptions = \<lparr>appId = opt_appId options, limit = Some 1,
                               version = Some (ParsedVersion.version parsed),
                               buildNumber = ParsedVersion.buildNumber parsed,
                               artifactType = opt_artifactType options\<rparr>
         in case search theProvider searchOptions of
              Inl error \<Rightarrow> ([Search searchOptions], Failed error)
            | Inr artifacts \<Rightarrow>
                if length artifacts = 0
                then ([Search searchOptions], Exit1 ''No artifacts found matching the criteria'')
                else ([Search searchOptions], Ok (hd artifacts))))"

text \<open>The output path (lines 201 to 206).\<close>

definition outputPathFor :: "string \<Rightarrow> Artifact \<Rightarrow> string" where
  "outputPathFor output artifact =
     (if \<not> endsWith output (fileName artifact) then join output (fileName artifact)
      else output)"

text \<open>
  \<open>executeDownload\<close>: the resolution, then the output path, the directory and the
  download. It ends with the artifact and the path it was written to.
\<close>

definition executeDownload ::
  "string \<Rightarrow> DownloadOptions \<Rightarrow> World \<Rightarrow> event list \<times> (Artifact \<times> string) outcome" where
  "executeDownload versionOrId options world =
     (case resolveArtifact versionOrId options world of
        (events, Exit1 text) \<Rightarrow> (events, Exit1 text)
      | (events, Failed error) \<Rightarrow> (events, Failed error)
      | (events, Ok artifact) \<Rightarrow>
          (let outputPath = outputPathFor (opt_output options) artifact;
               theProvider = (if opt_from options = ''app-store-connect''
                           then newAppStoreConnectProvider world
                           else newFirebaseAppDistributionProvider world)
           in case mkdir world (dirname outputPath) of
                Some error \<Rightarrow> (events @ [Mkdir (dirname outputPath)], Failed error)
              | None \<Rightarrow>
                  (case download theProvider artifact outputPath of
                     Inl error \<Rightarrow>
                       (events @ [Mkdir (dirname outputPath), Download artifact outputPath],
                        Failed error)
                   | Inr done \<Rightarrow>
                       (events @ [Mkdir (dirname outputPath), Download artifact outputPath],
                        Ok (artifact, outputPath)))))"

section \<open>\<open>cli/list-products.ts\<close>\<close>

record ListOptions =
  list_from :: string
  list_platform :: "string option"

record ListedProduct =
  lp_id :: string
  lp_name :: string
  lp_platform :: "string option"
  lp_provider :: string

definition listed :: "string \<Rightarrow> ProductSummary \<Rightarrow> ListedProduct" where
  "listed providerName p =
     \<lparr>lp_id = ps_id p, lp_name = ps_name p, lp_platform = ps_platform p,
      lp_provider = providerName\<rparr>"

text \<open>
  One provider's block of \<open>executeListProducts\<close> (lines 48 to 72 and 75 to 98), on the
  products and the warnings collected so far: \<open>Return\<close> leaves the command.
\<close>

definition listFrom ::
  "string \<Rightarrow> string \<Rightarrow> string \<Rightarrow> string \<Rightarrow> bool \<Rightarrow> failure + ProductSummary list
     \<Rightarrow> ListedProduct list \<times> string list
     \<Rightarrow> (ListedProduct list \<times> string list, (ListedProduct list \<times> string list) outcome) loop"
  where
  "listFrom fromOpt key providerName configName valid products state =
     (case state of (allProducts, warnings) \<Rightarrow>
        if fromOpt = ''all'' \<or> fromOpt = key then
          (if valid then
             (case products of
                Inr ps \<Rightarrow> Continue (allProducts @ map (listed providerName) ps, warnings)
              | Inl error \<Rightarrow>
                  if fromOpt = key then Return (Failed error)
                  else Continue (allProducts,
                         warnings @ [''Failed to fetch from '' @ providerName @ '': '' @
                                     message error]))
           else if fromOpt = key
             then Return (Exit1 (configName @ '' configuration is missing or incomplete''))
           else Continue (allProducts, warnings))
        else Continue (allProducts, warnings))"

text \<open>The filter by platform (lines 103 to 108).\<close>

definition filterByPlatform :: "ListOptions \<Rightarrow> ListedProduct list \<Rightarrow> ListedProduct list" where
  "filterByPlatform options allProducts =
     (if truthy (list_platform options) \<and> list_platform options \<noteq> Some ''all''
      then filter (\<lambda>product. lp_platform product = list_platform options) allProducts
      else allProducts)"

text \<open>
  \<open>executeListProducts\<close>: the products that are printed, after the filter by platform,
  and the warnings recorded.
\<close>

definition executeListProducts ::
  "ListOptions \<Rightarrow> World \<Rightarrow> (ListedProduct list \<times> string list) outcome" where
  "executeListProducts options world =
     (case listFrom (list_from options) ''app-store-connect'' ''App Store Connect''
             ''App Store Connect'' (validateAppStoreConnectConfig (config world))
             (listProducts (newAppStoreConnectProvider world)) ([], []) of
        Return result \<Rightarrow> result
      | Continue state1 \<Rightarrow>
          (case listFrom (list_from options) ''app-distribution'' ''Firebase App Distribution''
                  ''Firebase'' (validateFirebaseConfig (config world))
                  (listProducts (newFirebaseAppDistributionProvider world)) state1 of
             Return result \<Rightarrow> result
           | Continue (allProducts, warnings) \<Rightarrow>
               (let filteredProducts = filterByPlatform options allProducts
                in Ok (filteredProducts, warnings))))"

section \<open>Definitions for the statements\<close>




text \<open>What a loop carries, whichever way it ends.\<close>

fun carried :: "('a, 'a) loop \<Rightarrow> 'a" where
  "carried (Continue s) = s"
| "carried (Return r) = r"

text \<open>
  A loop that has stopped holds exactly the limit, one that goes on holds less.
\<close>

fun within :: "int \<Rightarrow> ('a list, 'a list) loop \<Rightarrow> bool" where
  "within L (Continue xs) = (int (length xs) < L)"
| "within L (Return xs) = (int (length xs) = L)"

text \<open>
  A loop over a list that is to hold \<open>L\<close> elements: it stops with the first \<open>L\<close> as soon as
  it holds as many, and goes on otherwise.
\<close>

definition stopAt :: "int \<Rightarrow> 'a list \<Rightarrow> ('a list, 'a list) loop" where
  "stopAt L xs = (if L \<le> int (length xs) then Return (take (nat L) xs) else Continue xs)"

text \<open>The artifact types that the specification calls ipa-compatible.\<close>

definition ipaCompatible :: "string set" where
  "ipaCompatible = {''development'', ''ad_hoc'', ''app_store'', ''ipa''}"

text \<open>
  A segment of a path that normalising leaves alone: not empty, without a slash, and
  neither \<open>.\<close> nor \<open>..\<close>.
\<close>

definition plainSegment :: "string \<Rightarrow> bool" where
  "plainSegment s = (s \<noteq> [] \<and> CHR ''/'' \<notin> set s \<and> s \<noteq> ''.'' \<and> s \<noteq> ''..'')"

text \<open>
  The options of the two searches for the latest artifact: the broad one, and the one
  for the single newest artifact.
\<close>

definition latest10 :: "DownloadOptions \<Rightarrow> SearchOptions" where
  "latest10 options = \<lparr>appId = opt_appId options, limit = Some 10, version = None,
                         buildNumber = None, artifactType = None\<rparr>"

definition latest1 :: "DownloadOptions \<Rightarrow> SearchOptions" where
  "latest1 options = \<lparr>appId = opt_appId options, limit = Some 1, version = None,
                        buildNumber = None, artifactType = opt_artifactType options\<rparr>"

text \<open>The options of the search for an artifact by its id.\<close>

definition byId :: "DownloadOptions \<Rightarrow> SearchOptions" where
  "byId options = \<lparr>appId = opt_appId options, limit = Some 50, version = None,
                     buildNumber = None, artifactType = None\<rparr>"

text \<open>The requests for the candidate records: build runs, and releases.\<close>

fun isBuildRuns :: "asc_request \<Rightarrow> bool" where
  "isBuildRuns (BuildRuns product n) = True"
| "isBuildRuns r = False"

fun isReleases :: "fb_request \<Rightarrow> bool" where
  "isReleases (Releases projectNumber app n) = True"
| "isReleases r = False"

text \<open>The releases that the loop passes over (lines 177 to 195).\<close>

definition skipsRelease :: "FirebaseApp \<Rightarrow> SearchOptions \<Rightarrow> Release \<Rightarrow> bool" where
  "skipsRelease app options release =
     ((truthy (SearchOptions.buildNumber options) \<and>
         release_buildVersion release \<noteq> the (SearchOptions.buildNumber options)) \<or>
      (truthy (SearchOptions.version options) \<and>
         release_displayVersion release \<noteq> the (SearchOptions.version options)) \<or>
      (truthy (SearchOptions.artifactType options) \<and>
         determineArtifactType app None \<noteq> the (SearchOptions.artifactType options)))"

text \<open>
  The artifacts of an upstream that pass the filters of a search, in the order of the
  upstream: for each build run with the build number of the filter, for each of its
  archive actions, the artifacts of the action that pass the type filter. Where a request
  fails there is no answer to read; the definition is used where none fails.
\<close>

definition actionCandidates ::
  "AppStoreConnect \<Rightarrow> SearchOptions \<Rightarrow> BuildRun \<Rightarrow> BuildAction \<Rightarrow> Artifact list" where
  "actionCandidates api options run action =
     map (newArtifact options run)
       (filter (\<lambda>a. passesTypeFilter options (artifactTypeOf (ci_fileName a)))
          (projr (getArtifacts api (action_id action))))"

definition runCandidates :: "AppStoreConnect \<Rightarrow> SearchOptions \<Rightarrow> BuildRun \<Rightarrow> Artifact list" where
  "runCandidates api options run =
     (if truthy (SearchOptions.buildNumber options) \<and>
         toString (run_number run) \<noteq> the (SearchOptions.buildNumber options)
      then []
      else concat (map (actionCandidates api options run)
                     (filter (\<lambda>action. action_actionType action = ''ARCHIVE'')
                        (projr (getActions api (run_id run))))))"

definition candidates :: "AppStoreConnect \<Rightarrow> SearchOptions \<Rightarrow> BuildRun list \<Rightarrow> Artifact list" where
  "candidates api options runs = concat (map (runCandidates api options) runs)"

section \<open>Examples\<close>

text \<open>The error of a request that the upstream answers with the status 404.\<close>

definition notFound404 :: failure where
  "notFound404 = Failure ''AxiosError'' (Some 404) ''Request failed with status code 404''"

text \<open>
  An App Store Connect upstream with one product \<open>App\<close>: for each build run, newest
  first, its number and the file names of the artifacts of its one archive action. The
  build runs request honours its limit.
\<close>

definition exampleApi :: "(nat \<times> string list) list \<Rightarrow> AppStoreConnect" where
  "exampleApi runs =
     \<lparr>generateToken = Inr ''token'',
      getCiProducts = Inr (Some [\<lparr>product_id = ''p1'', product_name = ''App''\<rparr>]),
      getBuildRuns = (\<lambda>pid n.
        if pid = ''p1''
        then Inr (take (nat n)
               (map (\<lambda>(k, names). \<lparr>run_id = ''r'' @ toString k, run_number = k,
                                      run_createdDate = ''2025-01-01T00:00:00Z''\<rparr>) runs))
        else Inl notFound404),
      getActions = (\<lambda>rid.
        Inr [\<lparr>action_id = ''t'' @ drop 1 rid, action_actionType = ''TEST'', action_name = ''Test''\<rparr>,
             \<lparr>action_id = ''a'' @ drop 1 rid, action_actionType = ''ARCHIVE'', action_name = ''Archive''\<rparr>]),
      getArtifacts = (\<lambda>aid.
        case map_of (map (\<lambda>(k, names). (''a'' @ toString k, (k, names))) runs) aid of
          None \<Rightarrow> Inl notFound404
        | Some (k, names) \<Rightarrow>
            Inr (map (\<lambda>(i, name). \<lparr>ci_id = ''art-'' @ toString k @ ''-'' @ toString i,
                                       ci_fileName = name, ci_fileSize = 1024\<rparr>)
                   (zip [0..<length names] names)))\<rparr>"

text \<open>
  The stream of the specification's scenario: ad hoc, ad hoc, logs, and five times
  development, newest first.
\<close>

definition stream8 :: "(nat \<times> string list) list" where
  "stream8 = [(8, [''App 1.2.3 ad-hoc.ipa'']), (7, [''App 1.2.3 ad-hoc.ipa'']), (6, [''App logs.zip'']),
     (5, [''App 1.2.2 development.ipa'']), (4, [''App 1.2.2 development.ipa'']), (3, [''App 1.2.2 development.ipa'']),
     (2, [''App 1.2.2 development.ipa'']), (1, [''App 1.2.2 development.ipa''])]"

text \<open>The search of the specification's scenario.\<close>

definition scenarioOptions :: SearchOptions where
  "scenarioOptions = \<lparr>appId = ''App'', limit = Some 3, version = None, buildNumber = None,
                        artifactType = Some ''ipa''\<rparr>"

text \<open>
  A Firebase upstream with an Android and an iOS app: the releases of either, newest
  first, as version, build and release id. The releases request honours its page size.
\<close>

definition exampleFirebase :: "(string \<times> string \<times> string) list \<Rightarrow> Firebase" where
  "exampleFirebase rels =
     \<lparr>accessToken = Inr (Some ''token''),
      getAndroidApps =
        Inr (Some [\<lparr>app_appId = ''1:1234567890:android:abcdef'', app_displayName = ''Demo'',
                     app_bundleId = None, app_packageName = Some ''com.example.app''\<rparr>]),
      getIosApps =
        Inr (Some [\<lparr>app_appId = ''1:1234567890:ios:abcdef'', app_displayName = ''Demo iOS'',
                     app_bundleId = Some ''com.example.ios'', app_packageName = None\<rparr>]),
      getReleases = (\<lambda>projectNumber app pageSize.
        Inr (Some (take (nat pageSize)
          (map (\<lambda>(v, b, i).
                  \<lparr>release_name = ''projects/'' @ projectNumber @ ''/apps/'' @ app @
                                    ''/releases/'' @ i,
                   release_displayVersion = v, release_buildVersion = b,
                   release_createTime = ''2025-01-01T00:00:00Z''\<rparr>) rels))))\<rparr>"

text \<open>An upstream that answers the products request with the status 401.\<close>

definition unauthorized401 :: failure where
  "unauthorized401 = Failure ''AxiosError'' (Some 401) ''Request failed with status code 401''"

definition unauthorizedApi :: AppStoreConnect where
  "unauthorizedApi = (exampleApi [])\<lparr>getCiProducts := Inl unauthorized401\<rparr>"

text \<open>
  A world with both configurations complete, over two upstreams: every download and
  \<open>mkdir\<close> succeeds, and the chooser is a stub that selects the last choice.
\<close>

definition exampleConfig :: Config where
  "exampleConfig =
     \<lparr>appStoreConnect = Some \<lparr>keyId = ''KEY'', issuerId = ''ISSUER'', privateKeyPath = ''key.p8''\<rparr>,
      firebase = Some \<lparr>projectId = ''demo-project'', serviceAccountPath = ''account.json''\<rparr>\<rparr>"

definition exampleWorld :: "AppStoreConnect \<Rightarrow> Firebase \<Rightarrow> World" where
  "exampleWorld asc fb =
     \<lparr>config = exampleConfig,
      newAppStoreConnectProvider = AppStoreConnectProvider asc (\<lambda>artifact path. Inr ()),
      newFirebaseAppDistributionProvider =
        FirebaseAppDistributionProvider fb (\<lambda>artifact path. Inr ()),
      prompt = (\<lambda>choices. case choices of
                  [] \<Rightarrow> Inl (newError ''no choices'')
                | c # cs \<Rightarrow> Inr (choice_value (last choices))),
      mkdir = (\<lambda>path. None)\<rparr>"

text \<open>The artifact of the specification's example, with the file name \<open>build.ipa\<close>.\<close>

definition buildIpa :: Artifact where
  "buildIpa =
     \<lparr>id = ''art-1-0'', version = ''1.0.0'', buildNumber = ''1'', artifactType = ''ipa'',
      fileName = ''build.ipa'', fileSize = 1024, uploadedAt = ''2025-01-01T00:00:00Z'',
      provider = ''app-store-connect''\<rparr>"

text \<open>
  A download of the latest ad hoc build from the example upstream, with the default
  output \<open>./downloads\<close>, and the artifact it resolves to.
\<close>

definition latestAdHoc :: DownloadOptions where
  "latestAdHoc = \<lparr>opt_appId = ''App'', opt_from = ''app-store-connect'',
                   opt_output = ''./downloads'', opt_artifactType = Some ''ad_hoc''\<rparr>"

definition adHoc8 :: Artifact where
  "adHoc8 =
     \<lparr>id = ''art-8-0'', version = ''1.2.3'', buildNumber = ''8'', artifactType = ''ad_hoc'',
      fileName = ''App 1.2.3 ad-hoc.ipa'', fileSize = 1024,
      uploadedAt = ''2025-01-01T00:00:00Z'', provider = ''app-store-connect''\<rparr>"

text \<open>Downloads of the latest artifact with no artifact type, from either provider.\<close>

definition latestAny :: DownloadOptions where
  "latestAny = \<lparr>opt_appId = ''App'', opt_from = ''app-store-connect'',
                 opt_output = ''./downloads'', opt_artifactType = None\<rparr>"

definition latestFirebase :: DownloadOptions where
  "latestFirebase = \<lparr>opt_appId = ''com.example.app'', opt_from = ''app-distribution'',
                      opt_output = ''./downloads'', opt_artifactType = None\<rparr>"

definition releases3 :: "(string \<times> string \<times> string) list" where
  "releases3 = [(''1.0.0'', ''3'', ''rel0000000003''), (''1.0.0'', ''2'', ''rel0000000002''),
                (''0.9.0'', ''1'', ''rel0000000001'')]"

definition development5 :: Artifact where
  "development5 =
     \<lparr>id = ''art-5-0'', version = ''1.2.2'', buildNumber = ''5'', artifactType = ''development'',
      fileName = ''App 1.2.2 development.ipa'', fileSize = 1024,
      uploadedAt = ''2025-01-01T00:00:00Z'', provider = ''app-store-connect''\<rparr>"

definition logs6 :: Artifact where
  "logs6 =
     \<lparr>id = ''art-6-0'', version = ''unknown'', buildNumber = ''6'', artifactType = ''logs'',
      fileName = ''App logs.zip'', fileSize = 1024,
      uploadedAt = ''2025-01-01T00:00:00Z'', provider = ''app-store-connect''\<rparr>"

text \<open>
  The artifacts that the example upstream holds for the stream of the scenario, one for
  each build run.
\<close>

definition exampleArtifact :: "nat \<Rightarrow> string \<Rightarrow> Artifact" where
  "exampleArtifact k name =
     \<lparr>id = ''art-'' @ toString k @ ''-0'', version = versionOf name, buildNumber = toString k,
      artifactType = artifactTypeOf name, fileName = name, fileSize = 1024,
      uploadedAt = ''2025-01-01T00:00:00Z'', provider = ''app-store-connect''\<rparr>"

definition all8 :: "Artifact list" where
  "all8 = map (\<lambda>(k, names). exampleArtifact k (hd names)) stream8"

definition release3 :: Artifact where
  "release3 =
     \<lparr>id = ''rel0000000003'', version = ''1.0.0'', buildNumber = ''3'', artifactType = ''apk'',
      fileName = ''com.example.app_1.0.0_3.apk'', fileSize = 0,
      uploadedAt = ''2025-01-01T00:00:00Z'', provider = ''app-distribution''\<rparr>"

text \<open>
  Sixty releases, the builds 60 down to 1, with ids of thirteen characters; the release
  of build 10 is the fifty-first.
\<close>

definition releases60 :: "(string \<times> string \<times> string) list" where
  "releases60 =
     map (\<lambda>n. (''1.0.0'', toString n,
                ''rel00000000'' @ (if n < 10 then ''0'' @ toString n else toString n)))
       (rev [1..<61])"

definition release11 :: Artifact where
  "release11 =
     \<lparr>id = ''rel0000000011'', version = ''1.0.0'', buildNumber = ''11'', artifactType = ''apk'',
      fileName = ''com.example.app_1.0.0_11.apk'', fileSize = 0,
      uploadedAt = ''2025-01-01T00:00:00Z'', provider = ''app-distribution''\<rparr>"

text \<open>A search by id in the Firebase example: the limit is 50.\<close>

definition search50 :: SearchOptions where
  "search50 = \<lparr>appId = ''com.example.app'', limit = Some 50, version = None,
                buildNumber = None, artifactType = None\<rparr>"

text \<open>A Firebase upstream whose two app lists answer with the status 403.\<close>

definition forbidden403 :: failure where
  "forbidden403 = Failure ''AxiosError'' (Some 403) ''Request failed with status code 403''"

definition forbiddenFirebase :: Firebase where
  "forbiddenFirebase =
     (exampleFirebase [])\<lparr>getAndroidApps := Inl forbidden403, getIosApps := Inl forbidden403\<rparr>"

text \<open>The build runs of the example upstream for the stream of the scenario.\<close>

definition runs8 :: "BuildRun list" where
  "runs8 = map (\<lambda>(k, names). \<lparr>run_id = ''r'' @ toString k, run_number = k,
                                run_createdDate = ''2025-01-01T00:00:00Z''\<rparr>) stream8"

text \<open>A Firebase upstream for which no access token is acquired.\<close>

definition tokenlessFirebase :: Firebase where
  "tokenlessFirebase = (exampleFirebase [])\<lparr>accessToken := Inr None\<rparr>"

section \<open>Properties of the version parser\<close>

lemma startsWith_v: "startsWith s ''v'' = (\<exists>r. s = CHR ''v'' # r)"
  by (cases s) auto

lemma digits1_run:
  assumes "digits d" and "r = [] \<or> \<not> isDigit (hd r)"
  shows "digits1 (d @ r) = Some (d, r)"
proof -
  have all: "\<forall>c\<in>set d. isDigit c" using assms(1) by (simp add: digits_def list_all_iff)
  have tw: "takeWhile isDigit (d @ r) = d"
    using all assms(2) by (cases r) (simp_all add: takeWhile_append2 takeWhile_eq_all_conv)
  have dw: "dropWhile isDigit (d @ r) = r"
    using all assms(2) by (cases r) (simp_all add: dropWhile_append2)
  show ?thesis using assms(1) by (simp add: digits1_def tw dw digits_def)
qed

lemma digits1_SomeD:
  assumes "digits1 s = Some (d, r)"
  shows "digits d \<and> s = d @ r \<and> (r = [] \<or> \<not> isDigit (hd r))"
proof -
  from assms have d: "d = takeWhile isDigit s" and r: "r = dropWhile isDigit s" and ne: "d \<noteq> []"
    by (auto simp: digits1_def Let_def split: if_splits)
  have "list_all isDigit d" unfolding d list_all_iff by (auto dest: set_takeWhileD)
  moreover have "s = d @ r" by (simp add: d r)
  moreover have "r = [] \<or> \<not> isDigit (hd r)" unfolding r using hd_dropWhile [of isDigit s] by blast
  ultimately show ?thesis using ne by (simp add: digits_def)
qed

lemma not_digit_chars [simp]:
  "\<not> isDigit CHR ''.''" "\<not> isDigit CHR ''+''" "\<not> isDigit CHR ''(''" "\<not> isDigit CHR '')''"
  "\<not> isDigit CHR ''v''"
  by (simp_all add: isDigit_def)

lemma lit_Cons [simp]: "lit c (x # r) = (if x = c then Some r else None)"
  by (simp add: lit_def)

lemma lit_Nil [simp]: "lit c [] = None"
  by (simp add: lit_def)

lemma lit_SomeD: "lit c s = Some r \<Longrightarrow> s = c # r"
  by (auto simp: lit_def split: list.splits if_splits)

lemma semverPrefix_run:
  assumes "digits X" "digits Y" "digits Z" and "r = [] \<or> \<not> isDigit (hd r)"
  shows "semverPrefix (semver X Y Z @ r) = Some (semver X Y Z, r)"
proof -
  have 1: "digits1 (X @ CHR ''.'' # Y @ CHR ''.'' # Z @ r) = Some (X, CHR ''.'' # Y @ CHR ''.'' # Z @ r)"
    using digits1_run [OF assms(1), of "CHR ''.'' # Y @ CHR ''.'' # Z @ r"] by simp
  have 2: "digits1 (Y @ CHR ''.'' # Z @ r) = Some (Y, CHR ''.'' # Z @ r)"
    using digits1_run [OF assms(2), of "CHR ''.'' # Z @ r"] by simp
  have 3: "digits1 (Z @ r) = Some (Z, r)"
    using digits1_run [OF assms(3) assms(4)] .
  show ?thesis by (simp add: semverPrefix_def semver_def 1 2 3)
qed

lemma semverPrefix_SomeD:
  assumes "semverPrefix s = Some (v, r)"
  shows "\<exists>X Y Z. digits X \<and> digits Y \<and> digits Z \<and> v = semver X Y Z \<and> s = v @ r"
proof -
  from assms obtain x r1 r2 y r3 r4 z where
    a: "digits1 s = Some (x, r1)" and b: "lit CHR ''.'' r1 = Some r2"
    and c: "digits1 r2 = Some (y, r3)" and d: "lit CHR ''.'' r3 = Some r4"
    and e: "digits1 r4 = Some (z, r)" and v: "v = x @ ''.'' @ y @ ''.'' @ z"
    by (auto simp: semverPrefix_def split: bind_splits prod.splits)
  from digits1_SomeD [OF a] digits1_SomeD [OF c] digits1_SomeD [OF e] lit_SomeD [OF b] lit_SomeD [OF d]
  show ?thesis unfolding v semver_def by auto
qed

lemma plusPattern_run:
  assumes "digits X" "digits Y" "digits Z" "digits B"
  shows "plusPattern (semver X Y Z @ ''+'' @ B) = Some (semver X Y Z, B)"
proof -
  have 1: "semverPrefix (semver X Y Z @ ''+'' @ B) = Some (semver X Y Z, ''+'' @ B)"
    using semverPrefix_run [OF assms(1-3), of "''+'' @ B"] by simp
  have 2: "digits1 B = Some (B, [])"
    using digits1_run [OF assms(4), of "[]"] by simp
  show ?thesis using 1 2 by (simp add: plusPattern_def)
qed

lemma parenPattern_run:
  assumes "digits X" "digits Y" "digits Z" "digits B"
  shows "parenPattern (semver X Y Z @ ''('' @ B @ '')'') = Some (semver X Y Z, B)"
proof -
  have 1: "semverPrefix (semver X Y Z @ ''('' @ B @ '')'') = Some (semver X Y Z, ''('' @ B @ '')'')"
    using semverPrefix_run [OF assms(1-3), of "''('' @ B @ '')''"] by simp
  have 2: "digits1 (B @ '')'') = Some (B, '')'')"
    using digits1_run [OF assms(4), of "'')''"] by simp
  show ?thesis using 1 2 by (simp add: parenPattern_def)
qed

lemma versionOnlyPattern_run:
  assumes "digits X" "digits Y" "digits Z"
  shows "versionOnlyPattern (semver X Y Z) = Some (semver X Y Z)"
  using semverPrefix_run [OF assms, of "[]"] by (simp add: versionOnlyPattern_def)

lemma plusPattern_SomeD:
  assumes "plusPattern s = Some (v, b)"
  shows "\<exists>X Y Z. digits X \<and> digits Y \<and> digits Z \<and> digits b \<and> v = semver X Y Z \<and> s = v @ ''+'' @ b"
proof -
  from assms obtain r1 r2 where a: "semverPrefix s = Some (v, r1)" and b: "lit CHR ''+'' r1 = Some r2"
    and c: "digits1 r2 = Some (b, [])"
    by (auto simp: plusPattern_def split: bind_splits prod.splits if_splits)
  from semverPrefix_SomeD [OF a] lit_SomeD [OF b] digits1_SomeD [OF c]
  show ?thesis by auto
qed

lemma parenPattern_SomeD:
  assumes "parenPattern s = Some (v, b)"
  shows "\<exists>X Y Z. digits X \<and> digits Y \<and> digits Z \<and> digits b \<and> v = semver X Y Z \<and> s = v @ ''('' @ b @ '')''"
proof -
  from assms obtain r1 r2 r3 where a: "semverPrefix s = Some (v, r1)" and b: "lit CHR ''('' r1 = Some r2"
    and c: "digits1 r2 = Some (b, r3)" and d: "lit CHR '')'' r3 = Some []"
    by (auto simp: parenPattern_def split: bind_splits prod.splits if_splits)
  from semverPrefix_SomeD [OF a] lit_SomeD [OF b] digits1_SomeD [OF c] lit_SomeD [OF d]
  show ?thesis by auto
qed

lemma versionOnlyPattern_SomeD:
  assumes "versionOnlyPattern s = Some v"
  shows "v = s"
  using assms semverPrefix_SomeD
  by (fastforce simp: versionOnlyPattern_def split: bind_splits prod.splits if_splits)

lemma semver_not_v: "digits X \<Longrightarrow> \<not> startsWith (semver X Y Z @ r) ''v''"
  by (cases X) (auto simp: semver_def digits_def)

lemma plus_not_paren:
  assumes "digits X" "digits Y" "digits Z" "digits B"
  shows "plusPattern (semver X Y Z @ ''('' @ B @ '')'') = None"
proof -
  have 1: "semverPrefix (semver X Y Z @ ''('' @ B @ '')'') = Some (semver X Y Z, ''('' @ B @ '')'')"
    using semverPrefix_run [OF assms(1-3), of "''('' @ B @ '')''"] by simp
  show ?thesis using 1 by (simp add: plusPattern_def)
qed

lemma plus_not_bare:
  assumes "digits X" "digits Y" "digits Z"
  shows "plusPattern (semver X Y Z) = None" "parenPattern (semver X Y Z) = None"
  using semverPrefix_run [OF assms, of "[]"] by (simp_all add: plusPattern_def parenPattern_def)

lemma parseVersion_plus:
  assumes "digits X" "digits Y" "digits Z" "digits B"
  shows "parseVersion (semver X Y Z @ ''+'' @ B) = \<lparr>ParsedVersion.version = semver X Y Z, ParsedVersion.buildNumber = Some B\<rparr>"
    and "parseVersion (''v'' @ semver X Y Z @ ''+'' @ B) = \<lparr>ParsedVersion.version = semver X Y Z, ParsedVersion.buildNumber = Some B\<rparr>"
  using semver_not_v [OF assms(1), of Y Z "''+'' @ B"] plusPattern_run [OF assms]
  by (simp_all add: parseVersion_def)

lemma parseVersion_paren:
  assumes "digits X" "digits Y" "digits Z" "digits B"
  shows "parseVersion (semver X Y Z @ ''('' @ B @ '')'') = \<lparr>ParsedVersion.version = semver X Y Z, ParsedVersion.buildNumber = Some B\<rparr>"
    and "parseVersion (''v'' @ semver X Y Z @ ''('' @ B @ '')'') = \<lparr>ParsedVersion.version = semver X Y Z, ParsedVersion.buildNumber = Some B\<rparr>"
  using semver_not_v [OF assms(1), of Y Z "''('' @ B @ '')''"] parenPattern_run [OF assms] plus_not_paren [OF assms]
  by (simp_all add: parseVersion_def)

lemma parseVersion_bare:
  assumes "digits X" "digits Y" "digits Z"
  shows "parseVersion (semver X Y Z) = \<lparr>ParsedVersion.version = semver X Y Z, ParsedVersion.buildNumber = None\<rparr>"
    and "parseVersion (''v'' @ semver X Y Z) = \<lparr>ParsedVersion.version = semver X Y Z, ParsedVersion.buildNumber = None\<rparr>"
  using semver_not_v [OF assms(1), of Y Z "[]"] versionOnlyPattern_run [OF assms] plus_not_bare [OF assms]
  by (simp_all add: parseVersion_def)

lemma parseVersion_other:
  assumes "\<forall>X Y Z B. digits X \<and> digits Y \<and> digits Z \<and> digits B \<longrightarrow> s \<notin> supportedForms X Y Z B"
  shows "parseVersion s =
           \<lparr>ParsedVersion.version = (if startsWith s ''v'' then drop 1 s else s), ParsedVersion.buildNumber = None\<rparr>"
proof -
  define n where "n = (if startsWith s ''v'' then drop 1 s else s)"
  have s: "s = n \<or> s = ''v'' @ n"
    by (auto simp: n_def startsWith_v)
  have plus: "plusPattern n = None"
  proof (cases "plusPattern n")
    case (Some p)
    obtain v b where "p = (v, b)" by (cases p)
    with Some plusPattern_SomeD [of n v b] obtain X Y Z where
      "digits X" "digits Y" "digits Z" "digits b" "n = semver X Y Z @ ''+'' @ b" by auto
    with s have "digits X \<and> digits Y \<and> digits Z \<and> digits b \<and> s \<in> supportedForms X Y Z b"
      by (auto simp: supportedForms_def)
    with assms show ?thesis by blast
  qed simp
  have paren: "parenPattern n = None"
  proof (cases "parenPattern n")
    case (Some p)
    obtain v b where "p = (v, b)" by (cases p)
    with Some parenPattern_SomeD [of n v b] obtain X Y Z where
      "digits X" "digits Y" "digits Z" "digits b" "n = semver X Y Z @ ''('' @ b @ '')''" by auto
    with s have "digits X \<and> digits Y \<and> digits Z \<and> digits b \<and> s \<in> supportedForms X Y Z b"
      by (auto simp: supportedForms_def)
    with assms show ?thesis by blast
  qed simp
  have "parseVersion s = \<lparr>ParsedVersion.version = n, ParsedVersion.buildNumber = None\<rparr>"
    using plus paren versionOnlyPattern_SomeD [of n]
    by (auto simp: parseVersion_def n_def [symmetric] split: option.splits)
  then show ?thesis by (simp add: n_def)
qed

text \<open>
  Claim C2, as the code has it. For digit strings \<open>X\<close>, \<open>Y\<close>, \<open>Z\<close>, \<open>B\<close> the parser maps
  \<open>X.Y.Z\<close> to the version \<open>X.Y.Z\<close> with no build number, and each of \<open>X.Y.Z+B\<close>,
  \<open>vX.Y.Z+B\<close>, \<open>X.Y.Z(B)\<close>, \<open>vX.Y.Z(B)\<close> to the version \<open>X.Y.Z\<close> with build number
  \<open>B\<close>. Every string that has none of the five forms is returned as the version, without
  one leading lower-case \<open>v\<close> and with no build number. The parser is a total function: it
  has no failing branch. A leading capital \<open>V\<close> is not removed.
\<close>

theorem parseVersion_forms:
  "(digits X \<and> digits Y \<and> digits Z \<and> digits B \<longrightarrow>
      parseVersion (semver X Y Z) = \<lparr>ParsedVersion.version = semver X Y Z, ParsedVersion.buildNumber = None\<rparr> \<and>
      parseVersion (semver X Y Z @ ''+'' @ B) = \<lparr>ParsedVersion.version = semver X Y Z, ParsedVersion.buildNumber = Some B\<rparr> \<and>
      parseVersion (''v'' @ semver X Y Z @ ''+'' @ B) = \<lparr>ParsedVersion.version = semver X Y Z, ParsedVersion.buildNumber = Some B\<rparr> \<and>
      parseVersion (semver X Y Z @ ''('' @ B @ '')'') = \<lparr>ParsedVersion.version = semver X Y Z, ParsedVersion.buildNumber = Some B\<rparr> \<and>
      parseVersion (''v'' @ semver X Y Z @ ''('' @ B @ '')'') = \<lparr>ParsedVersion.version = semver X Y Z, ParsedVersion.buildNumber = Some B\<rparr>)
   \<and> ((\<forall>X Y Z B. digits X \<and> digits Y \<and> digits Z \<and> digits B \<longrightarrow> s \<notin> supportedForms X Y Z B) \<longrightarrow>
      parseVersion s =
        \<lparr>ParsedVersion.version = (if startsWith s ''v'' then drop 1 s else s), ParsedVersion.buildNumber = None\<rparr>)"
  using parseVersion_bare(1) [of X Y Z] parseVersion_plus [of X Y Z B] parseVersion_paren [of X Y Z B]
    parseVersion_other [of s]
  by blast

lemma invalid_unsupported:
  "\<forall>X Y Z B. digits X \<and> digits Y \<and> digits Z \<and> digits B \<longrightarrow> ''invalid'' \<notin> supportedForms X Y Z B"
  by (auto simp: supportedForms_def semver_def digits_def isDigit_def neq_Nil_conv)

lemma digits_examples: "digits ''1''" "digits ''0''" "digits ''20''"
  by (simp_all add: digits_def isDigit_def)

theorem parseVersion_forms_witness:
  "digits ''1'' \<and> digits ''0'' \<and> digits ''20'' \<and>
   parseVersion ''1.0.0'' = \<lparr>ParsedVersion.version = ''1.0.0'', ParsedVersion.buildNumber = None\<rparr> \<and>
   parseVersion ''1.0.0+20'' = \<lparr>ParsedVersion.version = ''1.0.0'', ParsedVersion.buildNumber = Some ''20''\<rparr> \<and>
   parseVersion ''v1.0.0+20'' = \<lparr>ParsedVersion.version = ''1.0.0'', ParsedVersion.buildNumber = Some ''20''\<rparr> \<and>
   parseVersion ''1.0.0(20)'' = \<lparr>ParsedVersion.version = ''1.0.0'', ParsedVersion.buildNumber = Some ''20''\<rparr> \<and>
   parseVersion ''v1.0.0(20)'' = \<lparr>ParsedVersion.version = ''1.0.0'', ParsedVersion.buildNumber = Some ''20''\<rparr> \<and>
   parseVersion ''invalid'' = \<lparr>ParsedVersion.version = ''invalid'', ParsedVersion.buildNumber = None\<rparr>"
  using parseVersion_forms [of "''1''" "''0''" "''0''" "''20''" "''invalid''"]
    invalid_unsupported digits_examples
  by (simp add: semver_def)

text \<open>
  The claim's sentence has a leading \<open>V\<close> stripped as well. The source tests
  \<open>startsWith('v')\<close> only, so \<open>V1.0.0\<close> comes back whole, and \<open>V1.0.0+20\<close> is not split.
\<close>

theorem parseVersion_capital_V_counterexample:
  "parseVersion ''V1.0.0'' = \<lparr>ParsedVersion.version = ''V1.0.0'', ParsedVersion.buildNumber = None\<rparr> \<and>
   parseVersion ''V1.0.0'' \<noteq> \<lparr>ParsedVersion.version = ''1.0.0'', ParsedVersion.buildNumber = None\<rparr> \<and>
   parseVersion ''V1.0.0+20'' \<noteq> \<lparr>ParsedVersion.version = ''1.0.0'', ParsedVersion.buildNumber = Some ''20''\<rparr>"
  by code_simp

lemma formatVersion_Some: "b \<noteq> [] \<Longrightarrow> formatVersion v (Some b) = v @ ''+'' @ b"
  by (simp add: formatVersion_def truthy_def)

lemma formatVersion_None: "formatVersion v None = v"
  by (simp add: formatVersion_def truthy_def)

text \<open>
  Claim C10. For every string \<open>s\<close> of a supported form, formatting the pair that
  \<open>parseVersion\<close> returns for \<open>s\<close> and parsing the text again gives the same pair: parsing and
  formatting round-trip on the supported forms.
\<close>

theorem parse_format_roundtrip:
  assumes "digits X" "digits Y" "digits Z" "digits B" and "s \<in> supportedForms X Y Z B"
  shows "parseVersion (formatVersion (ParsedVersion.version (parseVersion s)) (ParsedVersion.buildNumber (parseVersion s)))
           = parseVersion s"
proof -
  have B: "B \<noteq> []" using assms(4) by (simp add: digits_def)
  from assms(5) consider
      "parseVersion s = \<lparr>ParsedVersion.version = semver X Y Z, ParsedVersion.buildNumber = None\<rparr>"
    | "parseVersion s = \<lparr>ParsedVersion.version = semver X Y Z, ParsedVersion.buildNumber = Some B\<rparr>"
    using parseVersion_bare(1) [OF assms(1-3)] parseVersion_plus [OF assms(1-4)]
      parseVersion_paren [OF assms(1-4)]
    by (auto simp: supportedForms_def)
  then show ?thesis
  proof cases
    case 1
    then show ?thesis
      using parseVersion_bare(1) [OF assms(1-3)] by (simp add: formatVersion_None)
  next
    case 2
    then show ?thesis
      using parseVersion_plus(1) [OF assms(1-4)] B by (simp add: formatVersion_Some)
  qed
qed

theorem parse_format_roundtrip_witness:
  "digits ''3'' \<and> digits ''10'' \<and> digits ''0'' \<and> digits ''393'' \<and>
   ''v3.10.0(393)'' \<in> supportedForms ''3'' ''10'' ''0'' ''393'' \<and>
   formatVersion (ParsedVersion.version (parseVersion ''v3.10.0(393)'')) (ParsedVersion.buildNumber (parseVersion ''v3.10.0(393)''))
     = ''3.10.0+393'' \<and>
   parseVersion ''3.10.0+393'' = parseVersion ''v3.10.0(393)''"
proof -
  have d: "digits ''3''" "digits ''10''" "digits ''0''" "digits ''393''"
    by (simp_all add: digits_def isDigit_def)
  have m: "''v3.10.0(393)'' \<in> supportedForms ''3'' ''10'' ''0'' ''393''"
    by (simp add: supportedForms_def semver_def)
  have f: "formatVersion (ParsedVersion.version (parseVersion ''v3.10.0(393)'')) (ParsedVersion.buildNumber (parseVersion ''v3.10.0(393)''))
     = ''3.10.0+393''"
    by code_simp
  show ?thesis
    using parse_format_roundtrip [OF d m] d m f by simp
qed

section \<open>Properties of the App Store Connect search\<close>

subsection \<open>The version of the filter\<close>


lemma limitOr3_version [simp]: "limitOr3 (options\<lparr>SearchOptions.version := v\<rparr>) = limitOr3 options"
  by (simp add: limitOr3_def)

lemma passesTypeFilter_version [simp]:
  "passesTypeFilter (options\<lparr>SearchOptions.version := v\<rparr>) t = passesTypeFilter options t"
  by (simp add: passesTypeFilter_def)




lemma buildNumber_version [simp]:
  "SearchOptions.buildNumber (options\<lparr>SearchOptions.version := v\<rparr>) = SearchOptions.buildNumber options"
  by simp






subsection \<open>What the search returns has passed the type filter\<close>

lemma set_slice0: "set (slice0 xs n) \<subseteq> set xs"
  by (auto simp: slice0_def dest: in_set_takeD)

lemma artifactLoop_all:
  assumes "\<And>a. passesTypeFilter options (artifactTypeOf (ci_fileName a)) \<Longrightarrow> Q (newArtifact options run a)"
    and "\<forall>x\<in>set acc. Q x"
  shows "\<forall>x\<in>set (carried (artifactLoop options run as acc)). Q x"
  using assms(2)
proof (induction as arbitrary: acc)
  case Nil
  then show ?case by simp
next
  case (Cons a as)
  show ?case
  proof (cases "passesTypeFilter options (artifactTypeOf (ci_fileName a))")
    case False
    with Cons show ?thesis by simp
  next
    case True
    let ?acc = "acc @ [newArtifact options run a]"
    have q: "\<forall>x\<in>set ?acc. Q x" using Cons.prems assms(1) [OF True] by simp
    show ?thesis
    proof (cases "limitOr3 options \<le> int (length ?acc)")
      case True
      with \<open>passesTypeFilter options (artifactTypeOf (ci_fileName a))\<close> q set_slice0 [of ?acc "limitOr3 options"]
      show ?thesis by (auto simp: Let_def)
    next
      case False
      with \<open>passesTypeFilter options (artifactTypeOf (ci_fileName a))\<close> Cons.IH [OF q]
      show ?thesis by (simp add: Let_def)
    qed
  qed
qed

lemma actionLoop_all:
  assumes "\<And>a. passesTypeFilter options (artifactTypeOf (ci_fileName a)) \<Longrightarrow> Q (newArtifact options run a)"
    and "\<forall>x\<in>set acc. Q x"
    and "actionLoop api options run acts acc log = (log', Inr lp)"
  shows "\<forall>x\<in>set (carried lp). Q x"
  using assms(2,3)
proof (induction acts arbitrary: acc log)
  case Nil
  then show ?case by auto
next
  case (Cons act acts)
  obtain l1 res where r: "AppStoreConnectProvider_request api (Artifacts (action_id act))
      (getArtifacts api (action_id act)) log = (l1, res)" by (cases "AppStoreConnectProvider_request api (Artifacts (action_id act))
      (getArtifacts api (action_id act)) log")
  show ?case
  proof (cases res)
    case (Inl e)
    with r Cons.prems(2) show ?thesis by simp
  next
    case (Inr arts)
    have q: "\<forall>x\<in>set (carried (artifactLoop options run arts acc)). Q x"
      using artifactLoop_all [of options Q run acc arts] assms(1) Cons.prems(1) by blast
    show ?thesis
    proof (cases "artifactLoop options run arts acc")
      case (Continue acc')
      with q have "\<forall>x\<in>set acc'. Q x" by simp
      moreover have "actionLoop api options run acts acc' l1 = (log', Inr lp)"
        using Cons.prems(2) r Inr Continue by simp
      ultimately show ?thesis using Cons.IH by blast
    next
      case (Return result)
      then have "lp = Return result" using Cons.prems(2) r Inr by simp
      with q Return show ?thesis by simp
    qed
  qed
qed

lemma buildRunLoop_all:
  assumes "\<And>run a. passesTypeFilter options (artifactTypeOf (ci_fileName a)) \<Longrightarrow> Q (newArtifact options run a)"
    and "\<forall>x\<in>set acc. Q x"
    and "buildRunLoop api options runs acc log = (log', Inr lp)"
  shows "\<forall>x\<in>set (carried lp). Q x"
  using assms(2,3)
proof (induction runs arbitrary: acc log)
  case Nil
  then show ?case by auto
next
  case (Cons run runs)
  show ?case
  proof (cases "truthy (SearchOptions.buildNumber options) \<and>
         toString (run_number run) \<noteq> the (SearchOptions.buildNumber options)")
    case True
    with Cons.prems(2) have "buildRunLoop api options runs acc log = (log', Inr lp)" by simp
    with Cons.IH Cons.prems(1) show ?thesis by blast
  next
    case False
    obtain l1 res where r: "AppStoreConnectProvider_request api (Actions (run_id run))
        (getActions api (run_id run)) log = (l1, res)"
      by (cases "AppStoreConnectProvider_request api (Actions (run_id run)) (getActions api (run_id run)) log")
    show ?thesis
    proof (cases res)
      case (Inl e)
      with False r Cons.prems(2) show ?thesis by auto
    next
      case (Inr acts)
      let ?arch = "filter (\<lambda>action. action_actionType action = ''ARCHIVE'') acts"
      obtain l2 res2 where r2: "actionLoop api options run ?arch acc l1 = (l2, res2)"
        by (cases "actionLoop api options run ?arch acc l1")
      show ?thesis
      proof (cases res2)
        case (Inl e)
        with False r Inr r2 Cons.prems(2) show ?thesis by auto
      next
        case (Inr lp2)
        have q: "\<forall>x\<in>set (carried lp2). Q x"
          using actionLoop_all [of options Q run acc api ?arch l1 l2 lp2] assms(1) Cons.prems(1) r2 Inr
          by blast
        show ?thesis
        proof (cases lp2)
          case (Continue acc')
          with q have "\<forall>x\<in>set acc'. Q x" by simp
          moreover have "buildRunLoop api options runs acc' l2 = (log', Inr lp)"
            using Cons.prems(2) False r \<open>res = Inr acts\<close> r2 Inr Continue by auto
          ultimately show ?thesis using Cons.IH by blast
        next
          case (Return result)
          then have "lp = Return result"
            using Cons.prems(2) False r \<open>res = Inr acts\<close> r2 Inr by auto
          with q Return show ?thesis by simp
        qed
      qed
    qed
  qed
qed

lemma search_all:
  assumes "\<And>run a. passesTypeFilter options (artifactTypeOf (ci_fileName a)) \<Longrightarrow> Q (newArtifact options run a)"
    and "snd (AppStoreConnectProvider_search api options) = Inr found"
  shows "\<forall>x\<in>set found. Q x"
proof -
  have loop: "buildRunLoop api options runs [] log = (log', Inr lp) \<Longrightarrow> \<forall>x\<in>set (carried lp). Q x"
    for runs log log' lp
    using buildRunLoop_all [of options Q "[]" api runs log log' lp] assms(1) by simp
  from assms(2) show ?thesis
    unfolding AppStoreConnectProvider_search_def
    by (auto simp: Let_def split: prod.splits sum.splits option.splits loop.splits dest!: loop)
qed

lemma passes_ipa:
  assumes "SearchOptions.artifactType options = Some ''ipa''"
  shows "passesTypeFilter options t \<longleftrightarrow> t \<in> ipaCompatible"
  using assms by (auto simp: passesTypeFilter_def truthy_def ipaTypes_def ipaCompatible_def)

lemma scenario:
  "AppStoreConnectProvider_search (exampleApi stream8) scenarioOptions =
     ([CiProducts, BuildRuns ''p1'' 20, Actions ''r8'', Artifacts ''a8'', Actions ''r7'',
       Artifacts ''a7'', Actions ''r6'', Artifacts ''a6'', Actions ''r5'', Artifacts ''a5''],
      Inr [\<lparr>Artifact.id = ''art-8-0'', version = ''1.2.3'', buildNumber = ''8'',
             artifactType = ''ad_hoc'', fileName = ''App 1.2.3 ad-hoc.ipa'', fileSize = 1024,
             uploadedAt = ''2025-01-01T00:00:00Z'', provider = ''app-store-connect''\<rparr>,
           \<lparr>Artifact.id = ''art-7-0'', version = ''1.2.3'', buildNumber = ''7'',
             artifactType = ''ad_hoc'', fileName = ''App 1.2.3 ad-hoc.ipa'', fileSize = 1024,
             uploadedAt = ''2025-01-01T00:00:00Z'', provider = ''app-store-connect''\<rparr>,
           \<lparr>Artifact.id = ''art-5-0'', version = ''1.2.2'', buildNumber = ''5'',
             artifactType = ''development'', fileName = ''App 1.2.2 development.ipa'',
             fileSize = 1024, uploadedAt = ''2025-01-01T00:00:00Z'',
             provider = ''app-store-connect''\<rparr>])"
  by code_simp

lemma stream8_types:
  "map (\<lambda>(k, names). map artifactTypeOf names) stream8 =
     [[''ad_hoc''], [''ad_hoc''], [''logs''], [''development''], [''development''],
      [''development''], [''development''], [''development'']]"
  by code_simp


section \<open>Properties of the product listing\<close>

lemma listFrom_other:
  "fromOpt \<noteq> ''all'' \<Longrightarrow> fromOpt \<noteq> key \<Longrightarrow>
     listFrom fromOpt key providerName configName valid products state = Continue state"
  by (cases state) (simp add: listFrom_def)

lemma listFrom_failure_all:
  "valid \<Longrightarrow> key \<noteq> ''all'' \<Longrightarrow> listFrom ''all'' key providerName configName valid (Inl e) (allProducts, warnings)
     = Continue (allProducts, warnings @ [''Failed to fetch from '' @ providerName @ '': '' @ message e])"
  by (auto simp: listFrom_def)

lemma listFrom_failure_single:
  "valid \<Longrightarrow> listFrom key key providerName configName valid (Inl e) state = Return (Failed e)"
  by (cases state) (auto simp: listFrom_def)

lemma listFrom_success:
  "valid \<Longrightarrow> fromOpt = ''all'' \<or> fromOpt = key \<Longrightarrow>
     listFrom fromOpt key providerName configName valid (Inr ps) (allProducts, warnings)
     = Continue (allProducts @ map (listed providerName) ps, warnings)"
  by (auto simp: listFrom_def)

lemma asc_listProducts_failure:
  "listProducts (AppStoreConnectProvider api dl) = Inl e \<longleftrightarrow>
     generateToken api = Inl e \<or> (\<not> isl (generateToken api) \<and> getCiProducts api = Inl e)"
  by (auto simp: AppStoreConnectProvider_def AppStoreConnectProvider_listProducts_def
        AppStoreConnectProvider_request_def split: sum.splits option.splits)

lemma firebase_listProducts_failure:
  "listProducts (FirebaseAppDistributionProvider fb dl) = Inl e \<longleftrightarrow> getAccessToken fb = Inl e"
  by (auto simp: FirebaseAppDistributionProvider_def FirebaseAppDistributionProvider_listProducts_def
        split: sum.splits)

lemma getAccessToken_update [simp]:
  "getAccessToken (fb\<lparr>getAndroidApps := x\<rparr>) = getAccessToken fb"
  "getAccessToken (fb\<lparr>getIosApps := y\<rparr>) = getAccessToken fb"
  by (simp_all add: getAccessToken_def)

lemma firebase_listProducts_android:
  "isl (getAndroidApps fb) \<Longrightarrow>
     listProducts (FirebaseAppDistributionProvider fb dl)
       = listProducts (FirebaseAppDistributionProvider (fb\<lparr>getAndroidApps := Inr None\<rparr>) dl)"
  by (auto simp: FirebaseAppDistributionProvider_def FirebaseAppDistributionProvider_listProducts_def
        isl_def split: sum.splits)

lemma firebase_listProducts_ios:
  "isl (getIosApps fb) \<Longrightarrow>
     listProducts (FirebaseAppDistributionProvider fb dl)
       = listProducts (FirebaseAppDistributionProvider (fb\<lparr>getIosApps := Inr None\<rparr>) dl)"
  by (auto simp: FirebaseAppDistributionProvider_def FirebaseAppDistributionProvider_listProducts_def
        isl_def split: sum.splits)

lemma firebase_listProducts_none:
  "\<not> isl (getAccessToken fb) \<Longrightarrow> isl (getAndroidApps fb) \<Longrightarrow> isl (getIosApps fb) \<Longrightarrow>
     listProducts (FirebaseAppDistributionProvider fb dl) = Inr []"
  by (auto simp: FirebaseAppDistributionProvider_def FirebaseAppDistributionProvider_listProducts_def
        isl_def split: sum.splits)

lemma executeListProducts_firebase:
  assumes "list_from options = ''app-distribution''" "validateFirebaseConfig (config world)"
  shows "executeListProducts options world =
     (case listProducts (newFirebaseAppDistributionProvider world) of
        Inl e \<Rightarrow> Failed e
      | Inr ps \<Rightarrow> Ok (filterByPlatform options (map (listed ''Firebase App Distribution'') ps), []))"
proof -
  have "listFrom ''app-distribution'' ''app-store-connect'' ''App Store Connect''
             ''App Store Connect'' (validateAppStoreConnectConfig (config world))
             (listProducts (newAppStoreConnectProvider world)) ([], []) = Continue ([], [])"
    by (rule listFrom_other) simp_all
  with assms show ?thesis
    by (simp add: executeListProducts_def listFrom_failure_single listFrom_success
          split: sum.splits)
qed

lemma executeListProducts_asc:
  assumes "list_from options = ''app-store-connect''" "validateAppStoreConnectConfig (config world)"
  shows "executeListProducts options world =
     (case listProducts (newAppStoreConnectProvider world) of
        Inl e \<Rightarrow> Failed e
      | Inr ps \<Rightarrow> Ok (filterByPlatform options (map (listed ''App Store Connect'') ps), []))"
proof (cases "listProducts (newAppStoreConnectProvider world)")
  case (Inl e)
  with assms show ?thesis
    by (simp add: executeListProducts_def listFrom_failure_single)
next
  case (Inr ps)
  have "listFrom ''app-store-connect'' ''app-distribution'' ''Firebase App Distribution''
             ''Firebase'' (validateFirebaseConfig (config world))
             (listProducts (newFirebaseAppDistributionProvider world)) st = Continue st" for st
    by (rule listFrom_other) simp_all
  with assms Inr show ?thesis
    by (simp add: executeListProducts_def listFrom_success)
qed

lemma executeListProducts_all:
  assumes "list_from options = ''all''"
    "validateAppStoreConnectConfig (config world)" "validateFirebaseConfig (config world)"
  shows "executeListProducts options world =
     Ok (filterByPlatform options
           ((case listProducts (newAppStoreConnectProvider world) of
               Inl e \<Rightarrow> [] | Inr ps \<Rightarrow> map (listed ''App Store Connect'') ps) @
            (case listProducts (newFirebaseAppDistributionProvider world) of
               Inl e \<Rightarrow> [] | Inr ps \<Rightarrow> map (listed ''Firebase App Distribution'') ps)),
         (case listProducts (newAppStoreConnectProvider world) of
            Inl e \<Rightarrow> [''Failed to fetch from App Store Connect: '' @ message e] | Inr ps \<Rightarrow> []) @
         (case listProducts (newFirebaseAppDistributionProvider world) of
            Inl e \<Rightarrow> [''Failed to fetch from Firebase App Distribution: '' @ message e]
          | Inr ps \<Rightarrow> []))"
  using assms
  by (simp add: executeListProducts_def listFrom_failure_all listFrom_success split: sum.splits)

text \<open>
  Claim C6. With \<open>--from all\<close>, a provider whose listing throws is skipped and the error is
  recorded as a warning, while the products of the other provider are still listed; with
  that provider alone requested, the same error ends the command. The listing of App
  Store Connect throws exactly when its token or its products request fails. The listing
  of Firebase throws exactly when no access token is acquired: an error of its Android
  or of its iOS app list is caught inside the listing, which goes on as if that list had
  no apps. So where both app lists fail, the command records no warning with \<open>--from all\<close>,
  and with \<open>--from app-distribution\<close> it ends well with no products.
\<close>

theorem list_products_partial_failure:
  "(list_from options = ''all'' \<and>
    validateAppStoreConnectConfig (config world) \<and> validateFirebaseConfig (config world) \<and>
    listProducts (newAppStoreConnectProvider world) = Inl e \<and>
    listProducts (newFirebaseAppDistributionProvider world) = Inr ps \<longrightarrow>
      executeListProducts options world =
        Ok (filterByPlatform options (map (listed ''Firebase App Distribution'') ps),
            [''Failed to fetch from App Store Connect: '' @ message e]))
   \<and>
   (list_from options = ''all'' \<and>
    validateAppStoreConnectConfig (config world) \<and> validateFirebaseConfig (config world) \<and>
    listProducts (newAppStoreConnectProvider world) = Inr ps \<and>
    listProducts (newFirebaseAppDistributionProvider world) = Inl e \<longrightarrow>
      executeListProducts options world =
        Ok (filterByPlatform options (map (listed ''App Store Connect'') ps),
            [''Failed to fetch from Firebase App Distribution: '' @ message e]))
   \<and>
   (list_from options = ''app-store-connect'' \<and>
    validateAppStoreConnectConfig (config world) \<and>
    listProducts (newAppStoreConnectProvider world) = Inl e \<longrightarrow>
      executeListProducts options world = Failed e)
   \<and>
   (list_from options = ''app-distribution'' \<and>
    validateFirebaseConfig (config world) \<and>
    listProducts (newFirebaseAppDistributionProvider world) = Inl e \<longrightarrow>
      executeListProducts options world = Failed e)
   \<and>
   (listProducts (AppStoreConnectProvider api dl) = Inl e \<longleftrightarrow>
      generateToken api = Inl e \<or> (\<not> isl (generateToken api) \<and> getCiProducts api = Inl e))
   \<and>
   (listProducts (FirebaseAppDistributionProvider fb dl) = Inl e \<longleftrightarrow> getAccessToken fb = Inl e)
   \<and>
   (isl (getAndroidApps fb) \<longrightarrow>
      listProducts (FirebaseAppDistributionProvider fb dl)
        = listProducts (FirebaseAppDistributionProvider (fb\<lparr>getAndroidApps := Inr None\<rparr>) dl))
   \<and>
   (isl (getIosApps fb) \<longrightarrow>
      listProducts (FirebaseAppDistributionProvider fb dl)
        = listProducts (FirebaseAppDistributionProvider (fb\<lparr>getIosApps := Inr None\<rparr>) dl))
   \<and>
   (newFirebaseAppDistributionProvider world = FirebaseAppDistributionProvider fb dl \<and>
    validateFirebaseConfig (config world) \<and>
    \<not> isl (getAccessToken fb) \<and> isl (getAndroidApps fb) \<and> isl (getIosApps fb) \<longrightarrow>
      (list_from options = ''app-distribution'' \<longrightarrow>
         executeListProducts options world = Ok ([], [])) \<and>
      (list_from options = ''all'' \<and> validateAppStoreConnectConfig (config world) \<and>
       listProducts (newAppStoreConnectProvider world) = Inr ps \<longrightarrow>
         executeListProducts options world =
           Ok (filterByPlatform options (map (listed ''App Store Connect'') ps), [])))"
proof -
  have 1: "list_from options = ''all'' \<and>
    validateAppStoreConnectConfig (config world) \<and> validateFirebaseConfig (config world) \<and>
    listProducts (newAppStoreConnectProvider world) = Inl e \<and>
    listProducts (newFirebaseAppDistributionProvider world) = Inr ps \<longrightarrow>
      executeListProducts options world =
        Ok (filterByPlatform options (map (listed ''Firebase App Distribution'') ps),
            [''Failed to fetch from App Store Connect: '' @ message e])"
    by (simp add: executeListProducts_all)
  have 2: "list_from options = ''all'' \<and>
    validateAppStoreConnectConfig (config world) \<and> validateFirebaseConfig (config world) \<and>
    listProducts (newAppStoreConnectProvider world) = Inr ps \<and>
    listProducts (newFirebaseAppDistributionProvider world) = Inl e \<longrightarrow>
      executeListProducts options world =
        Ok (filterByPlatform options (map (listed ''App Store Connect'') ps),
            [''Failed to fetch from Firebase App Distribution: '' @ message e])"
    by (simp add: executeListProducts_all)
  have 3: "list_from options = ''app-store-connect'' \<and>
    validateAppStoreConnectConfig (config world) \<and>
    listProducts (newAppStoreConnectProvider world) = Inl e \<longrightarrow>
      executeListProducts options world = Failed e"
    by (simp add: executeListProducts_asc)
  have 4: "list_from options = ''app-distribution'' \<and>
    validateFirebaseConfig (config world) \<and>
    listProducts (newFirebaseAppDistributionProvider world) = Inl e \<longrightarrow>
      executeListProducts options world = Failed e"
    by (simp add: executeListProducts_firebase)
  note 5 = asc_listProducts_failure [of api dl e]
  note 6 = firebase_listProducts_failure [of fb dl e]
  have 7: "isl (getAndroidApps fb) \<longrightarrow>
      listProducts (FirebaseAppDistributionProvider fb dl)
        = listProducts (FirebaseAppDistributionProvider (fb\<lparr>getAndroidApps := Inr None\<rparr>) dl)"
    using firebase_listProducts_android [of fb dl] by blast
  have 8: "isl (getIosApps fb) \<longrightarrow>
      listProducts (FirebaseAppDistributionProvider fb dl)
        = listProducts (FirebaseAppDistributionProvider (fb\<lparr>getIosApps := Inr None\<rparr>) dl)"
    using firebase_listProducts_ios [of fb dl] by blast
  have 9: "newFirebaseAppDistributionProvider world = FirebaseAppDistributionProvider fb dl \<and>
    validateFirebaseConfig (config world) \<and>
    \<not> isl (getAccessToken fb) \<and> isl (getAndroidApps fb) \<and> isl (getIosApps fb) \<longrightarrow>
      (list_from options = ''app-distribution'' \<longrightarrow>
         executeListProducts options world = Ok ([], [])) \<and>
      (list_from options = ''all'' \<and> validateAppStoreConnectConfig (config world) \<and>
       listProducts (newAppStoreConnectProvider world) = Inr ps \<longrightarrow>
         executeListProducts options world =
           Ok (filterByPlatform options (map (listed ''App Store Connect'') ps), []))"
  proof (intro impI)
    assume a: "newFirebaseAppDistributionProvider world = FirebaseAppDistributionProvider fb dl \<and>
      validateFirebaseConfig (config world) \<and>
      \<not> isl (getAccessToken fb) \<and> isl (getAndroidApps fb) \<and> isl (getIosApps fb)"
    then have n: "listProducts (newFirebaseAppDistributionProvider world) = Inr []"
      using firebase_listProducts_none [of fb dl] by simp
    have f: "filterByPlatform options [] = []"
      by (simp add: filterByPlatform_def)
    from a n f show "(list_from options = ''app-distribution'' \<longrightarrow>
         executeListProducts options world = Ok ([], [])) \<and>
      (list_from options = ''all'' \<and> validateAppStoreConnectConfig (config world) \<and>
       listProducts (newAppStoreConnectProvider world) = Inr ps \<longrightarrow>
         executeListProducts options world =
           Ok (filterByPlatform options (map (listed ''App Store Connect'') ps), []))"
      by (simp add: executeListProducts_firebase executeListProducts_all)
  qed
  from 1 2 3 4 5 6 7 8 9 show ?thesis by (intro conjI)
qed

lemma example_listings:
  "validateAppStoreConnectConfig (config (exampleWorld asc fb))"
  "validateFirebaseConfig (config (exampleWorld asc fb))"
  "newAppStoreConnectProvider (exampleWorld asc fb) = AppStoreConnectProvider asc (\<lambda>artifact path. Inr ())"
  "newFirebaseAppDistributionProvider (exampleWorld asc fb)
     = FirebaseAppDistributionProvider fb (\<lambda>artifact path. Inr ())"
  by (simp_all add: exampleWorld_def exampleConfig_def validateAppStoreConnectConfig_def
        validateFirebaseConfig_def truthy_def)

lemma example_upstreams:
  "generateToken unauthorizedApi = Inr ''token''"
  "getCiProducts unauthorizedApi = Inl unauthorized401"
  "listProducts (FirebaseAppDistributionProvider (exampleFirebase []) (\<lambda>artifact path. Inr ()))
     = Inr [\<lparr>ps_id = ''com.example.app'', ps_name = ''Demo'', ps_platform = Some ''android''\<rparr>,
            \<lparr>ps_id = ''com.example.ios'', ps_name = ''Demo iOS'', ps_platform = Some ''ios''\<rparr>]"
  "listProducts (AppStoreConnectProvider (exampleApi []) (\<lambda>artifact path. Inr ()))
     = Inr [\<lparr>ps_id = ''p1'', ps_name = ''App'', ps_platform = Some ''ios''\<rparr>]"
  "getAccessToken tokenlessFirebase = Inl (newError ''Failed to get access token'')"
  "getAccessToken forbiddenFirebase = Inr ''token''"
  "getAndroidApps forbiddenFirebase = Inl forbidden403"
  "getIosApps forbiddenFirebase = Inl forbidden403"
  by (simp_all add: unauthorizedApi_def exampleApi_def exampleFirebase_def tokenlessFirebase_def
        forbiddenFirebase_def getAccessToken_def truthy_def
        FirebaseAppDistributionProvider_def FirebaseAppDistributionProvider_listProducts_def
        AppStoreConnectProvider_def AppStoreConnectProvider_listProducts_def
        AppStoreConnectProvider_request_def)

theorem list_products_partial_failure_witness:
  "executeListProducts \<lparr>list_from = ''all'', list_platform = Some ''all''\<rparr>
      (exampleWorld unauthorizedApi (exampleFirebase []))
     = Ok ([\<lparr>lp_id = ''com.example.app'', lp_name = ''Demo'', lp_platform = Some ''android'',
              lp_provider = ''Firebase App Distribution''\<rparr>,
            \<lparr>lp_id = ''com.example.ios'', lp_name = ''Demo iOS'', lp_platform = Some ''ios'',
              lp_provider = ''Firebase App Distribution''\<rparr>],
           [''Failed to fetch from App Store Connect: Request failed with status code 401''])
   \<and>
   executeListProducts \<lparr>list_from = ''app-store-connect'', list_platform = Some ''all''\<rparr>
      (exampleWorld unauthorizedApi (exampleFirebase []))
     = Failed unauthorized401
   \<and>
   executeListProducts \<lparr>list_from = ''all'', list_platform = Some ''all''\<rparr>
      (exampleWorld (exampleApi []) tokenlessFirebase)
     = Ok ([\<lparr>lp_id = ''p1'', lp_name = ''App'', lp_platform = Some ''ios'',
              lp_provider = ''App Store Connect''\<rparr>],
           [''Failed to fetch from Firebase App Distribution: Failed to get access token''])
   \<and>
   executeListProducts \<lparr>list_from = ''app-distribution'', list_platform = Some ''all''\<rparr>
      (exampleWorld (exampleApi []) tokenlessFirebase)
     = Failed (newError ''Failed to get access token'')
   \<and>
   executeListProducts \<lparr>list_from = ''app-distribution'', list_platform = Some ''all''\<rparr>
      (exampleWorld (exampleApi []) forbiddenFirebase)
     = Ok ([], [])
   \<and>
   executeListProducts \<lparr>list_from = ''all'', list_platform = Some ''all''\<rparr>
      (exampleWorld (exampleApi []) forbiddenFirebase)
     = Ok ([\<lparr>lp_id = ''p1'', lp_name = ''App'', lp_platform = Some ''ios'',
              lp_provider = ''App Store Connect''\<rparr>], [])"
proof -
  let ?dl = "\<lambda>(artifact :: Artifact) (path :: string). (Inr () :: failure + unit)"
  let ?all = "\<lparr>list_from = ''all'', list_platform = Some ''all''\<rparr>"
  let ?asc = "\<lparr>list_from = ''app-store-connect'', list_platform = Some ''all''\<rparr>"
  let ?fb = "\<lparr>list_from = ''app-distribution'', list_platform = Some ''all''\<rparr>"
  let ?w1 = "exampleWorld unauthorizedApi (exampleFirebase [])"
  let ?w2 = "exampleWorld (exampleApi []) tokenlessFirebase"
  let ?w3 = "exampleWorld (exampleApi []) forbiddenFirebase"
  let ?apps = "[\<lparr>ps_id = ''com.example.app'', ps_name = ''Demo'', ps_platform = Some ''android''\<rparr>,
            \<lparr>ps_id = ''com.example.ios'', ps_name = ''Demo iOS'', ps_platform = Some ''ios''\<rparr>]"
  let ?products = "[\<lparr>ps_id = ''p1'', ps_name = ''App'', ps_platform = Some ''ios''\<rparr>]"
  have t1: "listProducts (AppStoreConnectProvider unauthorizedApi ?dl) = Inl unauthorized401"
    using list_products_partial_failure [where api = unauthorizedApi and dl = ?dl
        and e = unauthorized401]
    by (simp add: example_upstreams)
  have t2: "listProducts (FirebaseAppDistributionProvider tokenlessFirebase ?dl)
      = Inl (newError ''Failed to get access token'')"
    using list_products_partial_failure [where fb = tokenlessFirebase and dl = ?dl
        and e = "newError ''Failed to get access token''"]
    by (simp add: example_upstreams)
  have 1: "executeListProducts ?all ?w1 =
      Ok (filterByPlatform ?all (map (listed ''Firebase App Distribution'') ?apps),
          [''Failed to fetch from App Store Connect: '' @ message unauthorized401])"
    using list_products_partial_failure [where options = ?all and world = ?w1
        and e = unauthorized401 and ps = ?apps] t1
    by (simp add: example_listings example_upstreams)
  have 2: "executeListProducts ?asc ?w1 = Failed unauthorized401"
    using list_products_partial_failure [where options = ?asc and world = ?w1
        and e = unauthorized401] t1
    by (simp add: example_listings)
  have 3: "executeListProducts ?all ?w2 =
      Ok (filterByPlatform ?all (map (listed ''App Store Connect'') ?products),
          [''Failed to fetch from Firebase App Distribution: '' @
           message (newError ''Failed to get access token'')])"
    using list_products_partial_failure [where options = ?all and world = ?w2
        and e = "newError ''Failed to get access token''" and ps = ?products] t2
    by (simp add: example_listings example_upstreams)
  have 4: "executeListProducts ?fb ?w2 = Failed (newError ''Failed to get access token'')"
    using list_products_partial_failure [where options = ?fb and world = ?w2
        and e = "newError ''Failed to get access token''"] t2
    by (simp add: example_listings)
  have 5: "executeListProducts ?fb ?w3 = Ok ([], [])"
    using list_products_partial_failure [where options = ?fb and world = ?w3
        and fb = forbiddenFirebase and dl = ?dl]
    by (simp add: example_listings example_upstreams)
  have 6: "executeListProducts ?all ?w3 =
      Ok (filterByPlatform ?all (map (listed ''App Store Connect'') ?products), [])"
    using list_products_partial_failure [where options = ?all and world = ?w3
        and fb = forbiddenFirebase and dl = ?dl and ps = ?products]
    by (simp add: example_listings example_upstreams)
  from 1 2 3 4 5 6 show ?thesis
    by (simp add: filterByPlatform_def listed_def unauthorized401_def newError_def)
qed

theorem list_products_partial_failure_counterexample:
  "getAccessToken forbiddenFirebase = Inr ''token''
   \<and> getAndroidApps forbiddenFirebase = Inl forbidden403
   \<and> getIosApps forbiddenFirebase = Inl forbidden403
   \<and> executeListProducts \<lparr>list_from = ''app-distribution'', list_platform = Some ''all''\<rparr>
        (exampleWorld (exampleApi []) forbiddenFirebase) = Ok ([], [])
   \<and> executeListProducts \<lparr>list_from = ''app-distribution'', list_platform = Some ''all''\<rparr>
        (exampleWorld (exampleApi []) forbiddenFirebase) \<noteq> Failed forbidden403
   \<and> executeListProducts \<lparr>list_from = ''all'', list_platform = Some ''all''\<rparr>
        (exampleWorld (exampleApi []) forbiddenFirebase)
       = Ok ([\<lparr>lp_id = ''p1'', lp_name = ''App'', lp_platform = Some ''ios'',
                lp_provider = ''App Store Connect''\<rparr>], [])"
  by code_simp


section \<open>Properties of the output path\<close>

lemma split_no_sep: "sep \<notin> set x \<Longrightarrow> split sep x = [x]"
  by (induction x) auto

lemma split_append_sep: "sep \<notin> set x \<Longrightarrow> split sep (x @ sep # r) = x # split sep r"
  by (induction x) auto

lemma joinWith_Cons: "ys \<noteq> [] \<Longrightarrow> joinWith sep (x # ys) = x @ sep @ joinWith sep ys"
  by (cases ys) auto

lemma joinWith_Cons_if:
  "joinWith sep (x # ys) = (if ys = [] then x else x @ sep @ joinWith sep ys)"
  by (cases ys) auto

lemma split_joinWith:
  "segs \<noteq> [] \<Longrightarrow> \<forall>s\<in>set segs. CHR ''/'' \<notin> set s \<Longrightarrow>
     split CHR ''/'' (joinWith ''/'' segs) = segs"
proof (induction segs)
  case Nil
  then show ?case by simp
next
  case (Cons s segs)
  show ?case
  proof (cases "segs = []")
    case True
    with Cons.prems show ?thesis by (simp add: split_no_sep)
  next
    case False
    with Cons show ?thesis by (simp add: joinWith_Cons split_append_sep)
  qed
qed

lemma joinWith_snoc: "segs \<noteq> [] \<Longrightarrow> joinWith sep (segs @ [f]) = joinWith sep segs @ sep @ f"
proof (induction segs)
  case Nil
  then show ?case by simp
next
  case (Cons s segs)
  then show ?case by (cases "segs = []") (simp_all add: joinWith_Cons)
qed

lemma normalizeSegments_plain:
  "\<forall>s\<in>set segs. plainSegment s \<Longrightarrow> normalizeSegments allow segs res = res @ segs"
  by (induction segs arbitrary: res) (auto simp: plainSegment_def)

lemma joinWith_nonempty: "segs \<noteq> [] \<Longrightarrow> \<forall>s\<in>set segs. s \<noteq> [] \<Longrightarrow> joinWith sep segs \<noteq> []"
  by (cases segs) (auto simp: joinWith_Cons_if)

lemma hd_joinWith: "segs \<noteq> [] \<Longrightarrow> hd segs \<noteq> [] \<Longrightarrow> hd (joinWith sep segs) = hd (hd segs)"
  by (cases segs) (auto simp: joinWith_Cons_if)

lemma last_joinWith_snoc: "f \<noteq> [] \<Longrightarrow> last (joinWith sep (segs @ [f])) = last f"
  by (cases "segs = []") (simp_all add: joinWith_snoc)

lemma normalize_plain_relative:
  assumes "segs \<noteq> []" "\<forall>s\<in>set segs. plainSegment s"
  shows "normalize (joinWith ''/'' segs) = joinWith ''/'' segs"
proof -
  let ?p = "joinWith ''/'' segs"
  have ne: "?p \<noteq> []" using assms by (intro joinWith_nonempty) (auto simp: plainSegment_def)
  have h: "hd ?p \<noteq> CHR ''/''"
  proof -
    have "hd segs \<in> set segs" using assms(1) by simp
    with assms(2) have "plainSegment (hd segs)" by blast
    then have "hd segs \<noteq> []" "hd (hd segs) \<noteq> CHR ''/''"
      by (auto simp: plainSegment_def dest: hd_in_set)
    then show ?thesis using hd_joinWith [OF assms(1), of "''/''"] by simp
  qed
  have l: "last ?p \<noteq> CHR ''/''"
  proof -
    obtain xs f where segs: "segs = xs @ [f]" using assms(1) by (metis rev_exhaust)
    with assms(2) have "plainSegment f" by simp
    then have "f \<noteq> []" "last f \<noteq> CHR ''/''" by (auto simp: plainSegment_def dest: last_in_set)
    then show ?thesis unfolding segs using last_joinWith_snoc [of f "''/''" xs] by simp
  qed
  have s: "split CHR ''/'' ?p = segs"
    using split_joinWith [OF assms(1)] assms(2) by (auto simp: plainSegment_def)
  show ?thesis
    using ne h l by (simp add: normalize_def Let_def s normalizeSegments_plain [OF assms(2)])
qed

lemma normalize_plain_absolute:
  assumes "segs \<noteq> []" "\<forall>s\<in>set segs. plainSegment s"
  shows "normalize (''/'' @ joinWith ''/'' segs) = ''/'' @ joinWith ''/'' segs"
proof -
  let ?p = "joinWith ''/'' segs"
  have ne: "?p \<noteq> []" using assms by (intro joinWith_nonempty) (auto simp: plainSegment_def)
  have l: "last ?p \<noteq> CHR ''/''"
  proof -
    obtain xs f where segs: "segs = xs @ [f]" using assms(1) by (metis rev_exhaust)
    with assms(2) have "plainSegment f" by simp
    then have "f \<noteq> []" "last f \<noteq> CHR ''/''" by (auto simp: plainSegment_def dest: last_in_set)
    then show ?thesis unfolding segs using last_joinWith_snoc [of f "''/''" xs] by simp
  qed
  have s: "split CHR ''/'' ?p = segs"
    using split_joinWith [OF assms(1)] assms(2) by (auto simp: plainSegment_def)
  show ?thesis
    using ne l by (simp add: normalize_def Let_def s normalizeSegments_plain [OF assms(2)])
qed

lemma join_plain:
  assumes "segs \<noteq> []" "\<forall>s\<in>set segs. plainSegment s" "plainSegment f"
  shows "join (joinWith ''/'' segs) f = joinWith ''/'' segs @ ''/'' @ f"
    and "join (''/'' @ joinWith ''/'' segs) f = ''/'' @ joinWith ''/'' segs @ ''/'' @ f"
proof -
  have ne: "joinWith ''/'' segs \<noteq> []" using assms by (intro joinWith_nonempty) (auto simp: plainSegment_def)
  have f: "f \<noteq> []" using assms(3) by (simp add: plainSegment_def)
  have all: "\<forall>s\<in>set (segs @ [f]). plainSegment s" using assms by simp
  have "normalize (joinWith ''/'' (segs @ [f])) = joinWith ''/'' (segs @ [f])"
    by (rule normalize_plain_relative [OF _ all]) simp
  then show "join (joinWith ''/'' segs) f = joinWith ''/'' segs @ ''/'' @ f"
    using ne f by (simp add: join_def joinWith_snoc [OF assms(1)])
  have "normalize (''/'' @ joinWith ''/'' (segs @ [f])) = ''/'' @ joinWith ''/'' (segs @ [f])"
    by (rule normalize_plain_absolute [OF _ all]) simp
  then show "join (''/'' @ joinWith ''/'' segs) f = ''/'' @ joinWith ''/'' segs @ ''/'' @ f"
    using f by (simp add: join_def joinWith_snoc [OF assms(1)])
qed

lemma mkdirRecursive_idem: "mkdirRecursive (mkdirRecursive dirs d) d = mkdirRecursive dirs d"
  by (auto simp: mkdirRecursive_def)

lemma executeDownload_events:
  assumes "resolveArtifact versionOrId options world = (events, Ok artifact)"
  shows "fst (executeDownload versionOrId options world) =
           events @ Mkdir (dirname (outputPathFor (opt_output options) artifact)) #
             (if mkdir world (dirname (outputPathFor (opt_output options) artifact)) = None
              then [Download artifact (outputPathFor (opt_output options) artifact)] else [])"
  using assms by (auto simp: executeDownload_def Let_def split: option.splits sum.splits)

lemma executeDownload_done:
  assumes "resolveArtifact versionOrId options world = (events, Ok artifact)"
    and "mkdir world (dirname (outputPathFor (opt_output options) artifact)) = None"
    and "download (if opt_from options = ''app-store-connect''
                   then newAppStoreConnectProvider world
                   else newFirebaseAppDistributionProvider world)
           artifact (outputPathFor (opt_output options) artifact) = Inr ()"
  shows "snd (executeDownload versionOrId options world) =
           Ok (artifact, outputPathFor (opt_output options) artifact)"
  using assms by (auto simp: executeDownload_def Let_def split: option.splits sum.splits)

lemma output_examples:
  "outputPathFor ''./out'' buildIpa = ''out/build.ipa''"
  "outputPathFor ''./out/build.ipa'' buildIpa = ''./out/build.ipa''"
  "outputPathFor ''out'' buildIpa = ''out/build.ipa''"
  "dirname ''out/build.ipa'' = ''out''"
  "dirname ''./out/build.ipa'' = ''./out''"
  by code_simp+

lemma latestAdHoc_resolved:
  "resolveArtifact ''latest'' latestAdHoc (exampleWorld (exampleApi stream8) (exampleFirebase []))
     = ([Search \<lparr>appId = ''App'', limit = Some 1, version = None, buildNumber = None,
                  artifactType = Some ''ad_hoc''\<rparr>], Ok adHoc8)"
  by code_simp

lemma latestAdHoc_path:
  "outputPathFor (opt_output latestAdHoc) adHoc8 = ''downloads/App 1.2.3 ad-hoc.ipa''"
  "dirname ''downloads/App 1.2.3 ad-hoc.ipa'' = ''downloads''"
  "mkdir (exampleWorld (exampleApi stream8) (exampleFirebase [])) ''downloads'' = None"
  by code_simp+

text \<open>
  Claim C9, as the code has it. The output path is the destination itself when the
  destination ends with the artifact's file name; otherwise it is \<open>path.join\<close> of the
  destination and the file name, which is the destination, a slash and the file name
  when the destination is made of plain segments, and their normal form in general. The
  command creates the directory of the output path, with \<open>recursive\<close> set, before it
  downloads; creating it again changes nothing. The destination \<open>./out\<close> with the file
  name \<open>build.ipa\<close> gives \<open>out/build.ipa\<close>, the normal form of \<open>./out/build.ipa\<close>, and the
  destination \<open>./out/build.ipa\<close> is used as it is.
\<close>

theorem output_path:
  "outputPathFor output artifact =
     (if endsWith output (fileName artifact) then output else join output (fileName artifact))
   \<and> (segs \<noteq> [] \<and> (\<forall>s\<in>set segs. plainSegment s) \<and> plainSegment (fileName artifact) \<and>
      \<not> endsWith (joinWith ''/'' segs) (fileName artifact) \<longrightarrow>
        outputPathFor (joinWith ''/'' segs) artifact = joinWith ''/'' segs @ ''/'' @ fileName artifact \<and>
        outputPathFor (''/'' @ joinWith ''/'' segs) artifact
          = ''/'' @ joinWith ''/'' segs @ ''/'' @ fileName artifact)
   \<and> (resolveArtifact versionOrId options world = (events, Ok artifact) \<longrightarrow>
        fst (executeDownload versionOrId options world) =
          events @ Mkdir (dirname (outputPathFor (opt_output options) artifact)) #
            (if mkdir world (dirname (outputPathFor (opt_output options) artifact)) = None
             then [Download artifact (outputPathFor (opt_output options) artifact)] else []))
   \<and> mkdirRecursive (mkdirRecursive dirs d) d = mkdirRecursive dirs d
   \<and> outputPathFor ''./out'' buildIpa = ''out/build.ipa''
   \<and> outputPathFor ''./out/build.ipa'' buildIpa = ''./out/build.ipa''"
proof -
  have plain: "outputPathFor (joinWith ''/'' segs) artifact = joinWith ''/'' segs @ ''/'' @ fileName artifact \<and>
        outputPathFor (''/'' @ joinWith ''/'' segs) artifact
          = ''/'' @ joinWith ''/'' segs @ ''/'' @ fileName artifact"
    if a: "segs \<noteq> [] \<and> (\<forall>s\<in>set segs. plainSegment s) \<and> plainSegment (fileName artifact) \<and>
      \<not> endsWith (joinWith ''/'' segs) (fileName artifact)"
  proof -
    from a have 1: "segs \<noteq> []" and 2: "\<forall>s\<in>set segs. plainSegment s"
      and 3: "plainSegment (fileName artifact)"
      and 4: "\<not> endsWith (joinWith ''/'' segs) (fileName artifact)" by blast+
    have 5: "\<not> endsWith (''/'' @ joinWith ''/'' segs) (fileName artifact)"
    proof
      assume e: "endsWith (''/'' @ joinWith ''/'' segs) (fileName artifact)"
      have sw: "startsWith (x @ [c]) p \<Longrightarrow> c \<notin> set p \<Longrightarrow> startsWith x p" for x p and c :: char
        by (induction x p rule: startsWith.induct) auto
      have "CHR ''/'' \<notin> set (rev (fileName artifact))" using 3 by (simp add: plainSegment_def)
      with e sw [of "rev (joinWith ''/'' segs)" "CHR ''/''" "rev (fileName artifact)"]
      have "endsWith (joinWith ''/'' segs) (fileName artifact)" by (simp add: endsWith_def)
      with 4 show False by blast
    qed
    show ?thesis using join_plain [OF 1 2 3] 4 5 by (simp add: outputPathFor_def)
  qed
  have ev: "fst (executeDownload versionOrId options world) =
          events @ Mkdir (dirname (outputPathFor (opt_output options) artifact)) #
            (if mkdir world (dirname (outputPathFor (opt_output options) artifact)) = None
             then [Download artifact (outputPathFor (opt_output options) artifact)] else [])"
    if "resolveArtifact versionOrId options world = (events, Ok artifact)"
    using executeDownload_events [OF that] .
  have d: "outputPathFor output artifact =
     (if endsWith output (fileName artifact) then output else join output (fileName artifact))"
    by (simp add: outputPathFor_def)
  from plain have plain': "segs \<noteq> [] \<and> (\<forall>s\<in>set segs. plainSegment s) \<and>
      plainSegment (fileName artifact) \<and>
      \<not> endsWith (joinWith ''/'' segs) (fileName artifact) \<longrightarrow>
        outputPathFor (joinWith ''/'' segs) artifact = joinWith ''/'' segs @ ''/'' @ fileName artifact \<and>
        outputPathFor (''/'' @ joinWith ''/'' segs) artifact
          = ''/'' @ joinWith ''/'' segs @ ''/'' @ fileName artifact"
    by blast
  from ev have ev': "resolveArtifact versionOrId options world = (events, Ok artifact) \<longrightarrow>
        fst (executeDownload versionOrId options world) =
          events @ Mkdir (dirname (outputPathFor (opt_output options) artifact)) #
            (if mkdir world (dirname (outputPathFor (opt_output options) artifact)) = None
             then [Download artifact (outputPathFor (opt_output options) artifact)] else [])"
    by blast
  from d plain' ev' mkdirRecursive_idem [of dirs d] output_examples(1,2) show ?thesis
    by (intro conjI)
qed

theorem output_path_witness:
  "outputPathFor ''out'' buildIpa = ''out/build.ipa'' \<and>
   outputPathFor ''/tmp/out'' buildIpa = ''/tmp/out/build.ipa'' \<and>
   fst (executeDownload ''latest'' latestAdHoc (exampleWorld (exampleApi stream8) (exampleFirebase [])))
     = [Search \<lparr>appId = ''App'', limit = Some 1, version = None, buildNumber = None,
                 artifactType = Some ''ad_hoc''\<rparr>,
        Mkdir ''downloads'',
        Download adHoc8 ''downloads/App 1.2.3 ad-hoc.ipa'']"
proof -
  have p: "[''out''] \<noteq> [] \<and> (\<forall>s\<in>set [''out'']. plainSegment s) \<and> plainSegment (fileName buildIpa) \<and>
      \<not> endsWith (joinWith ''/'' [''out'']) (fileName buildIpa)"
    by (simp add: plainSegment_def buildIpa_def endsWith_def)
  have q: "[''tmp'', ''out''] \<noteq> [] \<and> (\<forall>s\<in>set [''tmp'', ''out'']. plainSegment s) \<and> plainSegment (fileName buildIpa) \<and>
      \<not> endsWith (joinWith ''/'' [''tmp'', ''out'']) (fileName buildIpa)"
    by (simp add: plainSegment_def buildIpa_def endsWith_def)
  have 1: "outputPathFor (joinWith ''/'' [''out'']) buildIpa
             = joinWith ''/'' [''out''] @ ''/'' @ fileName buildIpa"
    using output_path [where artifact = buildIpa and segs = "[''out'']"] p by blast
  have 2: "outputPathFor (''/'' @ joinWith ''/'' [''tmp'', ''out'']) buildIpa
             = ''/'' @ joinWith ''/'' [''tmp'', ''out''] @ ''/'' @ fileName buildIpa"
    using output_path [where artifact = buildIpa and segs = "[''tmp'', ''out'']"] q by blast
  have 3: "fst (executeDownload ''latest'' latestAdHoc
                 (exampleWorld (exampleApi stream8) (exampleFirebase []))) =
          [Search \<lparr>appId = ''App'', limit = Some 1, version = None,
                      buildNumber = None, artifactType = Some ''ad_hoc''\<rparr>] @
          Mkdir (dirname (outputPathFor (opt_output latestAdHoc) adHoc8)) #
            (if mkdir (exampleWorld (exampleApi stream8) (exampleFirebase []))
                  (dirname (outputPathFor (opt_output latestAdHoc) adHoc8)) = None
             then [Download adHoc8 (outputPathFor (opt_output latestAdHoc) adHoc8)] else [])"
    using output_path [where artifact = adHoc8 and versionOrId = "''latest''"
        and options = latestAdHoc
        and world = "exampleWorld (exampleApi stream8) (exampleFirebase [])"
        and events = "[Search \<lparr>appId = ''App'', limit = Some 1, version = None,
                        buildNumber = None, artifactType = Some ''ad_hoc''\<rparr>]"]
      latestAdHoc_resolved by blast
  have 4: "fileName buildIpa = ''build.ipa''" by (simp add: buildIpa_def)
  from 1 2 3 show ?thesis by (simp add: latestAdHoc_path 4)
qed

theorem output_path_counterexample:
  "outputPathFor ''./out'' buildIpa = ''out/build.ipa'' \<and>
   outputPathFor ''./out'' buildIpa \<noteq> ''./out/build.ipa''"
  by code_simp


section \<open>Properties of the resolution\<close>

subsection \<open>One artifact for each type, the first seen\<close>

lemma groupByType_append:
  "\<exists>ys. groupByType xs m = m @ ys \<and> subseq (map snd ys) xs \<and>
        (\<forall>(k, a)\<in>set ys. k \<notin> fst ` set m \<and> find (\<lambda>x. Artifact.artifactType x = k) xs = Some a) \<and>
        distinct (map fst ys) \<and>
        fst ` set ys = Artifact.artifactType ` set xs - fst ` set m"
proof (induction xs arbitrary: m)
  case Nil
  show ?case by simp
next
  case (Cons x xs)
  let ?t = "Artifact.artifactType x"
  show ?case
  proof (cases "?t \<in> fst ` set m")
    case True
    from Cons.IH [of m] obtain ys where ys: "groupByType xs m = m @ ys" "subseq (map snd ys) xs"
      "\<forall>(k, a)\<in>set ys. k \<notin> fst ` set m \<and> find (\<lambda>x. Artifact.artifactType x = k) xs = Some a"
      "distinct (map fst ys)" "fst ` set ys = Artifact.artifactType ` set xs - fst ` set m"
      by blast
    have "groupByType (x # xs) m = m @ ys" using True ys(1) by simp
    moreover have "subseq (map snd ys) (x # xs)" using ys(2) by (simp add: list_emb_Cons)
    moreover have "\<forall>(k, a)\<in>set ys. k \<notin> fst ` set m \<and>
        find (\<lambda>x. Artifact.artifactType x = k) (x # xs) = Some a"
    proof (clarify, intro conjI)
      fix k a assume ka: "(k, a) \<in> set ys"
      with ys(3) have k: "k \<notin> fst ` set m" and f: "find (\<lambda>x. Artifact.artifactType x = k) xs = Some a"
        by blast+
      from k show "k \<notin> fst ` set m" .
      from k True have "?t \<noteq> k" by blast
      with f show "find (\<lambda>x. Artifact.artifactType x = k) (x # xs) = Some a" by simp
    qed
    moreover have "fst ` set ys = Artifact.artifactType ` set (x # xs) - fst ` set m"
      using ys(5) True by auto
    ultimately show ?thesis using ys(4) by blast
  next
    case False
    let ?m = "m @ [(?t, x)]"
    from Cons.IH [of ?m] obtain ys where ys: "groupByType xs ?m = ?m @ ys" "subseq (map snd ys) xs"
      "\<forall>(k, a)\<in>set ys. k \<notin> fst ` set ?m \<and> find (\<lambda>x. Artifact.artifactType x = k) xs = Some a"
      "distinct (map fst ys)" "fst ` set ys = Artifact.artifactType ` set xs - fst ` set ?m"
      by blast
    let ?ys = "(?t, x) # ys"
    have "groupByType (x # xs) m = m @ ?ys" using False ys(1) by simp
    moreover have "subseq (map snd ?ys) (x # xs)" using ys(2) by simp
    moreover have "\<forall>(k, a)\<in>set ?ys. k \<notin> fst ` set m \<and>
        find (\<lambda>x. Artifact.artifactType x = k) (x # xs) = Some a"
    proof (clarify, intro conjI)
      fix k a assume ka: "(k, a) \<in> set ?ys"
      show "k \<notin> fst ` set m"
      proof (cases "(k, a) = (?t, x)")
        case True
        with False show ?thesis by simp
      next
        case False
        with ka ys(3) show ?thesis by auto
      qed
      show "find (\<lambda>x. Artifact.artifactType x = k) (x # xs) = Some a"
      proof (cases "(k, a) = (?t, x)")
        case True
        then show ?thesis by simp
      next
        case False
        with ka have in_ys: "(k, a) \<in> set ys" by auto
        with ys(3) have k: "k \<notin> fst ` set ?m" and f: "find (\<lambda>x. Artifact.artifactType x = k) xs = Some a"
          by blast+
        from k have "?t \<noteq> k" by auto
        with f show ?thesis by simp
      qed
    qed
    moreover have "distinct (map fst ?ys)" using ys(3,4) by force
    moreover have "fst ` set ?ys = Artifact.artifactType ` set (x # xs) - fst ` set m"
      using ys(5) False by auto
    ultimately show ?thesis by blast
  qed
qed

lemma groupByType_first_seen:
  "distinct (map fst (groupByType xs []))"
  "\<forall>(k, a)\<in>set (groupByType xs []). find (\<lambda>x. Artifact.artifactType x = k) xs = Some a"
  "fst ` set (groupByType xs []) = Artifact.artifactType ` set xs"
  "subseq (map snd (groupByType xs [])) xs"
  using groupByType_append [of xs "[]"] by auto

lemma groupByType_hd:
  "xs \<noteq> [] \<Longrightarrow> hd (groupByType xs []) = (Artifact.artifactType (hd xs), hd xs)"
proof (cases xs)
  case Nil
  then show "xs \<noteq> [] \<Longrightarrow> ?thesis" by simp
next
  case (Cons x ys)
  obtain zs where "groupByType ys [(Artifact.artifactType x, x)] = [(Artifact.artifactType x, x)] @ zs"
    using groupByType_append [of ys "[(Artifact.artifactType x, x)]"] by blast
  with Cons show ?thesis by simp
qed

lemma groupByType_empty: "groupByType xs [] = [] \<longleftrightarrow> xs = []"
  using groupByType_first_seen(3) [of xs] by (cases xs) (auto simp del: groupByType.simps)

subsection \<open>The latest artifact\<close>

lemma resolve_latest_asc:
  assumes "isLatest versionOrId" "\<not> truthy (opt_artifactType options)"
    and "opt_from options = ''app-store-connect''"
    and "validateAppStoreConnectConfig (config world)"
    and "search (newAppStoreConnectProvider world) (latest10 options) = Inr allArtifacts"
  shows "resolveArtifact versionOrId options world =
     (if allArtifacts = [] then ([Search (latest10 options)], Exit1 ''No artifacts found'')
      else if length (groupByType allArtifacts []) = 1
        then ([Search (latest10 options)], Ok (hd allArtifacts))
      else
        (case prompt world (map choiceOf (groupByType allArtifacts [])) of
           Inl error \<Rightarrow>
             ([Search (latest10 options), Prompt (map choiceOf (groupByType allArtifacts []))],
              Failed error)
         | Inr selectedArtifact \<Rightarrow>
             ([Search (latest10 options), Prompt (map choiceOf (groupByType allArtifacts []))],
              Ok selectedArtifact)))"
proof -
  have p: "initializeProvider ''app-store-connect'' world = Inr (newAppStoreConnectProvider world)"
    using assms(4) by (simp add: initializeProvider_def)
  have s: "search (newAppStoreConnectProvider world)
             \<lparr>appId = opt_appId options, limit = Some 10, version = None,
                buildNumber = None, artifactType = None\<rparr> = Inr allArtifacts"
    using assms(5) by (simp add: latest10_def)
  show ?thesis
  proof (cases "allArtifacts = []")
    case True
    then show ?thesis
      using assms(1,2,3) by (simp add: resolveArtifact_def p s Let_def latest10_def)
  next
    case False
    then have h: "snd (hd (groupByType allArtifacts [])) = hd allArtifacts"
      by (simp add: groupByType_hd)
    show ?thesis
    proof (cases "length (groupByType allArtifacts []) = 1")
      case True
      with False h show ?thesis
        using assms(1,2,3) by (simp add: resolveArtifact_def p s Let_def latest10_def)
    next
      case n1: False
      show ?thesis
      proof (cases "prompt world (map choiceOf (groupByType allArtifacts []))")
        case (Inl e)
        with False n1 show ?thesis
          using assms(1,2,3) by (simp add: resolveArtifact_def p s Let_def latest10_def)
      next
        case (Inr sel)
        with False n1 show ?thesis
          using assms(1,2,3) by (simp add: resolveArtifact_def p s Let_def latest10_def)
      qed
    qed
  qed
qed

lemma resolve_latest_other:
  assumes "isLatest versionOrId" "\<not> truthy (opt_artifactType options)"
    and "opt_from options \<noteq> ''app-store-connect''"
    and "validateFirebaseConfig (config world)"
    and "search (newFirebaseAppDistributionProvider world) (latest1 options) = Inr found"
  shows "resolveArtifact versionOrId options world =
     ([Search (latest1 options)],
      if found = [] then Exit1 ''No artifacts found'' else Ok (hd found))"
proof -
  have p: "initializeProvider (opt_from options) world = Inr (newFirebaseAppDistributionProvider world)"
    using assms(3,4) by (simp add: initializeProvider_def)
  have s: "search (newFirebaseAppDistributionProvider world)
             \<lparr>appId = opt_appId options, limit = Some 1, version = None,
                buildNumber = None, artifactType = opt_artifactType options\<rparr> = Inr found"
    using assms(5) by (simp add: latest1_def)
  show ?thesis
    using assms(1,3) by (simp add: resolveArtifact_def p s Let_def latest1_def)
qed

lemma example_latest:
  "isLatest ''latest''"
  "\<not> truthy (opt_artifactType latestAny)"
  "opt_from latestAny = ''app-store-connect''"
  "validateAppStoreConnectConfig (config (exampleWorld (exampleApi stream8) (exampleFirebase releases3)))"
  "search (newAppStoreConnectProvider (exampleWorld (exampleApi stream8) (exampleFirebase releases3)))
     (latest10 latestAny) = Inr all8"
  "groupByType all8 [] = [(''ad_hoc'', adHoc8), (''logs'', logs6), (''development'', development5)]"
  "prompt (exampleWorld (exampleApi stream8) (exampleFirebase releases3))
     (map choiceOf [(''ad_hoc'', adHoc8), (''logs'', logs6), (''development'', development5)])
     = Inr development5"
  by code_simp+

lemma example_latest_firebase:
  "\<not> truthy (opt_artifactType latestFirebase)"
  "opt_from latestFirebase \<noteq> ''app-store-connect''"
  "validateFirebaseConfig (config (exampleWorld (exampleApi stream8) (exampleFirebase releases3)))"
  "search (newFirebaseAppDistributionProvider
            (exampleWorld (exampleApi stream8) (exampleFirebase releases3)))
     (latest1 latestFirebase) = Inr [release3]"
  by code_simp+

text \<open>
  Claim C1, as the code has it. For a download of \<open>latest\<close> with no artifact type: from
  App Store Connect the resolver searches once with limit 10 and keeps one artifact for
  each type, the first seen in the order of the search (the keys are distinct, each is
  mapped to the first artifact of its type, every type has a key, and the entries are in
  the order of the search); with no artifact it ends as not found, with one type it
  resolves to that artifact, the newest, and does not prompt, and with more types it
  prompts once with these entries and resolves to the chooser's selection. From the
  other provider it searches once with limit 1 and resolves to the first artifact, or
  ends as not found; it does not prompt.
\<close>

theorem latest_resolution:
  "isLatest versionOrId \<and> \<not> truthy (opt_artifactType options) \<longrightarrow>
   (opt_from options = ''app-store-connect'' \<and>
    validateAppStoreConnectConfig (config world) \<and>
    search (newAppStoreConnectProvider world) (latest10 options) = Inr allArtifacts \<longrightarrow>
      distinct (map fst (groupByType allArtifacts [])) \<and>
      (\<forall>(k, a)\<in>set (groupByType allArtifacts []).
          find (\<lambda>x. Artifact.artifactType x = k) allArtifacts = Some a) \<and>
      fst ` set (groupByType allArtifacts []) = Artifact.artifactType ` set allArtifacts \<and>
      subseq (map snd (groupByType allArtifacts [])) allArtifacts \<and>
      (allArtifacts = [] \<longrightarrow>
         resolveArtifact versionOrId options world =
           ([Search (latest10 options)], Exit1 ''No artifacts found'')) \<and>
      (length (groupByType allArtifacts []) = 1 \<longrightarrow>
         resolveArtifact versionOrId options world =
           ([Search (latest10 options)], Ok (hd allArtifacts))) \<and>
      (length (groupByType allArtifacts []) > 1 \<longrightarrow>
         (\<forall>selected. prompt world (map choiceOf (groupByType allArtifacts [])) = Inr selected \<longrightarrow>
            resolveArtifact versionOrId options world =
              ([Search (latest10 options),
                Prompt (map choiceOf (groupByType allArtifacts []))], Ok selected))))
   \<and>
   (opt_from options \<noteq> ''app-store-connect'' \<and>
    validateFirebaseConfig (config world) \<and>
    search (newFirebaseAppDistributionProvider world) (latest1 options) = Inr found \<longrightarrow>
      resolveArtifact versionOrId options world =
        ([Search (latest1 options)],
         if found = [] then Exit1 ''No artifacts found'' else Ok (hd found)))"
proof (intro impI conjI allI; (elim conjE)?)
  assume "isLatest versionOrId" "\<not> truthy (opt_artifactType options)"
    "opt_from options \<noteq> ''app-store-connect''" "validateFirebaseConfig (config world)"
    "search (newFirebaseAppDistributionProvider world) (latest1 options) = Inr found"
  then show "resolveArtifact versionOrId options world =
        ([Search (latest1 options)],
         if found = [] then Exit1 ''No artifacts found'' else Ok (hd found))"
    by (rule resolve_latest_other)
next
  show "distinct (map fst (groupByType allArtifacts []))"
    by (rule groupByType_first_seen)
next
  show "\<forall>(k, a)\<in>set (groupByType allArtifacts []).
          find (\<lambda>x. Artifact.artifactType x = k) allArtifacts = Some a"
    by (rule groupByType_first_seen)
next
  show "fst ` set (groupByType allArtifacts []) = Artifact.artifactType ` set allArtifacts"
    by (rule groupByType_first_seen)
next
  show "subseq (map snd (groupByType allArtifacts [])) allArtifacts"
    by (rule groupByType_first_seen)
next
  assume a: "isLatest versionOrId" "\<not> truthy (opt_artifactType options)"
    "opt_from options = ''app-store-connect''" "validateAppStoreConnectConfig (config world)"
    "search (newAppStoreConnectProvider world) (latest10 options) = Inr allArtifacts"
    and e: "allArtifacts = []"
  show "resolveArtifact versionOrId options world =
           ([Search (latest10 options)], Exit1 ''No artifacts found'')"
    using resolve_latest_asc [OF a] e by simp
next
  assume a: "isLatest versionOrId" "\<not> truthy (opt_artifactType options)"
    "opt_from options = ''app-store-connect''" "validateAppStoreConnectConfig (config world)"
    "search (newAppStoreConnectProvider world) (latest10 options) = Inr allArtifacts"
    and e: "length (groupByType allArtifacts []) = 1"
  from e have "allArtifacts \<noteq> []" by auto
  then show "resolveArtifact versionOrId options world =
           ([Search (latest10 options)], Ok (hd allArtifacts))"
    using resolve_latest_asc [OF a] e by simp
next
  fix selected
  assume a: "isLatest versionOrId" "\<not> truthy (opt_artifactType options)"
    "opt_from options = ''app-store-connect''" "validateAppStoreConnectConfig (config world)"
    "search (newAppStoreConnectProvider world) (latest10 options) = Inr allArtifacts"
    and e: "length (groupByType allArtifacts []) > 1"
    and s: "prompt world (map choiceOf (groupByType allArtifacts [])) = Inr selected"
  from e have "allArtifacts \<noteq> []" by auto
  then show "resolveArtifact versionOrId options world =
              ([Search (latest10 options),
                Prompt (map choiceOf (groupByType allArtifacts []))], Ok selected)"
    using resolve_latest_asc [OF a] e s by simp
qed

theorem latest_resolution_witness:
  "resolveArtifact ''latest'' latestAny
      (exampleWorld (exampleApi stream8) (exampleFirebase releases3))
     = ([Search (latest10 latestAny),
         Prompt (map choiceOf [(''ad_hoc'', adHoc8), (''logs'', logs6),
                                (''development'', development5)])],
        Ok development5)
   \<and>
   resolveArtifact ''latest'' latestFirebase
      (exampleWorld (exampleApi stream8) (exampleFirebase releases3))
     = ([Search (latest1 latestFirebase)], Ok release3)"
proof -
  let ?w = "exampleWorld (exampleApi stream8) (exampleFirebase releases3)"
  have 1: "resolveArtifact ''latest'' latestAny ?w =
      ([Search (latest10 latestAny), Prompt (map choiceOf (groupByType all8 []))], Ok development5)"
    using latest_resolution [where versionOrId = "''latest''" and options = latestAny
        and world = ?w and allArtifacts = all8] example_latest
    by simp
  have 2: "resolveArtifact ''latest'' latestFirebase ?w =
      ([Search (latest1 latestFirebase)], if [release3] = [] then Exit1 ''No artifacts found''
         else Ok (hd [release3]))"
    using latest_resolution [where versionOrId = "''latest''" and options = latestFirebase
        and world = ?w and found = "[release3]"] example_latest(1) example_latest_firebase
    by blast
  from 1 2 show ?thesis by (simp add: example_latest(6))
qed

theorem latest_resolution_counterexample:
  "fst (resolveArtifact ''latest'' latestFirebase
          (exampleWorld (exampleApi stream8) (exampleFirebase releases3)))
     = [Search \<lparr>appId = ''com.example.app'', limit = Some 1, version = None,
                 buildNumber = None, artifactType = None\<rparr>]
   \<and>
   fst (resolveArtifact ''latest'' latestFirebase
          (exampleWorld (exampleApi stream8) (exampleFirebase releases3)))
     \<noteq> [Search \<lparr>appId = ''com.example.app'', limit = Some 10, version = None,
                 buildNumber = None, artifactType = None\<rparr>]"
  by code_simp


section \<open>Properties of the limit\<close>

subsection \<open>At most the limit is returned\<close>

lemma slice0_all: "int (length xs) = L \<Longrightarrow> slice0 xs L = xs"
  by (auto simp: slice0_def)

lemma artifactLoop_within:
  "int (length acc) < limitOr3 options \<Longrightarrow>
     within (limitOr3 options) (artifactLoop options run as acc)"
proof (induction as arbitrary: acc)
  case Nil
  then show ?case by simp
next
  case (Cons a as)
  show ?case
  proof (cases "passesTypeFilter options (artifactTypeOf (ci_fileName a))")
    case False
    with Cons show ?thesis by simp
  next
    case True
    let ?acc = "acc @ [newArtifact options run a]"
    show ?thesis
    proof (cases "limitOr3 options \<le> int (length ?acc)")
      case le: True
      with Cons.prems have "int (length ?acc) = limitOr3 options" by simp
      then have "slice0 ?acc (limitOr3 options) = ?acc" "int (length ?acc) = limitOr3 options"
        by (simp_all add: slice0_all)
      with True le show ?thesis by (simp add: Let_def)
    next
      case False
      then have "int (length ?acc) < limitOr3 options" by simp
      from Cons.IH [OF this] True False show ?thesis by (simp add: Let_def)
    qed
  qed
qed

lemma actionLoop_within:
  assumes "int (length acc) < limitOr3 options"
    and "actionLoop api options run acts acc log = (log', Inr lp)"
  shows "within (limitOr3 options) lp"
  using assms
proof (induction acts arbitrary: acc log)
  case Nil
  then show ?case by auto
next
  case (Cons act acts)
  obtain l1 res where r: "AppStoreConnectProvider_request api (Artifacts (action_id act))
      (getArtifacts api (action_id act)) log = (l1, res)"
    by (cases "AppStoreConnectProvider_request api (Artifacts (action_id act))
      (getArtifacts api (action_id act)) log")
  show ?case
  proof (cases res)
    case (Inl e)
    with r Cons.prems(2) show ?thesis by simp
  next
    case (Inr arts)
    have w: "within (limitOr3 options) (artifactLoop options run arts acc)"
      using artifactLoop_within [OF Cons.prems(1)] .
    show ?thesis
    proof (cases "artifactLoop options run arts acc")
      case (Continue acc')
      with w have "int (length acc') < limitOr3 options" by simp
      moreover have "actionLoop api options run acts acc' l1 = (log', Inr lp)"
        using Cons.prems(2) r Inr Continue by simp
      ultimately show ?thesis using Cons.IH by blast
    next
      case (Return result)
      then have "lp = Return result" using Cons.prems(2) r Inr by simp
      with w Return show ?thesis by simp
    qed
  qed
qed

lemma buildRunLoop_within:
  assumes "int (length acc) < limitOr3 options"
    and "buildRunLoop api options runs acc log = (log', Inr lp)"
  shows "within (limitOr3 options) lp"
  using assms
proof (induction runs arbitrary: acc log)
  case Nil
  then show ?case by auto
next
  case (Cons run runs)
  show ?case
  proof (cases "truthy (SearchOptions.buildNumber options) \<and>
         toString (run_number run) \<noteq> the (SearchOptions.buildNumber options)")
    case True
    with Cons.prems(2) have "buildRunLoop api options runs acc log = (log', Inr lp)" by simp
    with Cons.IH Cons.prems(1) show ?thesis by blast
  next
    case False
    obtain l1 res where r: "AppStoreConnectProvider_request api (Actions (run_id run))
        (getActions api (run_id run)) log = (l1, res)"
      by (cases "AppStoreConnectProvider_request api (Actions (run_id run)) (getActions api (run_id run)) log")
    show ?thesis
    proof (cases res)
      case (Inl e)
      with False r Cons.prems(2) show ?thesis by auto
    next
      case (Inr acts)
      let ?arch = "filter (\<lambda>action. action_actionType action = ''ARCHIVE'') acts"
      obtain l2 res2 where r2: "actionLoop api options run ?arch acc l1 = (l2, res2)"
        by (cases "actionLoop api options run ?arch acc l1")
      show ?thesis
      proof (cases res2)
        case (Inl e)
        with False r Inr r2 Cons.prems(2) show ?thesis by auto
      next
        case (Inr lp2)
        have w: "within (limitOr3 options) lp2"
          using actionLoop_within [OF Cons.prems(1)] r2 Inr by blast
        show ?thesis
        proof (cases lp2)
          case (Continue acc')
          with w have "int (length acc') < limitOr3 options" by simp
          moreover have "buildRunLoop api options runs acc' l2 = (log', Inr lp)"
            using Cons.prems(2) False r \<open>res = Inr acts\<close> r2 Inr Continue by auto
          ultimately show ?thesis using Cons.IH by blast
        next
          case (Return result)
          then have "lp = Return result"
            using Cons.prems(2) False r \<open>res = Inr acts\<close> r2 Inr by auto
          with w Return show ?thesis by simp
        qed
      qed
    qed
  qed
qed

lemma AppStoreConnectProvider_search_length:
  assumes "1 \<le> limitOr3 options"
    and "snd (AppStoreConnectProvider_search api options) = Inr found"
  shows "int (length found) \<le> limitOr3 options"
proof -
  have loop: "buildRunLoop api options runs [] log = (log', Inr lp)
      \<Longrightarrow> int (length (carried lp)) \<le> limitOr3 options" for runs log log' lp
    using buildRunLoop_within [of "[]" options api runs log log' lp] assms(1)
    by (cases lp) auto
  from assms(2) show ?thesis
    unfolding AppStoreConnectProvider_search_def
    by (auto simp: Let_def split: prod.splits sum.splits option.splits loop.splits dest!: loop)
qed

lemma length_slice0: "0 \<le> L \<Longrightarrow> int (length (slice0 xs L)) \<le> L"
  by (auto simp: slice0_def)

lemma FirebaseAppDistributionProvider_search_length:
  assumes "1 \<le> limitOr3 options"
    and "snd (FirebaseAppDistributionProvider_search api options) = Inr found"
  shows "int (length found) \<le> limitOr3 options"
proof -
  have "0 \<le> limitOr3 options" using assms(1) by simp
  note l = length_slice0 [OF this]
  from assms(2) show ?thesis
    unfolding FirebaseAppDistributionProvider_search_def
    by (auto simp: Let_def l split: prod.splits sum.splits option.splits if_splits)
qed


subsection \<open>An artifact by its id\<close>

lemma resolve_by_id:
  assumes "\<not> isLatest versionOrId" "isUuid versionOrId \<or> isFirebaseId versionOrId"
    and "initializeProvider (opt_from options) world = Inr p"
    and "search p (byId options) = Inr found"
  shows "resolveArtifact versionOrId options world =
     ([Search (byId options)],
      case find (\<lambda>a. Artifact.id a = versionOrId) found of
        None \<Rightarrow> Exit1 ''Artifact not found''
      | Some artifact \<Rightarrow> Ok artifact)"
proof -
  have s: "search p \<lparr>appId = opt_appId options, limit = Some 50, version = None,
                      buildNumber = None, artifactType = None\<rparr> = Inr found"
    using assms(4) by (simp add: byId_def)
  show ?thesis
    using assms(1,2)
    by (auto simp: resolveArtifact_def assms(3) s Let_def byId_def split: option.splits)
qed

lemma find_None_ids: "find (\<lambda>a. Artifact.id a = v) found = None \<longleftrightarrow> v \<notin> Artifact.id ` set found"
  by (auto simp: find_None_iff)

lemma example_by_id:
  "\<not> isLatest ''rel0000000010''"
  "isFirebaseId ''rel0000000010''"
  "''rel0000000010'' \<in> set (map (\<lambda>(v, b, i). i) releases60)"
  by code_simp+

lemma example_by_id_provider:
  "initializeProvider (opt_from latestFirebase)
     (exampleWorld (exampleApi stream8) (exampleFirebase releases60))
   = Inr (newFirebaseAppDistributionProvider
            (exampleWorld (exampleApi stream8) (exampleFirebase releases60)))"
  by (simp add: initializeProvider_def latestFirebase_def exampleWorld_def
      validateFirebaseConfig_def exampleConfig_def)

lemma example_by_id_search:
  "map Artifact.id (projr (search (newFirebaseAppDistributionProvider
            (exampleWorld (exampleApi stream8) (exampleFirebase releases60)))
          (byId latestFirebase)))
     = map (\<lambda>(v, b, i). i) (take 50 releases60)"
  by code_simp

lemma example_by_id_resolved:
  "resolveArtifact ''rel0000000010'' latestFirebase
      (exampleWorld (exampleApi stream8) (exampleFirebase releases60))
     = ([Search (byId latestFirebase)], Exit1 ''Artifact not found'')"
  by code_simp

lemma limitOr3_byId [simp]: "limitOr3 (byId options) = 50"
  by (simp add: limitOr3_def byId_def)

lemma example_by_id_found:
  "\<not> isl (search (newFirebaseAppDistributionProvider
            (exampleWorld (exampleApi stream8) (exampleFirebase releases60)))
          (byId latestFirebase))"
  "''rel0000000010'' \<notin> set (map (\<lambda>(v, b, i). i) (take 50 releases60))"
  "\<not> isLatest ''rel0000000011''"
  "isFirebaseId ''rel0000000011''"
  "find (\<lambda>a. Artifact.id a = ''rel0000000011'')
     (projr (search (newFirebaseAppDistributionProvider
            (exampleWorld (exampleApi stream8) (exampleFirebase releases60)))
          (byId latestFirebase))) = Some release11"
  by code_simp+

text \<open>
  Claim C3. For a download by artifact id the resolver searches once, with limit 50,
  and takes the first artifact of the result whose id is the given one; it ends as not
  found exactly when no artifact of the result has that id. Either provider returns at
  most 50 artifacts for this search, so an id further back is not found: of sixty
  releases upstream, the id of the fifty-first is not found although it is there.
\<close>

theorem by_id_resolution:
  "(\<not> isLatest versionOrId \<and> (isUuid versionOrId \<or> isFirebaseId versionOrId) \<and>
    initializeProvider (opt_from options) world = Inr p \<and>
    search p (byId options) = Inr found \<longrightarrow>
      fst (resolveArtifact versionOrId options world) = [Search (byId options)] \<and>
      (snd (resolveArtifact versionOrId options world) = Exit1 ''Artifact not found''
         \<longleftrightarrow> versionOrId \<notin> Artifact.id ` set found) \<and>
      (\<forall>artifact. find (\<lambda>a. Artifact.id a = versionOrId) found = Some artifact \<longrightarrow>
         snd (resolveArtifact versionOrId options world) = Ok artifact))
   \<and> (snd (AppStoreConnectProvider_search api (byId options)) = Inr fromAppStoreConnect \<longrightarrow>
        length fromAppStoreConnect \<le> 50)
   \<and> (snd (FirebaseAppDistributionProvider_search fb (byId options)) = Inr fromFirebase \<longrightarrow>
        length fromFirebase \<le> 50)
   \<and> ''rel0000000010'' \<in> set (map (\<lambda>(v, b, i). i) releases60)
   \<and> resolveArtifact ''rel0000000010'' latestFirebase
        (exampleWorld (exampleApi stream8) (exampleFirebase releases60))
      = ([Search (byId latestFirebase)], Exit1 ''Artifact not found'')"
proof -
  have r: "fst (resolveArtifact versionOrId options world) = [Search (byId options)] \<and>
      (snd (resolveArtifact versionOrId options world) = Exit1 ''Artifact not found''
         \<longleftrightarrow> versionOrId \<notin> Artifact.id ` set found) \<and>
      (\<forall>artifact. find (\<lambda>a. Artifact.id a = versionOrId) found = Some artifact \<longrightarrow>
         snd (resolveArtifact versionOrId options world) = Ok artifact)"
    if a: "\<not> isLatest versionOrId \<and> (isUuid versionOrId \<or> isFirebaseId versionOrId) \<and>
      initializeProvider (opt_from options) world = Inr p \<and>
      search p (byId options) = Inr found"
  proof -
    from a have eq: "resolveArtifact versionOrId options world =
       ([Search (byId options)],
        case find (\<lambda>a. Artifact.id a = versionOrId) found of
          None \<Rightarrow> Exit1 ''Artifact not found''
        | Some artifact \<Rightarrow> Ok artifact)"
      using resolve_by_id [of versionOrId options world p found] by blast
    show ?thesis
      using find_None_ids [of versionOrId found]
      by (cases "find (\<lambda>a. Artifact.id a = versionOrId) found") (simp_all add: eq)
  qed
  have a: "length fromAppStoreConnect \<le> 50"
    if "snd (AppStoreConnectProvider_search api (byId options)) = Inr fromAppStoreConnect"
    using AppStoreConnectProvider_search_length [OF _ that] by simp
  have f: "length fromFirebase \<le> 50"
    if "snd (FirebaseAppDistributionProvider_search fb (byId options)) = Inr fromFirebase"
    using FirebaseAppDistributionProvider_search_length [OF _ that] by simp
  from r a f example_by_id(3) example_by_id_resolved show ?thesis by blast
qed

theorem by_id_resolution_witness:
  "fst (resolveArtifact ''rel0000000010'' latestFirebase
         (exampleWorld (exampleApi stream8) (exampleFirebase releases60)))
     = [Search (byId latestFirebase)] \<and>
   snd (resolveArtifact ''rel0000000010'' latestFirebase
         (exampleWorld (exampleApi stream8) (exampleFirebase releases60)))
     = Exit1 ''Artifact not found'' \<and>
   snd (resolveArtifact ''rel0000000011'' latestFirebase
         (exampleWorld (exampleApi stream8) (exampleFirebase releases60)))
     = Ok release11"
proof -
  let ?w = "exampleWorld (exampleApi stream8) (exampleFirebase releases60)"
  let ?p = "newFirebaseAppDistributionProvider ?w"
  let ?found = "projr (search ?p (byId latestFirebase))"
  have s: "search ?p (byId latestFirebase) = Inr ?found"
    using example_by_id_found(1) by simp
  have n: "''rel0000000010'' \<notin> Artifact.id ` set ?found"
    using example_by_id_found(2) example_by_id_search by (metis set_map)
  from by_id_resolution [where versionOrId = "''rel0000000010''" and options = latestFirebase
      and world = ?w and p = ?p and found = ?found]
    example_by_id(1,2) example_by_id_provider s n
  have 1: "fst (resolveArtifact ''rel0000000010'' latestFirebase ?w) = [Search (byId latestFirebase)]"
    and 2: "snd (resolveArtifact ''rel0000000010'' latestFirebase ?w) = Exit1 ''Artifact not found''"
    by blast+
  from by_id_resolution [where versionOrId = "''rel0000000011''" and options = latestFirebase
      and world = ?w and p = ?p and found = ?found]
    example_by_id_found(3,4,5) example_by_id_provider s
  have 3: "snd (resolveArtifact ''rel0000000011'' latestFirebase ?w) = Ok release11"
    by blast
  from 1 2 3 show ?thesis by blast
qed


subsection \<open>What is requested upstream\<close>

lemma request_log:
  "AppStoreConnectProvider_request api r response log = (log', res) \<Longrightarrow>
     log' = log \<or> log' = log @ [r]"
  by (auto simp: AppStoreConnectProvider_request_def split: sum.splits)

lemma actionLoop_log:
  "actionLoop api options run acts acc log = (log', res) \<Longrightarrow>
     \<exists>more. log' = log @ more \<and> filter isBuildRuns more = []"
proof (induction acts arbitrary: acc log)
  case Nil
  then show ?case by simp
next
  case (Cons act acts)
  obtain l1 res1 where r: "AppStoreConnectProvider_request api (Artifacts (action_id act))
      (getArtifacts api (action_id act)) log = (l1, res1)"
    by (cases "AppStoreConnectProvider_request api (Artifacts (action_id act))
      (getArtifacts api (action_id act)) log")
  from request_log [OF r] obtain m1 where m1: "l1 = log @ m1" "filter isBuildRuns m1 = []"
    by (cases "l1 = log") auto
  show ?case
  proof (cases res1)
    case (Inl e)
    with r Cons.prems m1 show ?thesis by auto
  next
    case (Inr arts)
    show ?thesis
    proof (cases "artifactLoop options run arts acc")
      case (Continue acc')
      with r Inr Cons.prems have "actionLoop api options run acts acc' l1 = (log', res)" by simp
      from Cons.IH [OF this] obtain m2 where "log' = l1 @ m2" "filter isBuildRuns m2 = []" by blast
      with m1 have "log' = log @ (m1 @ m2) \<and> filter isBuildRuns (m1 @ m2) = []" by simp
      then show ?thesis by blast
    next
      case (Return result)
      with r Inr Cons.prems m1 show ?thesis by auto
    qed
  qed
qed

lemma buildRunLoop_log:
  "buildRunLoop api options runs acc log = (log', res) \<Longrightarrow>
     \<exists>more. log' = log @ more \<and> filter isBuildRuns more = []"
proof (induction runs arbitrary: acc log)
  case Nil
  then show ?case by simp
next
  case (Cons run runs)
  show ?case
  proof (cases "truthy (SearchOptions.buildNumber options) \<and>
         toString (run_number run) \<noteq> the (SearchOptions.buildNumber options)")
    case True
    with Cons.prems have "buildRunLoop api options runs acc log = (log', res)" by simp
    from Cons.IH [OF this] show ?thesis .
  next
    case False
    obtain l1 res1 where r: "AppStoreConnectProvider_request api (Actions (run_id run))
        (getActions api (run_id run)) log = (l1, res1)"
      by (cases "AppStoreConnectProvider_request api (Actions (run_id run)) (getActions api (run_id run)) log")
    from request_log [OF r] obtain m1 where m1: "l1 = log @ m1" "filter isBuildRuns m1 = []"
      by (cases "l1 = log") auto
    show ?thesis
    proof (cases res1)
      case (Inl e)
      with False r Cons.prems m1 show ?thesis by auto
    next
      case (Inr acts)
      let ?arch = "filter (\<lambda>action. action_actionType action = ''ARCHIVE'') acts"
      obtain l2 res2 where r2: "actionLoop api options run ?arch acc l1 = (l2, res2)"
        by (cases "actionLoop api options run ?arch acc l1")
      from actionLoop_log [OF r2] obtain m2 where m2: "l2 = l1 @ m2" "filter isBuildRuns m2 = []"
        by blast
      have m12: "l2 = log @ (m1 @ m2)" "filter isBuildRuns (m1 @ m2) = []"
        using m1 m2 by simp_all
      show ?thesis
      proof (cases res2)
        case (Inl e)
        with False r Inr r2 Cons.prems have "log' = l2" by auto
        with m12 show ?thesis by blast
      next
        case (Inr lp2)
        show ?thesis
        proof (cases lp2)
          case (Continue acc')
          with False r \<open>res1 = Inr acts\<close> r2 Inr Cons.prems
          have "buildRunLoop api options runs acc' l2 = (log', res)" by auto
          from Cons.IH [OF this] obtain m3 where "log' = l2 @ m3" "filter isBuildRuns m3 = []"
            by blast
          with m12 have "log' = log @ (m1 @ m2 @ m3) \<and> filter isBuildRuns (m1 @ m2 @ m3) = []"
            by simp
          then show ?thesis by blast
        next
          case (Return result)
          with False r \<open>res1 = Inr acts\<close> r2 Inr Cons.prems have "log' = l2" by auto
          with m12 show ?thesis by blast
        qed
      qed
    qed
  qed
qed

lemma request_ok:
  "generateToken api = Inr token \<Longrightarrow>
     AppStoreConnectProvider_request api r response log = (log @ [r], response)"
  by (auto simp: AppStoreConnectProvider_request_def split: sum.splits)

lemma search_requests_build_runs:
  assumes "generateToken api = Inr token"
    and "getCiProducts api = Inr (Some products)"
    and "find (\<lambda>p. product_name p = appId options) products = Some product"
  shows "filter isBuildRuns (fst (AppStoreConnectProvider_search api options)) =
           [BuildRuns (product_id product) (max (limitOr3 options * 3) 20)]"
proof -
  let ?n = "max (limitOr3 options * 3) 20"
  note ok = request_ok [OF assms(1)]
  show ?thesis
  proof (cases "getBuildRuns api (product_id product) ?n")
    case (Inl e)
    then show ?thesis
      using assms(2,3) by (simp add: AppStoreConnectProvider_search_def ok Let_def)
  next
    case (Inr runs)
    obtain l3 res3 where l: "buildRunLoop api options runs []
        [CiProducts, BuildRuns (product_id product) ?n] = (l3, res3)"
      by (cases "buildRunLoop api options runs [] [CiProducts, BuildRuns (product_id product) ?n]")
    from buildRunLoop_log [OF l] obtain more where
      m: "l3 = [CiProducts, BuildRuns (product_id product) ?n] @ more" "filter isBuildRuns more = []"
      by blast
    have "fst (AppStoreConnectProvider_search api options) = l3"
      using assms(2,3) Inr l
      by (auto simp: AppStoreConnectProvider_search_def ok Let_def split: sum.splits loop.splits)
    with m show ?thesis by simp
  qed
qed

lemma firebase_page_size:
  "Releases projectNumber app n \<in> set (fst (FirebaseAppDistributionProvider_search api options))
     \<Longrightarrow> n = 50"
  by (auto simp: FirebaseAppDistributionProvider_search_def findApp_def
      FirebaseAppDistributionProvider_request_def Let_def
      split: prod.splits sum.splits option.splits if_splits)

lemma firebase_requests_releases:
  "snd (FirebaseAppDistributionProvider_search api options) = Inr found \<Longrightarrow>
     \<exists>projectNumber app.
       filter isReleases (fst (FirebaseAppDistributionProvider_search api options))
         = [Releases projectNumber app 50]"
  by (auto simp: FirebaseAppDistributionProvider_search_def findApp_def
      FirebaseAppDistributionProvider_request_def Let_def
      split: prod.splits sum.splits option.splits if_splits)

subsection \<open>The loops stop at the limit\<close>

lemma artifactLoop_stops:
  "artifactLoop options run as acc = Return result \<Longrightarrow>
     artifactLoop options run (as @ later) acc = Return result"
  by (induction as arbitrary: acc) (auto simp: Let_def split: if_splits)

lemma actionLoop_stops:
  "actionLoop api options run acts acc log = (log', Inr (Return result)) \<Longrightarrow>
     actionLoop api options run (acts @ later) acc log = (log', Inr (Return result))"
proof (induction acts arbitrary: acc log)
  case Nil
  then show ?case by simp
next
  case (Cons act acts)
  obtain l1 res1 where r: "AppStoreConnectProvider_request api (Artifacts (action_id act))
      (getArtifacts api (action_id act)) log = (l1, res1)"
    by (cases "AppStoreConnectProvider_request api (Artifacts (action_id act))
      (getArtifacts api (action_id act)) log")
  show ?case
  proof (cases res1)
    case (Inl e)
    with r Cons.prems show ?thesis by simp
  next
    case (Inr arts)
    show ?thesis
    proof (cases "artifactLoop options run arts acc")
      case (Continue acc')
      with r Inr Cons.prems
      have "actionLoop api options run acts acc' l1 = (log', Inr (Return result))" by simp
      from Cons.IH [OF this] r Inr Continue show ?thesis by simp
    next
      case (Return result')
      with r Inr Cons.prems show ?thesis by simp
    qed
  qed
qed

lemma buildRunLoop_stops:
  "buildRunLoop api options runs acc log = (log', Inr (Return result)) \<Longrightarrow>
     buildRunLoop api options (runs @ later) acc log = (log', Inr (Return result))"
proof (induction runs arbitrary: acc log)
  case Nil
  then show ?case by simp
next
  case (Cons run runs)
  show ?case
  proof (cases "truthy (SearchOptions.buildNumber options) \<and>
         toString (run_number run) \<noteq> the (SearchOptions.buildNumber options)")
    case True
    with Cons.prems
    have "buildRunLoop api options runs acc log = (log', Inr (Return result))" by simp
    from Cons.IH [OF this] True show ?thesis by simp
  next
    case False
    obtain l1 res1 where r: "AppStoreConnectProvider_request api (Actions (run_id run))
        (getActions api (run_id run)) log = (l1, res1)"
      by (cases "AppStoreConnectProvider_request api (Actions (run_id run)) (getActions api (run_id run)) log")
    show ?thesis
    proof (cases res1)
      case (Inl e)
      with False r Cons.prems show ?thesis by auto
    next
      case (Inr acts)
      let ?arch = "filter (\<lambda>action. action_actionType action = ''ARCHIVE'') acts"
      obtain l2 res2 where r2: "actionLoop api options run ?arch acc l1 = (l2, res2)"
        by (cases "actionLoop api options run ?arch acc l1")
      show ?thesis
      proof (cases res2)
        case (Inl e)
        with False r Inr r2 Cons.prems show ?thesis by auto
      next
        case (Inr lp2)
        show ?thesis
        proof (cases lp2)
          case (Continue acc')
          with False r \<open>res1 = Inr acts\<close> r2 Inr Cons.prems
          have "buildRunLoop api options runs acc' l2 = (log', Inr (Return result))" by auto
          from Cons.IH [OF this] False r \<open>res1 = Inr acts\<close> r2 Inr Continue
          show ?thesis by auto
        next
          case (Return result')
          with False r \<open>res1 = Inr acts\<close> r2 Inr Cons.prems show ?thesis by auto
        qed
      qed
    qed
  qed
qed

lemma releaseLoop_Cons:
  "releaseLoop app options (r # rels) acc =
     (if skipsRelease app options r then releaseLoop app options rels acc
      else if limitOr3 options \<le> int (length (acc @ [releaseArtifact app r]))
        then acc @ [releaseArtifact app r]
      else releaseLoop app options rels (acc @ [releaseArtifact app r]))"
  by (simp add: skipsRelease_def Let_def)

lemma releaseLoop_length: "length acc \<le> length (releaseLoop app options rels acc)"
proof (induction rels arbitrary: acc)
  case Nil
  show ?case by simp
next
  case (Cons r rels)
  have "length acc \<le> length (releaseLoop app options rels (acc @ [releaseArtifact app r]))"
    using Cons [of "acc @ [releaseArtifact app r]"] by simp
  with Cons [of acc] show ?case by (simp add: releaseLoop_Cons del: releaseLoop.simps)
qed

lemma releaseLoop_stops:
  "int (length acc) < limitOr3 options \<Longrightarrow>
   limitOr3 options \<le> int (length (releaseLoop app options rels acc)) \<Longrightarrow>
     releaseLoop app options (rels @ later) acc = releaseLoop app options rels acc"
proof (induction rels arbitrary: acc)
  case Nil
  then show ?case by simp
next
  case (Cons r rels)
  let ?acc = "acc @ [releaseArtifact app r]"
  show ?case
  proof (cases "skipsRelease app options r")
    case True
    with Cons.prems(2) have "limitOr3 options \<le> int (length (releaseLoop app options rels acc))"
      by (simp add: releaseLoop_Cons del: releaseLoop.simps)
    from Cons.IH [OF Cons.prems(1) this] True show ?thesis
      by (simp add: releaseLoop_Cons del: releaseLoop.simps)
  next
    case False
    show ?thesis
    proof (cases "limitOr3 options \<le> int (length ?acc)")
      case True
      with False show ?thesis by (simp add: releaseLoop_Cons del: releaseLoop.simps)
    next
      case nle: False
      then have lt: "int (length ?acc) < limitOr3 options" by simp
      from Cons.prems(2) False nle
      have "limitOr3 options \<le> int (length (releaseLoop app options rels ?acc))"
        by (simp add: releaseLoop_Cons del: releaseLoop.simps)
      from Cons.IH [OF lt this] False nle show ?thesis
        by (simp add: releaseLoop_Cons del: releaseLoop.simps)
    qed
  qed
qed

lemma example_overfetch:
  "generateToken (exampleApi stream8) = Inr ''token''"
  "getCiProducts (exampleApi stream8) = Inr (Some [\<lparr>product_id = ''p1'', product_name = ''App''\<rparr>])"
  "find (\<lambda>p. product_name p = appId scenarioOptions) [\<lparr>product_id = ''p1'', product_name = ''App''\<rparr>]
     = Some \<lparr>product_id = ''p1'', product_name = ''App''\<rparr>"
  "limitOr3 scenarioOptions = 3"
  "\<not> isl (snd (AppStoreConnectProvider_search (exampleApi stream8) scenarioOptions))"
  "\<not> isl (snd (FirebaseAppDistributionProvider_search (exampleFirebase releases60) search50))"
  "limitOr3 search50 = 50"
  by code_simp+

text \<open>
  Claim C8, as the code has it. The App Store Connect search requests the build runs
  once, with the limit \<open>max(3 * L, 20)\<close> for the requested limit \<open>L\<close>; the Firebase search
  requests the releases once, with the page size 50 whatever \<open>L\<close> is. For \<open>L\<close> of at
  least 1 either search returns at most \<open>L\<close> artifacts, and either loop stops as soon as
  it holds \<open>L\<close>: what comes later in the answer is not read and nothing more is
  requested.
\<close>

theorem overfetch_policy:
  "(generateToken api = Inr token \<and> getCiProducts api = Inr (Some products) \<and>
    find (\<lambda>p. product_name p = appId options) products = Some product \<longrightarrow>
      filter isBuildRuns (fst (AppStoreConnectProvider_search api options)) =
        [BuildRuns (product_id product) (max (3 * limitOr3 options) 20)])
   \<and>
   (snd (FirebaseAppDistributionProvider_search fb options) = Inr fromFirebase \<longrightarrow>
      (\<exists>projectNumber app.
         filter isReleases (fst (FirebaseAppDistributionProvider_search fb options))
           = [Releases projectNumber app 50]))
   \<and>
   (1 \<le> limitOr3 options \<longrightarrow>
      (snd (AppStoreConnectProvider_search api options) = Inr fromAppStoreConnect \<longrightarrow>
         int (length fromAppStoreConnect) \<le> limitOr3 options) \<and>
      (snd (FirebaseAppDistributionProvider_search fb options) = Inr fromFirebase \<longrightarrow>
         int (length fromFirebase) \<le> limitOr3 options) \<and>
      (buildRunLoop api options runs [] log = (log', Inr (Return result)) \<longrightarrow>
         int (length result) = limitOr3 options \<and>
         buildRunLoop api options (runs @ laterRuns) [] log = (log', Inr (Return result))) \<and>
      (limitOr3 options \<le> int (length (releaseLoop app options releases [])) \<longrightarrow>
         releaseLoop app options (releases @ laterReleases) []
           = releaseLoop app options releases []))"
proof -
  have a: "filter isBuildRuns (fst (AppStoreConnectProvider_search api options)) =
        [BuildRuns (product_id product) (max (3 * limitOr3 options) 20)]"
    if "generateToken api = Inr token \<and> getCiProducts api = Inr (Some products) \<and>
      find (\<lambda>p. product_name p = appId options) products = Some product"
    using search_requests_build_runs [of api token products options product] that
    by (simp add: mult.commute)
  have f: "\<exists>projectNumber app.
         filter isReleases (fst (FirebaseAppDistributionProvider_search fb options))
           = [Releases projectNumber app 50]"
    if "snd (FirebaseAppDistributionProvider_search fb options) = Inr fromFirebase"
    using firebase_requests_releases [OF that] .
  have la: "int (length fromAppStoreConnect) \<le> limitOr3 options"
    if "1 \<le> limitOr3 options"
      "snd (AppStoreConnectProvider_search api options) = Inr fromAppStoreConnect"
    using AppStoreConnectProvider_search_length [OF that] .
  have lf: "int (length fromFirebase) \<le> limitOr3 options"
    if "1 \<le> limitOr3 options"
      "snd (FirebaseAppDistributionProvider_search fb options) = Inr fromFirebase"
    using FirebaseAppDistributionProvider_search_length [OF that] .
  have sa: "int (length result) = limitOr3 options \<and>
         buildRunLoop api options (runs @ laterRuns) [] log = (log', Inr (Return result))"
    if "1 \<le> limitOr3 options" "buildRunLoop api options runs [] log = (log', Inr (Return result))"
    using buildRunLoop_within [of "[]" options api runs log log' "Return result"]
      buildRunLoop_stops [OF that(2), of laterRuns] that
    by simp
  have sf: "releaseLoop app options (releases @ laterReleases) []
           = releaseLoop app options releases []"
    if "1 \<le> limitOr3 options" "limitOr3 options \<le> int (length (releaseLoop app options releases []))"
    using releaseLoop_stops [of "[]" options app releases laterReleases] that by simp
  from a f la lf sa sf show ?thesis by blast
qed

theorem overfetch_policy_witness:
  "filter isBuildRuns (fst (AppStoreConnectProvider_search (exampleApi stream8) scenarioOptions))
     = [BuildRuns ''p1'' 20] \<and>
   length (projr (snd (AppStoreConnectProvider_search (exampleApi stream8) scenarioOptions))) \<le> 3 \<and>
   length (projr (snd (FirebaseAppDistributionProvider_search (exampleFirebase releases60) search50)))
     \<le> 50"
proof -
  have 1: "filter isBuildRuns (fst (AppStoreConnectProvider_search (exampleApi stream8) scenarioOptions))
     = [BuildRuns (product_id \<lparr>product_id = ''p1'', product_name = ''App''\<rparr>)
          (max (3 * limitOr3 scenarioOptions) 20)]"
    using overfetch_policy [where api = "exampleApi stream8" and options = scenarioOptions
        and token = "''token''" and products = "[\<lparr>product_id = ''p1'', product_name = ''App''\<rparr>]"
        and product = "\<lparr>product_id = ''p1'', product_name = ''App''\<rparr>"]
      example_overfetch(1,2,3)
    by blast
  have s: "snd (AppStoreConnectProvider_search (exampleApi stream8) scenarioOptions)
      = Inr (projr (snd (AppStoreConnectProvider_search (exampleApi stream8) scenarioOptions)))"
    using example_overfetch(5) by simp
  have 2: "int (length (projr (snd (AppStoreConnectProvider_search (exampleApi stream8) scenarioOptions))))
      \<le> limitOr3 scenarioOptions"
    using overfetch_policy [where api = "exampleApi stream8" and options = scenarioOptions
        and fromAppStoreConnect = "projr (snd (AppStoreConnectProvider_search (exampleApi stream8) scenarioOptions))"]
      s example_overfetch(4)
    by simp
  have t: "snd (FirebaseAppDistributionProvider_search (exampleFirebase releases60) search50)
      = Inr (projr (snd (FirebaseAppDistributionProvider_search (exampleFirebase releases60) search50)))"
    using example_overfetch(6) by simp
  have 3: "int (length (projr (snd (FirebaseAppDistributionProvider_search (exampleFirebase releases60) search50))))
      \<le> limitOr3 search50"
    using overfetch_policy [where fb = "exampleFirebase releases60" and options = search50
        and fromFirebase = "projr (snd (FirebaseAppDistributionProvider_search (exampleFirebase releases60) search50))"]
      t example_overfetch(7)
    by simp
  from 1 2 3 show ?thesis by (simp add: example_overfetch(4,7))
qed

theorem overfetch_policy_counterexample:
  "filter isReleases
     (fst (FirebaseAppDistributionProvider_search (exampleFirebase releases60) search50))
     = [Releases ''1234567890'' ''1:1234567890:android:abcdef'' 50]
   \<and> limitOr3 search50 = 50
   \<and> (50 :: int) < max (3 * limitOr3 search50) 20"
  by code_simp


section \<open>Properties of the errors\<close>














subsection \<open>The first of the candidates, in their order\<close>

lemma stopAt_append:
  "stopAt L xs = Return r \<Longrightarrow> stopAt L (xs @ ys) = Return r"
  by (auto simp: stopAt_def split: if_splits)

lemma stopAt_full: "int (length xs) = L \<Longrightarrow> stopAt L (xs @ ys) = Return xs"
proof -
  assume "int (length xs) = L"
  then have "nat L = length xs" by simp
  then show ?thesis by (simp add: stopAt_def)
qed

lemma stopAt_Continue: "stopAt L xs = Continue ys \<Longrightarrow> ys = xs \<and> int (length xs) < L"
  by (auto simp: stopAt_def split: if_splits)

lemma artifactLoop_stopAt:
  "int (length acc) < limitOr3 options \<Longrightarrow>
     artifactLoop options run as acc =
       stopAt (limitOr3 options)
         (acc @ map (newArtifact options run)
                  (filter (\<lambda>a. passesTypeFilter options (artifactTypeOf (ci_fileName a))) as))"
proof (induction as arbitrary: acc)
  case Nil
  then show ?case by (simp add: stopAt_def)
next
  case (Cons a as)
  show ?case
  proof (cases "passesTypeFilter options (artifactTypeOf (ci_fileName a))")
    case False
    with Cons show ?thesis by simp
  next
    case True
    let ?acc = "acc @ [newArtifact options run a]"
    show ?thesis
    proof (cases "limitOr3 options \<le> int (length ?acc)")
      case le: True
      with Cons.prems have eq: "int (length ?acc) = limitOr3 options" by simp
      then have "slice0 ?acc (limitOr3 options) = ?acc" by (rule slice0_all)
      moreover have "stopAt (limitOr3 options) (?acc @ ys) = Return ?acc" for ys
        using eq by (rule stopAt_full)
      ultimately show ?thesis using True le by (simp add: Let_def)
    next
      case False
      then have "int (length ?acc) < limitOr3 options" by simp
      from Cons.IH [OF this] True False show ?thesis by (simp add: Let_def)
    qed
  qed
qed

lemma actionLoop_stopAt:
  assumes "generateToken api = Inr token"
    and "\<forall>action\<in>set acts. \<not> isl (getArtifacts api (action_id action))"
    and "int (length acc) < limitOr3 options"
  shows "snd (actionLoop api options run acts acc log) =
           Inr (stopAt (limitOr3 options)
                  (acc @ concat (map (actionCandidates api options run) acts)))"
  using assms(2,3)
proof (induction acts arbitrary: acc log)
  case Nil
  then show ?case by (simp add: stopAt_def)
next
  case (Cons act acts)
  from Cons.prems(1) obtain arts where arts: "getArtifacts api (action_id act) = Inr arts"
    by (cases "getArtifacts api (action_id act)") auto
  have c: "actionCandidates api options run act =
      map (newArtifact options run)
        (filter (\<lambda>a. passesTypeFilter options (artifactTypeOf (ci_fileName a))) arts)"
    by (simp add: actionCandidates_def arts)
  have al: "artifactLoop options run arts acc =
      stopAt (limitOr3 options) (acc @ actionCandidates api options run act)"
    using artifactLoop_stopAt [OF Cons.prems(2)] by (simp add: c)
  show ?case
  proof (cases "stopAt (limitOr3 options) (acc @ actionCandidates api options run act)")
    case (Return r)
    from stopAt_append [OF this, of "concat (map (actionCandidates api options run) acts)"]
    show ?thesis using al Return by (simp add: request_ok [OF assms(1)] arts)
  next
    case (Continue acc')
    from stopAt_Continue [OF this]
    have acc': "acc' = acc @ actionCandidates api options run act"
      and lt: "int (length (acc @ actionCandidates api options run act)) < limitOr3 options"
      by simp_all
    have "\<forall>action\<in>set acts. \<not> isl (getArtifacts api (action_id action))"
      using Cons.prems(1) by simp
    from Cons.IH [OF this lt] show ?thesis
      using al Continue acc' by (simp add: request_ok [OF assms(1)] arts)
  qed
qed

lemma buildRunLoop_stopAt:
  assumes "generateToken api = Inr token"
    and "\<forall>run\<in>set runs. \<not> isl (getActions api (run_id run))"
    and "\<forall>run\<in>set runs. \<forall>action\<in>set (projr (getActions api (run_id run))).
           action_actionType action = ''ARCHIVE'' \<longrightarrow> \<not> isl (getArtifacts api (action_id action))"
    and "int (length acc) < limitOr3 options"
  shows "snd (buildRunLoop api options runs acc log) =
           Inr (stopAt (limitOr3 options) (acc @ candidates api options runs))"
  using assms(2,3,4)
proof (induction runs arbitrary: acc log)
  case Nil
  then show ?case by (simp add: stopAt_def candidates_def)
next
  case (Cons run runs)
  have rest: "\<forall>run\<in>set runs. \<not> isl (getActions api (run_id run))"
    "\<forall>run\<in>set runs. \<forall>action\<in>set (projr (getActions api (run_id run))).
           action_actionType action = ''ARCHIVE'' \<longrightarrow> \<not> isl (getArtifacts api (action_id action))"
    using Cons.prems(1,2) by simp_all
  have cs: "candidates api options (run # runs) =
      runCandidates api options run @ candidates api options runs"
    by (simp add: candidates_def)
  show ?case
  proof (cases "truthy (SearchOptions.buildNumber options) \<and>
         toString (run_number run) \<noteq> the (SearchOptions.buildNumber options)")
    case True
    then have "runCandidates api options run = []" by (simp add: runCandidates_def)
    with Cons.IH [OF rest Cons.prems(3), of log] True show ?thesis by (simp add: cs)
  next
    case False
    from Cons.prems(1) obtain acts where acts: "getActions api (run_id run) = Inr acts"
      by (cases "getActions api (run_id run)") auto
    let ?arch = "filter (\<lambda>action. action_actionType action = ''ARCHIVE'') acts"
    have rc: "runCandidates api options run =
        concat (map (actionCandidates api options run) ?arch)"
      using False by (auto simp: runCandidates_def acts)
    have ok: "\<forall>action\<in>set ?arch. \<not> isl (getArtifacts api (action_id action))"
      using Cons.prems(2) acts by simp
    obtain l2 res2 where r2: "actionLoop api options run ?arch acc (log @ [Actions (run_id run)])
        = (l2, res2)"
      by (cases "actionLoop api options run ?arch acc (log @ [Actions (run_id run)])")
    have res2: "res2 = Inr (stopAt (limitOr3 options) (acc @ runCandidates api options run))"
      using actionLoop_stopAt [OF assms(1) ok Cons.prems(3), of run "log @ [Actions (run_id run)]"]
        r2 by (simp add: rc)
    show ?thesis
    proof (cases "stopAt (limitOr3 options) (acc @ runCandidates api options run)")
      case (Return r)
      from stopAt_append [OF this, of "candidates api options runs"]
      show ?thesis
        using False r2 res2 Return by (auto simp: request_ok [OF assms(1)] acts cs)
    next
      case (Continue acc')
      from stopAt_Continue [OF this]
      have acc': "acc' = acc @ runCandidates api options run"
        and lt: "int (length (acc @ runCandidates api options run)) < limitOr3 options"
        by simp_all
      from Cons.IH [OF rest lt, of l2] show ?thesis
        using False r2 res2 Continue acc' by (auto simp: request_ok [OF assms(1)] acts cs)
    qed
  qed
qed

lemma carried_stopAt: "0 \<le> L \<Longrightarrow> carried (stopAt L xs) = take (nat L) xs"
  by (auto simp: stopAt_def)

lemma search_first_candidates:
  assumes "generateToken api = Inr token"
    and "getCiProducts api = Inr (Some products)"
    and "find (\<lambda>p. product_name p = appId options) products = Some product"
    and "getBuildRuns api (product_id product) (max (limitOr3 options * 3) 20) = Inr runs"
    and "\<forall>run\<in>set runs. \<not> isl (getActions api (run_id run))"
    and "\<forall>run\<in>set runs. \<forall>action\<in>set (projr (getActions api (run_id run))).
           action_actionType action = ''ARCHIVE'' \<longrightarrow> \<not> isl (getArtifacts api (action_id action))"
    and "1 \<le> limitOr3 options"
  shows "snd (AppStoreConnectProvider_search api options) =
           Inr (take (nat (limitOr3 options)) (candidates api options runs))"
proof -
  let ?log = "[CiProducts, BuildRuns (product_id product) (max (limitOr3 options * 3) 20)]"
  from buildRunLoop_stopAt [OF assms(1) assms(5) assms(6), of "[]" options ?log] assms(7)
  have l: "snd (buildRunLoop api options runs [] ?log) =
      Inr (stopAt (limitOr3 options) (candidates api options runs))" by simp
  obtain l3 res3 where b: "buildRunLoop api options runs [] ?log = (l3, res3)"
    by (cases "buildRunLoop api options runs [] ?log")
  with l have res3: "res3 = Inr (stopAt (limitOr3 options) (candidates api options runs))"
    by simp
  have c: "carried (stopAt (limitOr3 options) (candidates api options runs))
      = take (nat (limitOr3 options)) (candidates api options runs)"
    using assms(7) by (simp add: carried_stopAt)
  show ?thesis
    using assms(2,3,4) b res3 c
    by (cases "stopAt (limitOr3 options) (candidates api options runs)")
       (simp_all add: AppStoreConnectProvider_search_def request_ok [OF assms(1)] Let_def)
qed

lemma candidates_pass:
  "a \<in> set (candidates api options runs) \<Longrightarrow>
     passesTypeFilter options (Artifact.artifactType a)"
  by (auto simp: candidates_def runCandidates_def actionCandidates_def newArtifact_def
      split: if_splits)

lemma determineArtifactType_None:
  "determineArtifactType app None \<in> {''ipa'', ''apk'', ''unknown''}"
  by (simp add: determineArtifactType_def truthy_def)

lemma skipsRelease_ipa:
  assumes "SearchOptions.artifactType options = Some ''ipa''"
    and "\<not> truthy (SearchOptions.buildNumber options)" "\<not> truthy (SearchOptions.version options)"
  shows "skipsRelease app options release \<longleftrightarrow> determineArtifactType app None \<notin> ipaCompatible"
  using assms determineArtifactType_None [of app]
  by (auto simp: skipsRelease_def ipaCompatible_def truthy_def)

lemma example_candidates:
  "generateToken (exampleApi stream8) = Inr ''token''"
  "getCiProducts (exampleApi stream8) = Inr (Some [\<lparr>product_id = ''p1'', product_name = ''App''\<rparr>])"
  "find (\<lambda>p. product_name p = appId scenarioOptions) [\<lparr>product_id = ''p1'', product_name = ''App''\<rparr>]
     = Some \<lparr>product_id = ''p1'', product_name = ''App''\<rparr>"
  "getBuildRuns (exampleApi stream8) (product_id \<lparr>product_id = ''p1'', product_name = ''App''\<rparr>)
     (max (limitOr3 scenarioOptions * 3) 20) = Inr runs8"
  "\<forall>run\<in>set runs8. \<not> isl (getActions (exampleApi stream8) (run_id run))"
  "\<forall>run\<in>set runs8. \<forall>action\<in>set (projr (getActions (exampleApi stream8) (run_id run))).
      action_actionType action = ''ARCHIVE'' \<longrightarrow>
      \<not> isl (getArtifacts (exampleApi stream8) (action_id action))"
  "1 \<le> limitOr3 scenarioOptions"
  "SearchOptions.artifactType scenarioOptions = Some ''ipa''"
  "map Artifact.id (candidates (exampleApi stream8) scenarioOptions runs8)
     = [''art-8-0'', ''art-7-0'', ''art-5-0'', ''art-4-0'', ''art-3-0'', ''art-2-0'', ''art-1-0'']"
  "nat (limitOr3 scenarioOptions) = 3"
  by code_simp+

text \<open>
  Claim C4. Under the filter \<open>artifactType = ipa\<close> an artifact passes exactly when the type
  read from its file name is one of development, ad_hoc, app_store and ipa; every
  artifact that the App Store Connect search returns has such a type, and where no
  request fails the search returns the first \<open>limit\<close> of the artifacts that pass, in the
  order of the upstream. The Firebase search, whose types are ipa, apk and unknown,
  passes over a release for its type exactly when the type is none of the four. In the
  scenario (limit 3, filter ipa, the stream ad hoc, ad hoc, logs, five times
  development, newest first) the search returns the three artifacts of the builds 8, 7
  and 5: ad hoc, ad hoc, development, the logs of build 6 skipped.
\<close>

theorem ipa_filter:
  "(SearchOptions.artifactType options = Some ''ipa'' \<longrightarrow>
      (passesTypeFilter options t \<longleftrightarrow> t \<in> ipaCompatible) \<and>
      (\<forall>found. snd (AppStoreConnectProvider_search api options) = Inr found \<longrightarrow>
         (\<forall>a\<in>set found. Artifact.artifactType a \<in> ipaCompatible \<and>
                         Artifact.artifactType a = artifactTypeOf (fileName a))) \<and>
      (generateToken api = Inr token \<and> getCiProducts api = Inr (Some products) \<and>
       find (\<lambda>p. product_name p = appId options) products = Some product \<and>
       getBuildRuns api (product_id product) (max (limitOr3 options * 3) 20) = Inr runs \<and>
       (\<forall>run\<in>set runs. \<not> isl (getActions api (run_id run))) \<and>
       (\<forall>run\<in>set runs. \<forall>action\<in>set (projr (getActions api (run_id run))).
           action_actionType action = ''ARCHIVE'' \<longrightarrow>
           \<not> isl (getArtifacts api (action_id action))) \<and>
       1 \<le> limitOr3 options \<longrightarrow>
         snd (AppStoreConnectProvider_search api options) =
           Inr (take (nat (limitOr3 options)) (candidates api options runs)) \<and>
         (\<forall>a\<in>set (candidates api options runs). Artifact.artifactType a \<in> ipaCompatible)) \<and>
      (\<not> truthy (SearchOptions.buildNumber options) \<and> \<not> truthy (SearchOptions.version options) \<longrightarrow>
         (skipsRelease app options release \<longleftrightarrow>
            determineArtifactType app None \<notin> ipaCompatible)))
   \<and> map (\<lambda>(k, names). map artifactTypeOf names) stream8 =
       [[''ad_hoc''], [''ad_hoc''], [''logs''], [''development''], [''development''],
        [''development''], [''development''], [''development'']]
   \<and> map (\<lambda>a. (Artifact.buildNumber a, Artifact.artifactType a))
         (projr (snd (AppStoreConnectProvider_search (exampleApi stream8) scenarioOptions))) =
       [(''8'', ''ad_hoc''), (''7'', ''ad_hoc''), (''5'', ''development'')]"
proof -
  have s: "\<forall>a\<in>set found. Artifact.artifactType a \<in> ipaCompatible \<and>
                         Artifact.artifactType a = artifactTypeOf (fileName a)"
    if ipa: "SearchOptions.artifactType options = Some ''ipa''"
      and found: "snd (AppStoreConnectProvider_search api options) = Inr found" for found
  proof (rule search_all [OF _ found])
    fix run and a :: CiArtifact
    assume "passesTypeFilter options (artifactTypeOf (ci_fileName a))"
    then show "Artifact.artifactType (newArtifact options run a) \<in> ipaCompatible \<and>
        Artifact.artifactType (newArtifact options run a) = artifactTypeOf (fileName (newArtifact options run a))"
      using passes_ipa [OF ipa] by (simp add: newArtifact_def)
  qed
  have c: "snd (AppStoreConnectProvider_search api options) =
           Inr (take (nat (limitOr3 options)) (candidates api options runs)) \<and>
         (\<forall>a\<in>set (candidates api options runs). Artifact.artifactType a \<in> ipaCompatible)"
    if ipa: "SearchOptions.artifactType options = Some ''ipa''"
      and h: "generateToken api = Inr token \<and> getCiProducts api = Inr (Some products) \<and>
       find (\<lambda>p. product_name p = appId options) products = Some product \<and>
       getBuildRuns api (product_id product) (max (limitOr3 options * 3) 20) = Inr runs \<and>
       (\<forall>run\<in>set runs. \<not> isl (getActions api (run_id run))) \<and>
       (\<forall>run\<in>set runs. \<forall>action\<in>set (projr (getActions api (run_id run))).
           action_actionType action = ''ARCHIVE'' \<longrightarrow>
           \<not> isl (getArtifacts api (action_id action))) \<and>
       1 \<le> limitOr3 options"
  proof
    from h show "snd (AppStoreConnectProvider_search api options) =
           Inr (take (nat (limitOr3 options)) (candidates api options runs))"
      using search_first_candidates [of api token products options product runs] by blast
    show "\<forall>a\<in>set (candidates api options runs). Artifact.artifactType a \<in> ipaCompatible"
      using candidates_pass [of _ api options runs] passes_ipa [OF ipa] by blast
  qed
  have f: "skipsRelease app options release \<longleftrightarrow> determineArtifactType app None \<notin> ipaCompatible"
    if "SearchOptions.artifactType options = Some ''ipa''"
      "\<not> truthy (SearchOptions.buildNumber options) \<and> \<not> truthy (SearchOptions.version options)"
    using skipsRelease_ipa [of options app release] that by blast
  have A: "SearchOptions.artifactType options = Some ''ipa'' \<longrightarrow>
      (passesTypeFilter options t \<longleftrightarrow> t \<in> ipaCompatible) \<and>
      (\<forall>found. snd (AppStoreConnectProvider_search api options) = Inr found \<longrightarrow>
         (\<forall>a\<in>set found. Artifact.artifactType a \<in> ipaCompatible \<and>
                         Artifact.artifactType a = artifactTypeOf (fileName a))) \<and>
      (generateToken api = Inr token \<and> getCiProducts api = Inr (Some products) \<and>
       find (\<lambda>p. product_name p = appId options) products = Some product \<and>
       getBuildRuns api (product_id product) (max (limitOr3 options * 3) 20) = Inr runs \<and>
       (\<forall>run\<in>set runs. \<not> isl (getActions api (run_id run))) \<and>
       (\<forall>run\<in>set runs. \<forall>action\<in>set (projr (getActions api (run_id run))).
           action_actionType action = ''ARCHIVE'' \<longrightarrow>
           \<not> isl (getArtifacts api (action_id action))) \<and>
       1 \<le> limitOr3 options \<longrightarrow>
         snd (AppStoreConnectProvider_search api options) =
           Inr (take (nat (limitOr3 options)) (candidates api options runs)) \<and>
         (\<forall>a\<in>set (candidates api options runs). Artifact.artifactType a \<in> ipaCompatible)) \<and>
      (\<not> truthy (SearchOptions.buildNumber options) \<and> \<not> truthy (SearchOptions.version options) \<longrightarrow>
         (skipsRelease app options release \<longleftrightarrow>
            determineArtifactType app None \<notin> ipaCompatible))"
    using passes_ipa [of options t] s c f by blast
  have C: "map (\<lambda>a. (Artifact.buildNumber a, Artifact.artifactType a))
         (projr (snd (AppStoreConnectProvider_search (exampleApi stream8) scenarioOptions))) =
       [(''8'', ''ad_hoc''), (''7'', ''ad_hoc''), (''5'', ''development'')]"
    by (simp add: scenario)
  from A stream8_types C show ?thesis by (intro conjI)
qed

theorem ipa_filter_witness:
  "SearchOptions.artifactType scenarioOptions = Some ''ipa'' \<and>
   passesTypeFilter scenarioOptions ''development'' \<and>
   passesTypeFilter scenarioOptions ''ad_hoc'' \<and>
   passesTypeFilter scenarioOptions ''app_store'' \<and>
   passesTypeFilter scenarioOptions ''ipa'' \<and>
   \<not> passesTypeFilter scenarioOptions ''logs'' \<and>
   \<not> passesTypeFilter scenarioOptions ''archive'' \<and>
   map Artifact.id (candidates (exampleApi stream8) scenarioOptions runs8)
     = [''art-8-0'', ''art-7-0'', ''art-5-0'', ''art-4-0'', ''art-3-0'', ''art-2-0'', ''art-1-0''] \<and>
   map Artifact.id (projr (snd (AppStoreConnectProvider_search (exampleApi stream8) scenarioOptions)))
     = [''art-8-0'', ''art-7-0'', ''art-5-0'']"
proof -
  have o: "SearchOptions.artifactType scenarioOptions = Some ''ipa''"
    by (simp add: scenarioOptions_def)
  have p: "passesTypeFilter scenarioOptions t \<longleftrightarrow> t \<in> ipaCompatible" for t
    using ipa_filter [of scenarioOptions t "exampleApi stream8"] o by blast
  have "snd (AppStoreConnectProvider_search (exampleApi stream8) scenarioOptions) =
      Inr (take (nat (limitOr3 scenarioOptions))
             (candidates (exampleApi stream8) scenarioOptions runs8))"
    using ipa_filter [where options = scenarioOptions and api = "exampleApi stream8"
        and token = "''token''" and products = "[\<lparr>product_id = ''p1'', product_name = ''App''\<rparr>]"
        and product = "\<lparr>product_id = ''p1'', product_name = ''App''\<rparr>" and runs = runs8]
      example_candidates(1-8)
    by blast
  then have "map Artifact.id (projr (snd (AppStoreConnectProvider_search (exampleApi stream8) scenarioOptions)))
      = take 3 (map Artifact.id (candidates (exampleApi stream8) scenarioOptions runs8))"
    by (simp add: example_candidates(10) take_map)
  then show ?thesis
    using o by (simp add: p ipaCompatible_def example_candidates(9))
qed

end
